theory Spec2Isabelle
  imports Main "HOL-Library.AList"
begin

section \<open>Data model\<close>

text \<open>
  The wallet service: the type \<^verbatim>\<open>Service\<close> of package \<^verbatim>\<open>wallet\<close> and its methods. The
  rest of the package (the \<^verbatim>\<open>Wallet\<close> entity with its guard protocol, the \<^verbatim>\<open>Wallets\<close>
  map, persistence) is not among the sources; what the service calls of it is modelled
  from the specification, and each such definition says so. The Go code hands wallets
  around as
  pointers (\<^verbatim>\<open>*Wallet\<close>), clones them on the way in and out of the store, and mutates
  the clones in place. To keep that visible, wallet objects live in an explicit heap:
  a reference is an index into a list of wallet values, a new object is appended, a
  mutation through a pointer overwrites one cell.
\<close>

type_synonym address = string
type_synonym ref = nat

datatype CryptoType = CryptoTypeScryptChacha20poly1305 | CryptoTypeSha256Xor

text \<open>
  The sentinel errors that the service returns keep their Go names. The errors built
  with \<^verbatim>\<open>fmt.Errorf\<close> in \<^verbatim>\<open>NewService\<close> get a constructor each. \<open>Panic\<close> stands for a
  Go run-time panic (nil dereference, index out of range).
\<close>

datatype error =
    ErrWalletAPIDisabled
  | ErrSeedAPIDisabled
  | ErrWalletNotExist
  | ErrWalletEncrypted
  | ErrWalletNotEncrypted
  | ErrMissingPassword
  | ErrSeedUsed
  | ErrWalletNotDeterministic
  | ErrWalletRecoverSeedWrong
  | ErrWalletNameConflict
  | ErrInvalidPassword
  | ErrSaveFailed
  | ErrCreateDirectory
  | ErrRemoveBackupFiles
  | ErrLoadWallets
  | ErrDuplicateWallet address string
  | ErrEmptyWallet string
  | Panic
  | ErrOther string

record Entry =
  Address :: address
  Public :: string
  Secret :: "string option"

text \<open>
  The opaque encrypted blob of a locked wallet. Encryption is symbolic: the blob records
  the scheme, the password it was sealed with, the seed and the private key of every entry,
  and opens only with the same password.
\<close>

datatype sealed = Sealed CryptoType string "string option" "string option list"

record Wallet =
  metaFilename :: string
  metaLabel :: string
  metaCoin :: string
  metaType :: string
  metaCryptoType :: CryptoType
  metaEncrypted :: bool
  metaSeed :: "string option"
  metaSecrets :: "sealed option"
  metaTm :: int
  Entries :: "Entry list"

record Options =
  Coin :: string
  Label :: string
  Seed :: string
  Encrypt :: bool
  Password :: string
  CryptoType :: CryptoType
  GenerateN :: nat
  ScanN :: nat

type_synonym Transaction = string
type_synonym UxBalance = string
type_synonym AddressUxOuts = "(address \<times> string list) list"

record CreateTransactionParams =
  WalletID :: string
  WalletPassword :: string
  Spend :: string

text \<open>
  What the service takes from outside its package and what the environment decides:
  the key derivation and address format of package \<^verbatim>\<open>cipher\<close>, the validators, the
  wallet-level transaction builder (which may write to the wallet it is handed), the
  outcome of each file-system call, the stream of names \<^verbatim>\<open>NewWalletFilename\<close> draws,
  and the clock. Every theorem below holds for all of them.
\<close>

record deps =
  DeterministicKeyPair :: "string \<Rightarrow> nat \<Rightarrow> string \<times> string"
  SeedRejected :: "string \<Rightarrow> error option"
  addressConstructor :: "string \<Rightarrow> string \<Rightarrow> address"
  ValidateOptions :: "Options \<Rightarrow> error option"
  ValidateParams :: "CreateTransactionParams \<Rightarrow> error option"
  WalletCreateTransaction ::
    "Wallet \<Rightarrow> CreateTransactionParams \<Rightarrow> AddressUxOuts \<Rightarrow> nat
       \<Rightarrow> (error + Transaction \<times> UxBalance list) \<times> Wallet"
  SaveFails :: "string \<Rightarrow> Wallet \<Rightarrow> bool"
  MkdirAllFails :: "string \<Rightarrow> bool"
  RemoveBackupFails :: "string \<Rightarrow> bool"
  LoadFails :: "string \<Rightarrow> bool"
  NewWalletFilename :: "nat \<Rightarrow> string"
  Now :: int

record Service =
  wallets :: "(string \<times> ref) list"
  firstAddrIDMap :: "string \<rightharpoonup> string"
  walletDirectory :: string
  cryptoType :: CryptoType
  enableWalletAPI :: bool
  enableSeedAPI :: bool

text \<open>
  The state a call runs in: the service, the heap of wallet objects, and the wallet
  files on disk, keyed by directory and file name.
\<close>

record world =
  serv :: Service
  heap :: "Wallet list"
  disk :: "((string \<times> string) \<times> Wallet) list"

definition WalletTypeDeterministic :: string where
  "WalletTypeDeterministic = ''deterministic''"

section \<open>The heap\<close>

definition cell :: "world \<Rightarrow> ref \<Rightarrow> Wallet option" where
  "cell W r = (if r < length (heap W) then Some (heap W ! r) else None)"

definition alloc :: "Wallet \<Rightarrow> world \<Rightarrow> ref \<times> world" where
  "alloc v W = (length (heap W), W\<lparr>heap := heap W @ [v]\<rparr>)"

definition assign :: "ref \<Rightarrow> Wallet \<Rightarrow> world \<Rightarrow> world" where
  "assign r v W = W\<lparr>heap := (heap W)[r := v]\<rparr>"

text \<open>
  Modelled from the spec: \<^verbatim>\<open>Wallet.clone\<close> (not among the sources) is
  the explicit deep-copy operation of the Wallet entity: a new object with the same
  contents.
\<close>

definition clone :: "ref \<Rightarrow> world \<Rightarrow> (error + ref) \<times> world" where
  "clone w W =
     (case cell W w of
        None \<Rightarrow> (Inl Panic, W)
      | Some v \<Rightarrow> (case alloc v W of (r, W') \<Rightarrow> (Inr r, W')))"

section \<open>The wallet entity and the crypto guard protocol\<close>

text \<open>
  Modelled from the spec: \<^verbatim>\<open>Wallet.Lock\<close>. Plain to Encrypted: the seed and
  every entry's private key go into one blob sealed with the password under the scheme,
  the plaintext fields are discarded; it fails when the wallet is already encrypted.
\<close>

definition Lock :: "Wallet \<Rightarrow> string \<Rightarrow> CryptoType \<Rightarrow> error + Wallet" where
  "Lock w password ct =
     (if metaEncrypted w then Inl ErrWalletEncrypted
      else Inr (w\<lparr>metaCryptoType := ct,
                  metaEncrypted := True,
                  metaSecrets := Some (Sealed ct password (metaSeed w) (map Secret (Entries w))),
                  metaSeed := None,
                  Entries := map (\<lambda>e. e\<lparr>Secret := None\<rparr>) (Entries w)\<rparr>))"

text \<open>
  Modelled from the spec: \<^verbatim>\<open>Wallet.Unlock\<close>. Encrypted to Plain, as a new
  plaintext value; a wrong password is an authentication failure.
\<close>

definition Unlock :: "Wallet \<Rightarrow> string \<Rightarrow> error + Wallet" where
  "Unlock w password =
     (if \<not> metaEncrypted w then Inl ErrWalletNotEncrypted
      else case metaSecrets w of
        None \<Rightarrow> Inl ErrInvalidPassword
      | Some (Sealed ct pw sd secs) \<Rightarrow>
          if pw \<noteq> password then Inl ErrInvalidPassword
          else Inr (w\<lparr>metaEncrypted := False,
                      metaSecrets := None,
                      metaSeed := sd,
                      Entries := map (\<lambda>(e, s). e\<lparr>Secret := s\<rparr>) (zip (Entries w) secs)\<rparr>))"

text \<open>
  Modelled from the spec: \<^verbatim>\<open>Wallet.GuardView\<close>. The callback runs on a
  transient plaintext copy, which is discarded; the source wallet is neither written nor
  saved. A callback is a function of the wallet it is handed: it returns its result (what
  the Go closure stores in captured variables) and the wallet as it left it.
\<close>

definition GuardView :: "Wallet \<Rightarrow> string \<Rightarrow> (Wallet \<Rightarrow> (error + 'a) \<times> Wallet) \<Rightarrow> error + 'a" where
  "GuardView w password f =
     (case Unlock w password of
        Inl err \<Rightarrow> Inl err
      | Inr wlt \<Rightarrow> fst (f wlt))"

text \<open>
  Modelled from the spec: \<^verbatim>\<open>Wallet.GuardUpdate\<close>. The callback runs on a
  transient plaintext copy, which is locked again with the same password; the result
  replaces the caller's wallet only when every step succeeded.
\<close>

definition GuardUpdate ::
    "Wallet \<Rightarrow> string \<Rightarrow> (Wallet \<Rightarrow> (error + 'a) \<times> Wallet) \<Rightarrow> error + 'a \<times> Wallet" where
  "GuardUpdate w password f =
     (case Unlock w password of
        Inl err \<Rightarrow> Inl err
      | Inr wlt \<Rightarrow>
          (case f wlt of
             (Inl err, _) \<Rightarrow> Inl err
           | (Inr a, wlt') \<Rightarrow>
               (case Lock wlt' password (metaCryptoType w) of
                  Inl err \<Rightarrow> Inl err
                | Inr w' \<Rightarrow> Inr (a, w'))))"

text \<open>
  Modelled from the spec: the Address Scanner's derivation. Entry \<open>i\<close> is a fixed function
  of the seed and \<open>i\<close>; its address is a fixed function of the public key and the wallet's
  address format (its coin type).
\<close>

definition makeEntry :: "deps \<Rightarrow> string \<Rightarrow> string \<Rightarrow> nat \<Rightarrow> Entry" where
  "makeEntry D coin seed i =
     (case DeterministicKeyPair D seed i of
        (pk, sk) \<Rightarrow> \<lparr>Address = addressConstructor D coin pk, Public = pk, Secret = Some sk\<rparr>)"

text \<open>
  Modelled from the spec: \<^verbatim>\<open>cipher.GenerateDeterministicKeyPair\<close>, the key pair of index
  0 of a seed; the package may reject the seed.
\<close>

definition GenerateDeterministicKeyPair :: "deps \<Rightarrow> string \<Rightarrow> error + string \<times> string" where
  "GenerateDeterministicKeyPair D seed =
     (case SeedRejected D seed of
        Some err \<Rightarrow> Inl err
      | None \<Rightarrow> Inr (DeterministicKeyPair D seed 0))"

text \<open>
  Modelled from the spec: \<^verbatim>\<open>Wallet.GenerateSkycoinAddresses\<close> appends
  \<open>num\<close> derived entries to a plaintext wallet and returns their addresses.
\<close>

definition GenerateSkycoinAddresses :: "deps \<Rightarrow> nat \<Rightarrow> Wallet \<Rightarrow> (error + address list) \<times> Wallet" where
  "GenerateSkycoinAddresses D num w =
     (if metaEncrypted w then (Inl ErrWalletEncrypted, w)
      else case metaSeed w of
        None \<Rightarrow> (Inl (ErrOther ''missing seed''), w)
      | Some s \<Rightarrow>
          (let new = map (makeEntry D (metaCoin w) s)
                         [length (Entries w) ..< length (Entries w) + num]
           in (Inr (map Address new), w\<lparr>Entries := Entries w @ new\<rparr>)))"

text \<open>
  Modelled from the spec: \<^verbatim>\<open>NewWallet\<close> builds a deterministic wallet
  from the seed of the options with \<^verbatim>\<open>GenerateN\<close> entries, at least one, stamps it with
  the current time, and locks it when the options ask for encryption.
\<close>

definition plainWallet :: "deps \<Rightarrow> string \<Rightarrow> Options \<Rightarrow> Wallet" where
  "plainWallet D wltName opts =
     \<lparr>metaFilename = wltName,
      metaLabel = Label opts,
      metaCoin = Coin opts,
      metaType = WalletTypeDeterministic,
      metaCryptoType = CryptoType opts,
      metaEncrypted = False,
      metaSeed = Some (Seed opts),
      metaSecrets = None,
      metaTm = Now D,
      Entries = map (makeEntry D (Coin opts) (Seed opts))
                    [0 ..< (if GenerateN opts = 0 then 1 else GenerateN opts)]\<rparr>"

definition finishWallet :: "Options \<Rightarrow> Wallet \<Rightarrow> error + Wallet" where
  "finishWallet opts w = (if Encrypt opts then Lock w (Password opts) (CryptoType opts) else Inr w)"

definition NewWallet :: "deps \<Rightarrow> string \<Rightarrow> Options \<Rightarrow> world \<Rightarrow> (error + ref) \<times> world" where
  "NewWallet D wltName opts W =
     (case ValidateOptions D opts of
        Some err \<Rightarrow> (Inl err, W)
      | None \<Rightarrow>
          (case finishWallet opts (plainWallet D wltName opts) of
             Inl err \<Rightarrow> (Inl err, W)
           | Inr v \<Rightarrow> (case alloc v W of (r, W') \<Rightarrow> (Inr r, W'))))"

text \<open>
  Modelled from the spec: the scan-ahead of \<^verbatim>\<open>NewWalletScanAhead\<close>. It
  asks the balance oracle about the most recently derived address and derives one more
  while that address has a balance, at most \<open>n\<close> times.
\<close>

fun scanAhead ::
    "deps \<Rightarrow> (address list \<Rightarrow> error + nat list) \<Rightarrow> string \<Rightarrow> nat \<Rightarrow> Wallet \<Rightarrow> error + Wallet" where
  "scanAhead D bg seed 0 w = Inr w"
| "scanAhead D bg seed (Suc n) w =
     (case Entries w of
        [] \<Rightarrow> Inr w
      | _ # _ \<Rightarrow>
          (case bg [Address (last (Entries w))] of
             Inl err \<Rightarrow> Inl err
           | Inr bals \<Rightarrow>
               if \<exists>b \<in> set bals. b \<noteq> 0
               then scanAhead D bg seed n
                      (w\<lparr>Entries := Entries w @ [makeEntry D (metaCoin w) seed (length (Entries w))]\<rparr>)
               else Inr w))"

definition NewWalletScanAhead ::
    "deps \<Rightarrow> string \<Rightarrow> Options \<Rightarrow> (address list \<Rightarrow> error + nat list) \<Rightarrow> world
       \<Rightarrow> (error + ref) \<times> world" where
  "NewWalletScanAhead D wltName opts bg W =
     (case ValidateOptions D opts of
        Some err \<Rightarrow> (Inl err, W)
      | None \<Rightarrow>
          (case scanAhead D bg (Seed opts) (ScanN opts) (plainWallet D wltName opts) of
             Inl err \<Rightarrow> (Inl err, W)
           | Inr v \<Rightarrow>
               (case finishWallet opts v of
                  Inl err \<Rightarrow> (Inl err, W)
                | Inr v' \<Rightarrow> (case alloc v' W of (r, W') \<Rightarrow> (Inr r, W')))))"

section \<open>The persistence layer\<close>

text \<open>
  Modelled from the spec: \<^verbatim>\<open>Wallet.Save\<close> writes to a temporary location
  and atomically replaces the wallet's file, so a failed save leaves the disk as it was.
\<close>

definition Save :: "deps \<Rightarrow> string \<Rightarrow> ref \<Rightarrow> world \<Rightarrow> error option \<times> world" where
  "Save D dir w W =
     (case cell W w of
        None \<Rightarrow> (Some Panic, W)
      | Some v \<Rightarrow>
          if SaveFails D dir v then (Some ErrSaveFailed, W)
          else (None, W\<lparr>disk := AList.update (dir, metaFilename v) v (disk W)\<rparr>))"

section \<open>The wallet map\<close>

text \<open>
  Modelled from the spec: the methods of \<^verbatim>\<open>Wallets\<close>, a map from wallet
  id to wallet with unique ids. \<^verbatim>\<open>get\<close> returns the stored pointer or nil, \<^verbatim>\<open>add\<close> refuses
  an id that is taken and stores the pointer it is given, \<^verbatim>\<open>remove\<close> deletes the id, and
  \<^verbatim>\<open>set\<close> stores a copy of the wallet under its file name, so that the caller's pointer
  never becomes the stored object.
\<close>

definition Wallets_get :: "(string \<times> ref) list \<Rightarrow> string \<Rightarrow> ref option" where
  "Wallets_get wlts wltID = map_of wlts wltID"

definition Wallets_add :: "ref \<Rightarrow> world \<Rightarrow> error option \<times> world" where
  "Wallets_add w W =
     (case cell W w of
        None \<Rightarrow> (Some Panic, W)
      | Some v \<Rightarrow>
          (case Wallets_get (wallets (serv W)) (metaFilename v) of
             Some _ \<Rightarrow> (Some ErrWalletNameConflict, W)
           | None \<Rightarrow>
               (None, W\<lparr>serv := (serv W)\<lparr>wallets :=
                          AList.update (metaFilename v) w (wallets (serv W))\<rparr>\<rparr>)))"

definition Wallets_remove :: "string \<Rightarrow> world \<Rightarrow> world" where
  "Wallets_remove wltID W =
     W\<lparr>serv := (serv W)\<lparr>wallets := AList.delete wltID (wallets (serv W))\<rparr>\<rparr>"

definition Wallets_set :: "ref \<Rightarrow> world \<Rightarrow> error option \<times> world" where
  "Wallets_set w W =
     (case clone w W of
        (Inl err, W') \<Rightarrow> (Some err, W')
      | (Inr c, W') \<Rightarrow>
          (case cell W' c of
             None \<Rightarrow> (Some Panic, W')
           | Some v \<Rightarrow>
               (None, W'\<lparr>serv := (serv W')\<lparr>wallets :=
                           AList.update (metaFilename v) c (wallets (serv W'))\<rparr>\<rparr>)))"

section \<open>The service\<close>

text \<open>\<^verbatim>\<open>getWallet\<close>: the clone of the wallet of the given id.\<close>

definition getWallet :: "string \<Rightarrow> world \<Rightarrow> (error + ref) \<times> world" where
  "getWallet wltID W =
     (case Wallets_get (wallets (serv W)) wltID of
        None \<Rightarrow> (Inl ErrWalletNotExist, W)
      | Some w \<Rightarrow> clone w W)"

text \<open>
  Modelled from the spec: the accessors of the wallet's metadata.
  \<^verbatim>\<open>setTimestamp\<close> and \<^verbatim>\<open>setLabel\<close> write one field of the object, \<^verbatim>\<open>seed\<close> reads the
  plaintext seed (empty while the wallet is locked), and \<^verbatim>\<open>GetSkycoinAddresses\<close> lists
  the addresses of the entries.
\<close>

definition setTimestamp :: "ref \<Rightarrow> int \<Rightarrow> world \<Rightarrow> world" where
  "setTimestamp w t W =
     (case cell W w of None \<Rightarrow> W | Some v \<Rightarrow> assign w (v\<lparr>metaTm := t\<rparr>) W)"

text \<open>
  The options that \<^verbatim>\<open>RecoverWallet\<close> passes to \<^verbatim>\<open>NewWallet\<close>: coin, label and crypto type
  of the stored wallet, the given seed, as many addresses as the stored wallet has
  entries, and encryption exactly when a password is given.
\<close>

definition recoverOptions :: "Wallet \<Rightarrow> string \<Rightarrow> string \<Rightarrow> Options" where
  "recoverOptions w seed password =
     \<lparr>Coin = metaCoin w,
      Label = metaLabel w,
      Seed = seed,
      Encrypt = (password \<noteq> []),
      Password = password,
      CryptoType = metaCryptoType w,
      GenerateN = length (Entries w),
      ScanN = 0\<rparr>"

definition RecoverWallet ::
    "deps \<Rightarrow> string \<Rightarrow> string \<Rightarrow> string \<Rightarrow> world \<Rightarrow> (error + ref) \<times> world" where
  "RecoverWallet D wltName seed password W =
     (if \<not> enableWalletAPI (serv W) then (Inl ErrWalletAPIDisabled, W)
      else case getWallet wltName W of
        (Inl err, W1) \<Rightarrow> (Inl err, W1)
      | (Inr w, W1) \<Rightarrow>
          (case cell W1 w of
             None \<Rightarrow> (Inl Panic, W1)
           | Some wv \<Rightarrow>
               if \<not> metaEncrypted wv then (Inl ErrWalletNotEncrypted, W1)
               else if metaType wv \<noteq> WalletTypeDeterministic
               then (Inl ErrWalletNotDeterministic, W1)
               else (case GenerateDeterministicKeyPair D seed of
                  Inl err \<Rightarrow> (Inl err, W1)
                | Inr (pk, sk) \<Rightarrow>
                    (case Entries wv of
                       [] \<Rightarrow> (Inl Panic, W1)
                     | e0 # _ \<Rightarrow>
                         if addressConstructor D (metaCoin wv) pk \<noteq> Address e0
                         then (Inl ErrWalletRecoverSeedWrong, W1)
                         else (case NewWallet D wltName (recoverOptions wv seed password) W1 of
                            (Inl err, W2) \<Rightarrow> (Inl err, W2)
                          | (Inr w2, W2) \<Rightarrow>
                              (case Save D (walletDirectory (serv W2)) w2
                                      (setTimestamp w2 (metaTm wv) W2) of
                                 (Some err, W3) \<Rightarrow> (Inl err, W3)
                               | (None, W3) \<Rightarrow>
                                   (case Wallets_set w2 W3 of
                                      (Some err, W4) \<Rightarrow> (Inl err, W4)
                                    | (None, W4) \<Rightarrow> clone w2 W4)))))))"

text \<open>
  \<^verbatim>\<open>loadWallet\<close>: create the wallet from the seed with scan-ahead, refuse a first address
  that the index already has, add it to the map, save it, and take it out of the map
  again when the save fails.
\<close>

definition loadWallet ::
    "deps \<Rightarrow> string \<Rightarrow> Options \<Rightarrow> (address list \<Rightarrow> error + nat list) \<Rightarrow> world
       \<Rightarrow> (error + ref) \<times> world" where
  "loadWallet D wltName options bg W =
     (case NewWalletScanAhead D wltName
             (if Encrypt options then options\<lparr>CryptoType := cryptoType (serv W)\<rparr> else options)
             bg W of
        (Inl err, W1) \<Rightarrow> (Inl err, W1)
      | (Inr w, W1) \<Rightarrow>
          (case cell W1 w of
             None \<Rightarrow> (Inl Panic, W1)
           | Some wv \<Rightarrow>
               (case Entries wv of
                  [] \<Rightarrow> (Inl Panic, W1)
                | e0 # _ \<Rightarrow>
                    (case firstAddrIDMap (serv W1) (Address e0) of
                       Some _ \<Rightarrow> (Inl ErrSeedUsed, W1)
                     | None \<Rightarrow>
                         (case Wallets_add w W1 of
                            (Some err, W2) \<Rightarrow> (Inl err, W2)
                          | (None, W2) \<Rightarrow>
                              (case Save D (walletDirectory (serv W2)) w W2 of
                                 (Some err, W3) \<Rightarrow>
                                   (Inl err, Wallets_remove (metaFilename wv) W3)
                               | (None, W3) \<Rightarrow>
                                   clone w
                                     (W3\<lparr>serv := (serv W3)\<lparr>firstAddrIDMap :=
                                        (firstAddrIDMap (serv W3))
                                          (Address e0 \<mapsto> metaFilename wv)\<rparr>\<rparr>)))))))"

text \<open>
  \<^verbatim>\<open>generateUniqueWalletFilename\<close> draws names until one is not an id of the map. The Go
  loop has no bound; a stream of names that are all taken makes it run forever, which
  is the value \<open>None\<close> here.
\<close>

partial_function (option) generateUniqueWalletFilename ::
    "deps \<Rightarrow> (string \<times> ref) list \<Rightarrow> nat \<Rightarrow> string option" where
  "generateUniqueWalletFilename D wlts k =
     (case Wallets_get wlts (NewWalletFilename D k) of
        None \<Rightarrow> Some (NewWalletFilename D k)
      | Some _ \<Rightarrow> generateUniqueWalletFilename D wlts (Suc k))"

definition CreateWallet ::
    "deps \<Rightarrow> string \<Rightarrow> Options \<Rightarrow> (address list \<Rightarrow> error + nat list) \<Rightarrow> world
       \<Rightarrow> ((error + ref) \<times> world) option" where
  "CreateWallet D wltName options bg W =
     (if \<not> enableWalletAPI (serv W) then Some (Inl ErrWalletAPIDisabled, W)
      else if wltName = []
      then (case generateUniqueWalletFilename D (wallets (serv W)) 0 of
              None \<Rightarrow> None
            | Some name \<Rightarrow> Some (loadWallet D name options bg W))
      else Some (loadWallet D wltName options bg W))"

definition EncryptWallet ::
    "deps \<Rightarrow> string \<Rightarrow> string \<Rightarrow> world \<Rightarrow> (error + ref) \<times> world" where
  "EncryptWallet D wltID password W =
     (if \<not> enableWalletAPI (serv W) then (Inl ErrWalletAPIDisabled, W)
      else case getWallet wltID W of
        (Inl err, W1) \<Rightarrow> (Inl err, W1)
      | (Inr w, W1) \<Rightarrow>
          (case cell W1 w of
             None \<Rightarrow> (Inl Panic, W1)
           | Some wv \<Rightarrow>
               if metaEncrypted wv then (Inl ErrWalletEncrypted, W1)
               else (case Lock wv password (cryptoType (serv W1)) of
                  Inl err \<Rightarrow> (Inl err, W1)
                | Inr wv' \<Rightarrow>
                    (case Save D (walletDirectory (serv W1)) w (assign w wv' W1) of
                       (Some err, W2) \<Rightarrow> (Inl err, W2)
                     | (None, W2) \<Rightarrow>
                         (case Wallets_set w W2 of
                            (Some err, W3) \<Rightarrow> (Inl err, W3)
                          | (None, W3) \<Rightarrow> (Inr w, W3))))))"

definition DecryptWallet ::
    "deps \<Rightarrow> string \<Rightarrow> string \<Rightarrow> world \<Rightarrow> (error + ref) \<times> world" where
  "DecryptWallet D wltID password W =
     (if \<not> enableWalletAPI (serv W) then (Inl ErrWalletAPIDisabled, W)
      else case getWallet wltID W of
        (Inl err, W1) \<Rightarrow> (Inl err, W1)
      | (Inr w, W1) \<Rightarrow>
          (case cell W1 w of
             None \<Rightarrow> (Inl Panic, W1)
           | Some wv \<Rightarrow>
               if \<not> metaEncrypted wv then (Inl ErrWalletNotEncrypted, W1)
               else (case Unlock wv password of
                  Inl err \<Rightarrow> (Inl err, W1)
                | Inr uv \<Rightarrow>
                    (case alloc uv W1 of
                       (unlockWlt, W2) \<Rightarrow>
                         (case Save D (walletDirectory (serv W2)) unlockWlt W2 of
                            (Some err, W3) \<Rightarrow> (Inl err, W3)
                          | (None, W3) \<Rightarrow>
                              (case Wallets_set unlockWlt W3 of
                                 (Some err, W4) \<Rightarrow> (Inl err, W4)
                               | (None, W4) \<Rightarrow> (Inr unlockWlt, W4)))))))"

text \<open>
  The tail shared by the mutating methods: save the wallet first, then set it in the
  map. The Go code writes the two calls out in each method.
\<close>

definition saveThenSet :: "deps \<Rightarrow> ref \<Rightarrow> world \<Rightarrow> error option \<times> world" where
  "saveThenSet D w W =
     (case Save D (walletDirectory (serv W)) w W of
        (Some err, W1) \<Rightarrow> (Some err, W1)
      | (None, W1) \<Rightarrow> Wallets_set w W1)"

definition NewAddresses ::
    "deps \<Rightarrow> string \<Rightarrow> string \<Rightarrow> nat \<Rightarrow> world \<Rightarrow> (error + address list) \<times> world" where
  "NewAddresses D wltID password num W =
     (if \<not> enableWalletAPI (serv W) then (Inl ErrWalletAPIDisabled, W)
      else case getWallet wltID W of
        (Inl err, W1) \<Rightarrow> (Inl err, W1)
      | (Inr w, W1) \<Rightarrow>
          (case cell W1 w of
             None \<Rightarrow> (Inl Panic, W1)
           | Some wv \<Rightarrow>
               if metaEncrypted wv
               then (case GuardUpdate wv password (GenerateSkycoinAddresses D num) of
                  Inl err \<Rightarrow> (Inl err, W1)
                | Inr (addrs, wv') \<Rightarrow>
                    (case saveThenSet D w (assign w wv' W1) of
                       (Some err, W2) \<Rightarrow> (Inl err, W2)
                     | (None, W2) \<Rightarrow> (Inr addrs, W2)))
               else if password \<noteq> [] then (Inl ErrWalletNotEncrypted, W1)
               else (case GenerateSkycoinAddresses D num wv of
                  (Inl err, wv') \<Rightarrow> (Inl err, assign w wv' W1)
                | (Inr addrs, wv') \<Rightarrow>
                    (case saveThenSet D w (assign w wv' W1) of
                       (Some err, W2) \<Rightarrow> (Inl err, W2)
                     | (None, W2) \<Rightarrow> (Inr addrs, W2)))))"

text \<open>
  \<^verbatim>\<open>GetSkycoinAddresses\<close> of the service returns what the wallet-level method of the same
  name returns on the clone.
\<close>

definition GetSkycoinAddresses :: "string \<Rightarrow> world \<Rightarrow> (error + address list) \<times> world" where
  "GetSkycoinAddresses wltID W =
     (if \<not> enableWalletAPI (serv W) then (Inl ErrWalletAPIDisabled, W)
      else case getWallet wltID W of
        (Inl err, W1) \<Rightarrow> (Inl err, W1)
      | (Inr w, W1) \<Rightarrow>
          (case cell W1 w of
             None \<Rightarrow> (Inl Panic, W1)
           | Some wv \<Rightarrow> (Inr (map Address (Entries wv)), W1)))"

definition GetWallet :: "string \<Rightarrow> world \<Rightarrow> (error + ref) \<times> world" where
  "GetWallet wltID W =
     (if \<not> enableWalletAPI (serv W) then (Inl ErrWalletAPIDisabled, W)
      else getWallet wltID W)"

text \<open>The loop of \<^verbatim>\<open>GetWallets\<close>: a new map with a clone of every stored wallet.\<close>

fun cloneAll :: "(string \<times> ref) list \<Rightarrow> world \<Rightarrow> (error + (string \<times> ref) list) \<times> world" where
  "cloneAll [] W = (Inr [], W)"
| "cloneAll ((k, w) # rest) W =
     (case clone w W of
        (Inl err, W1) \<Rightarrow> (Inl err, W1)
      | (Inr c, W1) \<Rightarrow>
          (case cloneAll rest W1 of
             (Inl err, W2) \<Rightarrow> (Inl err, W2)
           | (Inr wlts, W2) \<Rightarrow> (Inr ((k, c) # wlts), W2)))"

definition GetWallets :: "world \<Rightarrow> (error + (string \<times> ref) list) \<times> world" where
  "GetWallets W =
     (if \<not> enableWalletAPI (serv W) then (Inl ErrWalletAPIDisabled, W)
      else cloneAll (wallets (serv W)) W)"

text \<open>
  \<^verbatim>\<open>CreateTransaction\<close>: validate the parameters, clone the wallet, check whether the
  wallet needs a password, then build the transaction, inside \<^verbatim>\<open>GuardView\<close> when the
  wallet is encrypted and on the clone itself when it is not.
\<close>

definition CreateTransaction ::
    "deps \<Rightarrow> CreateTransactionParams \<Rightarrow> AddressUxOuts \<Rightarrow> nat \<Rightarrow> world
       \<Rightarrow> (error + Transaction \<times> UxBalance list) \<times> world" where
  "CreateTransaction D params auxs headTime W =
     (if \<not> enableWalletAPI (serv W) then (Inl ErrWalletAPIDisabled, W)
      else case ValidateParams D params of
        Some err \<Rightarrow> (Inl err, W)
      | None \<Rightarrow>
          (case getWallet (WalletID params) W of
             (Inl err, W1) \<Rightarrow> (Inl err, W1)
           | (Inr w, W1) \<Rightarrow>
               (case cell W1 w of
                  None \<Rightarrow> (Inl Panic, W1)
                | Some wv \<Rightarrow>
                    (case (if metaEncrypted wv
                           then (if WalletPassword params = []
                                 then Some ErrMissingPassword else None)
                           else (if WalletPassword params \<noteq> []
                                 then Some ErrWalletNotEncrypted else None)) of
                       Some err \<Rightarrow> (Inl err, W1)
                     | None \<Rightarrow>
                         if metaEncrypted wv
                         then (GuardView wv (WalletPassword params)
                                 (\<lambda>wlt. WalletCreateTransaction D wlt params auxs headTime),
                               W1)
                         else (case WalletCreateTransaction D wv params auxs headTime of
                                 (res, wv') \<Rightarrow> (res, assign w wv' W1))))))"

text \<open>\<^verbatim>\<open>UpdateWalletLabel\<close>: \<^verbatim>\<open>setLabel\<close> on the clone, then save and set.\<close>

definition UpdateWalletLabel ::
    "deps \<Rightarrow> string \<Rightarrow> string \<Rightarrow> world \<Rightarrow> error option \<times> world" where
  "UpdateWalletLabel D wltID label W =
     (if \<not> enableWalletAPI (serv W) then (Some ErrWalletAPIDisabled, W)
      else case getWallet wltID W of
        (Inl err, W1) \<Rightarrow> (Some err, W1)
      | (Inr w, W1) \<Rightarrow>
          (case cell W1 w of
             None \<Rightarrow> (Some Panic, W1)
           | Some wv \<Rightarrow> saveThenSet D w (assign w (wv\<lparr>metaLabel := label\<rparr>) W1)))"

text \<open>
  \<^verbatim>\<open>Remove\<close>: retire the index entry of the wallet's first address when the wallet
  exists and has entries, delete the id from the map, and return nil.
\<close>

definition Remove :: "string \<Rightarrow> world \<Rightarrow> error option \<times> world" where
  "Remove wltID W =
     (if \<not> enableWalletAPI (serv W) then (Some ErrWalletAPIDisabled, W)
      else case Wallets_get (wallets (serv W)) wltID of
        None \<Rightarrow> (None, Wallets_remove wltID W)
      | Some wlt \<Rightarrow>
          (case cell W wlt of
             None \<Rightarrow> (Some Panic, W)
           | Some v \<Rightarrow>
               (case Entries v of
                  [] \<Rightarrow> (None, Wallets_remove wltID W)
                | e0 # _ \<Rightarrow>
                    (None, Wallets_remove wltID
                       (W\<lparr>serv := (serv W)\<lparr>firstAddrIDMap :=
                            (firstAddrIDMap (serv W))(Address e0 := None)\<rparr>\<rparr>)))))"

text \<open>\<^verbatim>\<open>Wallet.seed\<close>, the accessor described above.\<close>

definition seed :: "Wallet \<Rightarrow> string" where
  "seed w = (case metaSeed w of None \<Rightarrow> [] | Some s \<Rightarrow> s)"

definition GetWalletSeed :: "string \<Rightarrow> string \<Rightarrow> world \<Rightarrow> (error + string) \<times> world" where
  "GetWalletSeed wltID password W =
     (if \<not> enableWalletAPI (serv W) then (Inl ErrWalletAPIDisabled, W)
      else if \<not> enableSeedAPI (serv W) then (Inl ErrSeedAPIDisabled, W)
      else case getWallet wltID W of
        (Inl err, W1) \<Rightarrow> (Inl err, W1)
      | (Inr w, W1) \<Rightarrow>
          (case cell W1 w of
             None \<Rightarrow> (Inl Panic, W1)
           | Some wv \<Rightarrow>
               if \<not> metaEncrypted wv then (Inl ErrWalletNotEncrypted, W1)
               else (GuardView wv password (\<lambda>wlt. (Inr (seed wlt), wlt)), W1)))"

definition UpdateSecrets ::
    "deps \<Rightarrow> string \<Rightarrow> string \<Rightarrow> (Wallet \<Rightarrow> (error + unit) \<times> Wallet) \<Rightarrow> world
       \<Rightarrow> error option \<times> world" where
  "UpdateSecrets D wltID password f W =
     (if \<not> enableWalletAPI (serv W) then (Some ErrWalletAPIDisabled, W)
      else case getWallet wltID W of
        (Inl err, W1) \<Rightarrow> (Some err, W1)
      | (Inr w, W1) \<Rightarrow>
          (case cell W1 w of
             None \<Rightarrow> (Some Panic, W1)
           | Some wv \<Rightarrow>
               if metaEncrypted wv
               then (case GuardUpdate wv password f of
                  Inl err \<Rightarrow> (Some err, W1)
                | Inr (_, wv') \<Rightarrow> saveThenSet D w (assign w wv' W1))
               else if password \<noteq> [] then (Some ErrWalletNotEncrypted, W1)
               else (case f wv of
                  (Inl err, wv') \<Rightarrow> (Some err, assign w wv' W1)
                | (Inr _, wv') \<Rightarrow> saveThenSet D w (assign w wv' W1))))"

definition Update ::
    "deps \<Rightarrow> string \<Rightarrow> (Wallet \<Rightarrow> (error + unit) \<times> Wallet) \<Rightarrow> world \<Rightarrow> error option \<times> world" where
  "Update D wltID f W =
     (if \<not> enableWalletAPI (serv W) then (Some ErrWalletAPIDisabled, W)
      else case getWallet wltID W of
        (Inl err, W1) \<Rightarrow> (Some err, W1)
      | (Inr w, W1) \<Rightarrow>
          (case cell W1 w of
             None \<Rightarrow> (Some Panic, W1)
           | Some wv \<Rightarrow>
               (case f wv of
                  (Inl err, wv') \<Rightarrow> (Some err, assign w wv' W1)
                | (Inr _, wv') \<Rightarrow> saveThenSet D w (assign w wv' W1))))"

definition errorOf :: "error + 'a \<Rightarrow> error option" where
  "errorOf r = (case r of Inl err \<Rightarrow> Some err | Inr _ \<Rightarrow> None)"

definition ViewSecrets ::
    "string \<Rightarrow> string \<Rightarrow> (Wallet \<Rightarrow> (error + unit) \<times> Wallet) \<Rightarrow> world \<Rightarrow> error option \<times> world" where
  "ViewSecrets wltID password f W =
     (if \<not> enableWalletAPI (serv W) then (Some ErrWalletAPIDisabled, W)
      else case getWallet wltID W of
        (Inl err, W1) \<Rightarrow> (Some err, W1)
      | (Inr w, W1) \<Rightarrow>
          (case cell W1 w of
             None \<Rightarrow> (Some Panic, W1)
           | Some wv \<Rightarrow>
               if metaEncrypted wv then (errorOf (GuardView wv password f), W1)
               else if password \<noteq> [] then (Some ErrWalletNotEncrypted, W1)
               else (case f wv of (res, wv') \<Rightarrow> (errorOf res, assign w wv' W1))))"

definition View ::
    "string \<Rightarrow> (Wallet \<Rightarrow> (error + unit) \<times> Wallet) \<Rightarrow> world \<Rightarrow> error option \<times> world" where
  "View wltID f W =
     (if \<not> enableWalletAPI (serv W) then (Some ErrWalletAPIDisabled, W)
      else case getWallet wltID W of
        (Inl err, W1) \<Rightarrow> (Some err, W1)
      | (Inr w, W1) \<Rightarrow>
          (case cell W1 w of
             None \<Rightarrow> (Some Panic, W1)
           | Some wv \<Rightarrow> (case f wv of (res, wv') \<Rightarrow> (errorOf res, assign w wv' W1))))"

section \<open>Service construction\<close>

record Config =
  WalletDir :: string
  ConfigCryptoType :: CryptoType
  EnableWalletAPI :: bool
  EnableSeedAPI :: bool

definition isBackupFile :: "string \<Rightarrow> bool" where
  "isBackupFile name = (drop (length name - 8) name = ''.wlt.bak'')"

text \<open>
  Modelled from the spec: \<^verbatim>\<open>removeBackupFiles\<close> and \<^verbatim>\<open>LoadWallets\<close>. The
  start-up load deletes the stray backup files of the directory and parses every
  remaining file into a wallet object named after its file.
\<close>

definition removeBackupFiles :: "deps \<Rightarrow> string \<Rightarrow> world \<Rightarrow> error option \<times> world" where
  "removeBackupFiles D dir W =
     (if RemoveBackupFails D dir then (Some ErrRemoveBackupFiles, W)
      else (None, W\<lparr>disk := filter (\<lambda>((d, name), _). \<not> (d = dir \<and> isBackupFile name))
                                    (disk W)\<rparr>))"

fun loadFiles ::
    "string \<Rightarrow> ((string \<times> string) \<times> Wallet) list \<Rightarrow> (string \<times> ref) list \<Rightarrow> world
       \<Rightarrow> (string \<times> ref) list \<times> world" where
  "loadFiles dir [] wlts W = (wlts, W)"
| "loadFiles dir (((d, name), v) # files) wlts W =
     (if d = dir
      then (case alloc (v\<lparr>metaFilename := name\<rparr>) W of
              (r, W') \<Rightarrow> loadFiles dir files (AList.update name r wlts) W')
      else loadFiles dir files wlts W)"

definition LoadWallets :: "deps \<Rightarrow> string \<Rightarrow> world \<Rightarrow> (error + (string \<times> ref) list) \<times> world" where
  "LoadWallets D dir W =
     (if LoadFails D dir then (Inl ErrLoadWallets, W)
      else (case loadFiles dir (disk W) [] W of (wlts, W') \<Rightarrow> (Inr wlts, W')))"

text \<open>
  Modelled from the spec: \<^verbatim>\<open>Wallets.containsDuplicate\<close> and \<^verbatim>\<open>Wallets.containsEmpty\<close>
 : whether two wallets of the map share a first address, and whether a
  wallet of the map has zero entries.
\<close>

fun containsDuplicate :: "world \<Rightarrow> (string \<times> ref) list \<Rightarrow> address list \<Rightarrow> error option" where
  "containsDuplicate W [] seen = None"
| "containsDuplicate W ((wltID, wlt) # rest) seen =
     (case cell W wlt of
        None \<Rightarrow> Some Panic
      | Some v \<Rightarrow>
          (case Entries v of
             [] \<Rightarrow> containsDuplicate W rest seen
           | e0 # _ \<Rightarrow>
               if Address e0 \<in> set seen then Some (ErrDuplicateWallet (Address e0) wltID)
               else containsDuplicate W rest (Address e0 # seen)))"

fun containsEmpty :: "world \<Rightarrow> (string \<times> ref) list \<Rightarrow> error option" where
  "containsEmpty W [] = None"
| "containsEmpty W ((wltID, wlt) # rest) =
     (case cell W wlt of
        None \<Rightarrow> Some Panic
      | Some v \<Rightarrow> if Entries v = [] then Some (ErrEmptyWallet wltID) else containsEmpty W rest)"

text \<open>
  \<^verbatim>\<open>setWallets\<close>: the map becomes the given one, and the loop enters the first address
  of every wallet into the index.
\<close>

fun indexWallets ::
    "world \<Rightarrow> (string \<times> ref) list \<Rightarrow> (string \<rightharpoonup> string) \<Rightarrow> error + (string \<rightharpoonup> string)" where
  "indexWallets W [] m = Inr m"
| "indexWallets W ((wltID, wlt) # rest) m =
     (case cell W wlt of
        None \<Rightarrow> Inl Panic
      | Some v \<Rightarrow>
          (case Entries v of
             [] \<Rightarrow> Inl Panic
           | e0 # _ \<Rightarrow> indexWallets W rest (m(Address e0 \<mapsto> wltID))))"

definition setWallets :: "(string \<times> ref) list \<Rightarrow> world \<Rightarrow> error option \<times> world" where
  "setWallets wlts W =
     (case indexWallets W wlts (firstAddrIDMap (serv W)) of
        Inl err \<Rightarrow> (Some err, W\<lparr>serv := (serv W)\<lparr>wallets := wlts\<rparr>\<rparr>)
      | Inr m \<Rightarrow> (None, W\<lparr>serv := (serv W)\<lparr>wallets := wlts, firstAddrIDMap := m\<rparr>\<rparr>))"

text \<open>
  \<^verbatim>\<open>NewService\<close> starts from the files on disk and an empty heap. It returns the world
  with the new service, or the error together with the disk as the failed attempt left
  it: no service exists then.
\<close>

definition NewService ::
    "deps \<Rightarrow> Config \<Rightarrow> ((string \<times> string) \<times> Wallet) list
       \<Rightarrow> error \<times> ((string \<times> string) \<times> Wallet) list + world" where
  "NewService D c files =
     (let W0 = \<lparr>serv = \<lparr>wallets = [],
                         firstAddrIDMap = Map.empty,
                         walletDirectory = [],
                         cryptoType = ConfigCryptoType c,
                         enableWalletAPI = EnableWalletAPI c,
                         enableSeedAPI = EnableSeedAPI c\<rparr>,
                heap = [],
                disk = files\<rparr>
      in if \<not> enableWalletAPI (serv W0) then Inr W0
      else if MkdirAllFails D (WalletDir c) then Inl (ErrCreateDirectory, disk W0)
      else (let W1 = W0\<lparr>serv := (serv W0)\<lparr>walletDirectory := WalletDir c\<rparr>\<rparr>
            in case removeBackupFiles D (walletDirectory (serv W1)) W1 of
              (Some err, W2) \<Rightarrow> Inl (err, disk W2)
            | (None, W2) \<Rightarrow>
                (case LoadWallets D (walletDirectory (serv W2)) W2 of
                   (Inl err, W3) \<Rightarrow> Inl (err, disk W3)
                 | (Inr w, W3) \<Rightarrow>
                     (case containsDuplicate W3 w [] of
                        Some err \<Rightarrow> Inl (err, disk W3)
                      | None \<Rightarrow>
                          (case containsEmpty W3 w of
                             Some err \<Rightarrow> Inl (err, disk W3)
                           | None \<Rightarrow>
                               (case setWallets w W3 of
                                  (Some err, W4) \<Rightarrow> Inl (err, disk W4)
                                | (None, W4) \<Rightarrow> Inr W4))))))"

section \<open>What a caller can observe of the store\<close>

text \<open>
  The wallet map as its readers see it: every id with the contents of the wallet object
  it points to.
\<close>

definition store_view :: "world \<Rightarrow> (string \<times> Wallet option) list" where
  "store_view W = map (\<lambda>(wltID, r). (wltID, cell W r)) (wallets (serv W))"

text \<open>Every pointer of the map points to an allocated object.\<close>

definition wf_world :: "world \<Rightarrow> bool" where
  "wf_world W = (\<forall>r \<in> snd ` set (wallets (serv W)). r < length (heap W))"

text \<open>The wallet that the store holds for an id, if any.\<close>

definition stored :: "world \<Rightarrow> string \<Rightarrow> Wallet option" where
  "stored W wltID =
     (case Wallets_get (wallets (serv W)) wltID of None \<Rightarrow> None | Some r \<Rightarrow> cell W r)"

text \<open>
  \<open>heap_extends W W'\<close>: the world \<open>W'\<close> has the service and the disk of \<open>W\<close> and every
  object of \<open>W\<close> with its contents; it may have more objects. \<open>store_untouched W W'\<close>:
  the service, the stored wallets and the disk are those of \<open>W\<close>.
\<close>

definition heap_extends :: "world \<Rightarrow> world \<Rightarrow> bool" where
  "heap_extends W W' =
     (serv W' = serv W \<and> disk W' = disk W \<and> length (heap W) \<le> length (heap W')
      \<and> take (length (heap W)) (heap W') = heap W)"

definition store_untouched :: "world \<Rightarrow> world \<Rightarrow> bool" where
  "store_untouched W W' =
     (serv W' = serv W \<and> store_view W' = store_view W \<and> disk W' = disk W)"

text \<open>
  The wallet that a successful \<^verbatim>\<open>RecoverWallet\<close> builds from the stored wallet \<open>v\<close>, the
  seed and the new password: the new wallet of \<^verbatim>\<open>NewWallet\<close>, locked when a password is
  given, with the timestamp of \<open>v\<close>.
\<close>

definition rebuilt :: "deps \<Rightarrow> string \<Rightarrow> Wallet \<Rightarrow> string \<Rightarrow> string \<Rightarrow> Wallet" where
  "rebuilt D wltName v sd password =
     (let p = plainWallet D wltName (recoverOptions v sd password)
      in (if password \<noteq> [] then
            p\<lparr>metaCryptoType := metaCryptoType v, metaEncrypted := True,
              metaSecrets := Some (Sealed (metaCryptoType v) password (metaSeed p) (map Secret (Entries p))),
              metaSeed := None, Entries := map (\<lambda>e. e\<lparr>Secret := None\<rparr>) (Entries p)\<rparr>
          else p)\<lparr>metaTm := metaTm v\<rparr>)"

text \<open>
  \<open>returned_copy W w v\<close>: the object \<open>w\<close> has the contents \<open>v\<close>, it is not one of the
  objects of the wallet map, and whatever a caller writes to it leaves the service, the
  stored wallets and the disk as they are.
\<close>

definition returned_copy :: "world \<Rightarrow> ref \<Rightarrow> Wallet \<Rightarrow> bool" where
  "returned_copy W w v =
     (cell W w = Some v \<and> w \<notin> snd ` set (wallets (serv W))
      \<and> (\<forall>x. serv (assign w x W) = serv W \<and> store_view (assign w x W) = store_view W
             \<and> disk (assign w x W) = disk W))"

text \<open>
  The invariant of the store: every pointer of the map is allocated, every stored
  wallet has entries, and the first-address index maps the first address of every stored
  wallet to the id the wallet is stored under.
\<close>

definition service_inv :: "world \<Rightarrow> bool" where
  "service_inv W =
     (wf_world W
      \<and> (\<forall>wltID v. stored W wltID = Some v \<longrightarrow>
            Entries v \<noteq> [] \<and> firstAddrIDMap (serv W) (Address (hd (Entries v))) = Some wltID))"

text \<open>
  The states a service goes through: the state \<^verbatim>\<open>NewService\<close> returns, and the state
  after any call of \<^verbatim>\<open>CreateWallet\<close>, \<^verbatim>\<open>Remove\<close> or \<^verbatim>\<open>RecoverWallet\<close>, whatever its
  arguments, its environment and its outcome.
\<close>

inductive reachable :: "world \<Rightarrow> bool" where
  start: "NewService D c files = Inr W \<Longrightarrow> reachable W"
| create: "reachable W \<Longrightarrow> CreateWallet D wltName options bg W = Some (res, W') \<Longrightarrow> reachable W'"
| remove: "reachable W \<Longrightarrow> Remove wltID W = (err, W') \<Longrightarrow> reachable W'"
| recover: "reachable W \<Longrightarrow> RecoverWallet D wltName sd password W = (res, W') \<Longrightarrow> reachable W'"

text \<open>The first address of the wallet behind a pointer, if the wallet has entries.\<close>

definition firstAddress :: "world \<Rightarrow> ref \<Rightarrow> address option" where
  "firstAddress W r =
     (case cell W r of
        None \<Rightarrow> None
      | Some v \<Rightarrow> (case Entries v of [] \<Rightarrow> None | e0 # _ \<Rightarrow> Some (Address e0)))"

text \<open>
  What \<^verbatim>\<open>NewService\<close> finds on a disk: \<open>keptFiles dir files\<close> is the disk once the backup
  files of the directory are removed, and \<open>walletFiles dir files\<close> lists, in the order of
  the disk, the wallets that the files of the directory load to, each under its file name
  and carrying that name. \<open>hasEmpty\<close>: one of the wallets has no entry. \<open>hasDuplicate\<close>:
  two wallets of different names have entries and the same first address.
\<close>

definition keptFiles ::
    "string \<Rightarrow> ((string \<times> string) \<times> Wallet) list \<Rightarrow> ((string \<times> string) \<times> Wallet) list" where
  "keptFiles dir files = filter (\<lambda>((d, name), _). \<not> (d = dir \<and> isBackupFile name)) files"

definition dirWallets ::
    "string \<Rightarrow> ((string \<times> string) \<times> Wallet) list \<Rightarrow> (string \<times> Wallet) list" where
  "dirWallets dir files =
     map (\<lambda>((d, name), v). (name, v\<lparr>metaFilename := name\<rparr>))
       (filter (\<lambda>((d, name), _). d = dir) files)"

definition walletFiles ::
    "string \<Rightarrow> ((string \<times> string) \<times> Wallet) list \<Rightarrow> (string \<times> Wallet) list" where
  "walletFiles dir files = dirWallets dir (keptFiles dir files)"

definition hasEmpty :: "(string \<times> Wallet) list \<Rightarrow> bool" where
  "hasEmpty F = (\<exists>(n, v) \<in> set F. Entries v = [])"

definition hasDuplicate :: "(string \<times> Wallet) list \<Rightarrow> bool" where
  "hasDuplicate F =
     (\<exists>(n1, v1) \<in> set F. \<exists>(n2, v2) \<in> set F.
        n1 \<noteq> n2 \<and> Entries v1 \<noteq> [] \<and> Entries v2 \<noteq> []
        \<and> Address (hd (Entries v1)) = Address (hd (Entries v2)))"

text \<open>
  \<open>points W a b\<close>: the entry \<open>a\<close> of a wallet map has the id of \<open>b\<close> and points to an
  object with the contents of \<open>b\<close>.
\<close>

definition points :: "world \<Rightarrow> string \<times> ref \<Rightarrow> string \<times> Wallet \<Rightarrow> bool" where
  "points W a b = (fst a = fst b \<and> cell W (snd a) = Some (snd b))"

section \<open>A concrete service\<close>

text \<open>
  A small instance to run the service on: toy key derivation and address format, a
  directory \<open>/ro\<close> whose saves fail, and a store of three wallets: \<open>a.wlt\<close> is a
  plaintext deterministic wallet, \<open>b.wlt\<close> is a deterministic wallet locked with the
  password \<open>pw\<close>, and \<open>c.wlt\<close> is a plaintext wallet that is not deterministic.
\<close>

definition exDeps :: deps where
  "exDeps =
     \<lparr>DeterministicKeyPair = (\<lambda>sd i. (''P'' @ sd @ replicate i CHR ''i'', ''S'' @ sd @ replicate i CHR ''i'')),
      SeedRejected = (\<lambda>sd. if sd = [] then Some (ErrOther ''seed missing'') else None),
      addressConstructor = (\<lambda>coin pk. coin @ pk),
      ValidateOptions = (\<lambda>opts. if Seed opts = [] then Some (ErrOther ''seed missing'') else None),
      ValidateParams = (\<lambda>p. if WalletID p = [] then Some (ErrOther ''Wallet.ID is required'') else None),
      WalletCreateTransaction =
        (\<lambda>w p auxs t. if metaEncrypted w then (Inl ErrWalletEncrypted, w)
                       else (Inr (''tx'', [''ux'']), w\<lparr>metaLabel := ''spent''\<rparr>)),
      SaveFails = (\<lambda>dir w. dir = ''/ro''),
      MkdirAllFails = (\<lambda>dir. False),
      RemoveBackupFails = (\<lambda>dir. False),
      LoadFails = (\<lambda>dir. False),
      NewWalletFilename = (\<lambda>k. replicate k CHR ''n'' @ ''.wlt''),
      Now = 7\<rparr>"

definition exA :: Wallet where
  "exA = \<lparr>metaFilename = ''a.wlt'', metaLabel = ''A'', metaCoin = ''sky'',
          metaType = ''deterministic'', metaCryptoType = CryptoTypeScryptChacha20poly1305,
          metaEncrypted = False, metaSeed = Some ''sa'', metaSecrets = None, metaTm = 1,
          Entries = [\<lparr>Address = ''skyPsa'', Public = ''Psa'', Secret = Some ''Ssa''\<rparr>]\<rparr>"

definition exB :: Wallet where
  "exB = \<lparr>metaFilename = ''b.wlt'', metaLabel = ''B'', metaCoin = ''sky'',
          metaType = ''deterministic'', metaCryptoType = CryptoTypeScryptChacha20poly1305,
          metaEncrypted = True, metaSeed = None,
          metaSecrets = Some (Sealed CryptoTypeScryptChacha20poly1305 ''pw'' (Some ''sb'')
                                [Some ''Ssb'', Some ''Ssbi'']),
          metaTm = 2,
          Entries = [\<lparr>Address = ''skyPsb'', Public = ''Psb'', Secret = None\<rparr>,
                     \<lparr>Address = ''skyPsbi'', Public = ''Psbi'', Secret = None\<rparr>]\<rparr>"

definition exC :: Wallet where
  "exC = \<lparr>metaFilename = ''c.wlt'', metaLabel = ''C'', metaCoin = ''sky'',
          metaType = ''collection'', metaCryptoType = CryptoTypeScryptChacha20poly1305,
          metaEncrypted = False, metaSeed = None, metaSecrets = None, metaTm = 3,
          Entries = [\<lparr>Address = ''skyPsc'', Public = ''Psc'', Secret = Some ''Ssc''\<rparr>]\<rparr>"

definition exService :: "string \<Rightarrow> Service" where
  "exService dir =
     \<lparr>wallets = [(''a.wlt'', 0), (''b.wlt'', 1), (''c.wlt'', 2)],
      firstAddrIDMap = map_of [(''skyPsa'', ''a.wlt''), (''skyPsb'', ''b.wlt''), (''skyPsc'', ''c.wlt'')],
      walletDirectory = dir,
      cryptoType = CryptoTypeScryptChacha20poly1305,
      enableWalletAPI = True,
      enableSeedAPI = True\<rparr>"

definition exWorld :: "string \<Rightarrow> world" where
  "exWorld dir =
     \<lparr>serv = exService dir,
      heap = [exA, exB, exC],
      disk = [((dir, ''a.wlt''), exA), ((dir, ''b.wlt''), exB), ((dir, ''c.wlt''), exC)]\<rparr>"

definition exOptions :: "string \<Rightarrow> Options" where
  "exOptions sd = \<lparr>Coin = ''sky'', Label = ''D'', Seed = sd, Encrypt = False, Password = [],
                   CryptoType = CryptoTypeSha256Xor, GenerateN = 1, ScanN = 0\<rparr>"

text \<open>
  A configuration for the example directory, and a disk on which two wallet files,
  \<open>a.wlt\<close> and \<open>a2.wlt\<close>, hold the same wallet.
\<close>

definition exConfig :: Config where
  "exConfig = \<lparr>WalletDir = ''/w'', ConfigCryptoType = CryptoTypeScryptChacha20poly1305,
               EnableWalletAPI = True, EnableSeedAPI = True\<rparr>"

definition exFilesDuplicate :: "((string \<times> string) \<times> Wallet) list" where
  "exFilesDuplicate = [((''/w'', ''a.wlt''), exA), ((''/w'', ''b.wlt''), exB),
                       ((''/w'', ''a2.wlt''), exA)]"

text \<open>A disk on which the wallet file \<open>e.wlt\<close> holds a wallet with no entry.\<close>

definition exE :: Wallet where
  "exE = \<lparr>metaFilename = ''e.wlt'', metaLabel = ''E'', metaCoin = ''sky'',
          metaType = ''deterministic'', metaCryptoType = CryptoTypeScryptChacha20poly1305,
          metaEncrypted = False, metaSeed = Some ''se'', metaSecrets = None, metaTm = 4,
          Entries = []\<rparr>"

definition exFilesEmpty :: "((string \<times> string) \<times> Wallet) list" where
  "exFilesEmpty = [((''/w'', ''b.wlt''), exB), ((''/w'', ''e.wlt''), exE)]"

section \<open>Basic facts about the heap and the store\<close>

lemmas ex_defs = exWorld_def exService_def exA_def exB_def exC_def exDeps_def

lemma getWallet_None:
  "Wallets_get (wallets (serv W)) wltID = None \<Longrightarrow> getWallet wltID W = (Inl ErrWalletNotExist, W)"
  by (simp add: getWallet_def)

lemma getWallet_Some:
  "Wallets_get (wallets (serv W)) wltID = Some r \<Longrightarrow> cell W r = Some v \<Longrightarrow>
   getWallet wltID W = (Inr (length (heap W)), W\<lparr>heap := heap W @ [v]\<rparr>)"
  by (simp add: getWallet_def clone_def alloc_def)

lemma getWallet_dangling:
  "Wallets_get (wallets (serv W)) wltID = Some r \<Longrightarrow> cell W r = None \<Longrightarrow>
   getWallet wltID W = (Inl Panic, W)"
  by (simp add: getWallet_def clone_def)

lemma cell_append_new: "cell (W\<lparr>heap := heap W @ [v]\<rparr>) (length (heap W)) = Some v"
  by (simp add: cell_def)

lemma store_view_append:
  "wf_world W \<Longrightarrow> store_view (W\<lparr>heap := heap W @ vs\<rparr>) = store_view W"
  by (auto simp: store_view_def wf_world_def cell_def nth_append)

section \<open>Recovery of a plaintext wallet\<close>

text \<open>
  Claim C10. \<^verbatim>\<open>RecoverWallet\<close> requires the stored wallet to be encrypted: on every
  stored wallet that is not encrypted it fails with \<^verbatim>\<open>ErrWalletNotEncrypted\<close> and
  leaves the service, the stored wallets and the disk as they were. The wallet type
  plays no part in the statement: the check comes before the deterministic-type
  check, so a plaintext wallet that is not deterministic gets this error and not
  \<^verbatim>\<open>ErrWalletNotDeterministic\<close>.
\<close>

theorem RecoverWallet_plaintext_rejected:
  assumes "enableWalletAPI (serv W)"
    and "Wallets_get (wallets (serv W)) wltName = Some r"
    and "cell W r = Some v"
    and "\<not> metaEncrypted v"
    and "wf_world W"
  shows "fst (RecoverWallet D wltName sd password W) = Inl ErrWalletNotEncrypted
       \<and> serv (snd (RecoverWallet D wltName sd password W)) = serv W
       \<and> store_view (snd (RecoverWallet D wltName sd password W)) = store_view W
       \<and> disk (snd (RecoverWallet D wltName sd password W)) = disk W"
  using assms
  by (simp add: RecoverWallet_def getWallet_Some cell_append_new store_view_append)

theorem RecoverWallet_plaintext_rejected_witness:
  "enableWalletAPI (serv (exWorld ''/w''))
   \<and> Wallets_get (wallets (serv (exWorld ''/w''))) ''c.wlt'' = Some 2
   \<and> cell (exWorld ''/w'') 2 = Some exC
   \<and> \<not> metaEncrypted exC
   \<and> metaType exC \<noteq> WalletTypeDeterministic
   \<and> wf_world (exWorld ''/w'')
   \<and> fst (RecoverWallet exDeps ''c.wlt'' ''sc'' ''new'' (exWorld ''/w'')) = Inl ErrWalletNotEncrypted
   \<and> store_view (snd (RecoverWallet exDeps ''c.wlt'' ''sc'' ''new'' (exWorld ''/w'')))
       = store_view (exWorld ''/w'')"
  using RecoverWallet_plaintext_rejected
          [of "exWorld ''/w''" "''c.wlt''" 2 exC exDeps "''sc''" "''new''"]
  by (simp add: exWorld_def exService_def exC_def Wallets_get_def cell_def wf_world_def
        WalletTypeDeterministic_def)

lemma delete_absent: "map_of al k = None \<Longrightarrow> AList.delete k al = al"
  by (induction al) (auto simp: AList.delete_eq split: if_splits)

lemma stored_SomeD:
  "stored W wltID = Some v \<Longrightarrow>
   \<exists>r. Wallets_get (wallets (serv W)) wltID = Some r \<and> cell W r = Some v"
  by (auto simp: stored_def split: option.splits)

section \<open>Seed retrieval\<close>

text \<open>
  Claim C6. \<^verbatim>\<open>GetWalletSeed\<close> returns a seed only when the wallet-API flag is on, the
  seed-API flag is on and the addressed wallet is encrypted (and then it is the seed
  that the password unlocks). With the wallet-API flag off it fails with
  \<^verbatim>\<open>ErrWalletAPIDisabled\<close>, with only the seed-API flag off it fails with
  \<^verbatim>\<open>ErrSeedAPIDisabled\<close>, and on a stored plaintext wallet it always fails, with
  \<^verbatim>\<open>ErrWalletNotEncrypted\<close> when both flags are on.
\<close>

theorem GetWalletSeed_gates:
  "(\<not> enableWalletAPI (serv W)
       \<longrightarrow> GetWalletSeed wltID password W = (Inl ErrWalletAPIDisabled, W))
 \<and> (enableWalletAPI (serv W) \<and> \<not> enableSeedAPI (serv W)
       \<longrightarrow> GetWalletSeed wltID password W = (Inl ErrSeedAPIDisabled, W))
 \<and> (\<forall>v. stored W wltID = Some v \<and> \<not> metaEncrypted v
       \<longrightarrow> (\<exists>err. fst (GetWalletSeed wltID password W) = Inl err)
         \<and> (enableWalletAPI (serv W) \<and> enableSeedAPI (serv W)
              \<longrightarrow> fst (GetWalletSeed wltID password W) = Inl ErrWalletNotEncrypted))
 \<and> (\<forall>s. fst (GetWalletSeed wltID password W) = Inr s
       \<longrightarrow> enableWalletAPI (serv W) \<and> enableSeedAPI (serv W)
         \<and> (\<exists>v u. stored W wltID = Some v \<and> metaEncrypted v
               \<and> Unlock v password = Inr u \<and> s = seed u))"
proof (intro conjI allI impI)
  show "GetWalletSeed wltID password W = (Inl ErrWalletAPIDisabled, W)"
    if "\<not> enableWalletAPI (serv W)"
    using that by (simp add: GetWalletSeed_def)
  show "GetWalletSeed wltID password W = (Inl ErrSeedAPIDisabled, W)"
    if "enableWalletAPI (serv W) \<and> \<not> enableSeedAPI (serv W)"
    using that by (simp add: GetWalletSeed_def)
next
  fix v assume v: "stored W wltID = Some v \<and> \<not> metaEncrypted v"
  then obtain r where r: "Wallets_get (wallets (serv W)) wltID = Some r" "cell W r = Some v"
    using stored_SomeD by blast
  show "\<exists>err. fst (GetWalletSeed wltID password W) = Inl err"
    using v by (simp add: GetWalletSeed_def getWallet_Some [OF r] cell_append_new)
  show "fst (GetWalletSeed wltID password W) = Inl ErrWalletNotEncrypted"
    if "enableWalletAPI (serv W) \<and> enableSeedAPI (serv W)"
    using v that by (simp add: GetWalletSeed_def getWallet_Some [OF r] cell_append_new)
next
  fix s assume s: "fst (GetWalletSeed wltID password W) = Inr s"
  show "enableWalletAPI (serv W)"
    using s by (auto simp: GetWalletSeed_def split: if_splits)
  then show "enableSeedAPI (serv W)"
    using s by (auto simp: GetWalletSeed_def split: if_splits)
  show "\<exists>v u. stored W wltID = Some v \<and> metaEncrypted v \<and> Unlock v password = Inr u \<and> s = seed u"
  proof (cases "Wallets_get (wallets (serv W)) wltID")
    case None
    then show ?thesis
      using s by (auto simp: GetWalletSeed_def getWallet_None split: if_splits)
  next
    case (Some r)
    show ?thesis
    proof (cases "cell W r")
      case None
      then show ?thesis
        using s Some by (auto simp: GetWalletSeed_def getWallet_dangling split: if_splits)
    next
      case (Some v)
      with \<open>Wallets_get (wallets (serv W)) wltID = Some r\<close> show ?thesis
        using s
        by (auto simp: GetWalletSeed_def getWallet_Some cell_append_new stored_def GuardView_def
            split: if_splits sum.splits)
    qed
  qed
qed

theorem GetWalletSeed_gates_witness:
  "fst (GetWalletSeed ''b.wlt'' ''pw'' (exWorld ''/w'')) = Inr ''sb''
   \<and> enableWalletAPI (serv (exWorld ''/w'')) \<and> enableSeedAPI (serv (exWorld ''/w''))
   \<and> stored (exWorld ''/w'') ''b.wlt'' = Some exB \<and> metaEncrypted exB
   \<and> stored (exWorld ''/w'') ''a.wlt'' = Some exA \<and> \<not> metaEncrypted exA
   \<and> fst (GetWalletSeed ''a.wlt'' [] (exWorld ''/w'')) = Inl ErrWalletNotEncrypted
   \<and> fst (GetWalletSeed ''b.wlt'' ''pw''
            ((exWorld ''/w'')\<lparr>serv := (exService ''/w'')\<lparr>enableSeedAPI := False\<rparr>\<rparr>))
       = Inl ErrSeedAPIDisabled"
  using GetWalletSeed_gates [of "exWorld ''/w''" "''a.wlt''" "[]"]
        GetWalletSeed_gates
          [of "(exWorld ''/w'')\<lparr>serv := (exService ''/w'')\<lparr>enableSeedAPI := False\<rparr>\<rparr>"
              "''b.wlt''" "''pw''"]
  by (simp add: exWorld_def exService_def exA_def exB_def stored_def Wallets_get_def cell_def
        GetWalletSeed_def getWallet_def clone_def alloc_def GuardView_def Unlock_def seed_def)

section \<open>The password check of transaction creation\<close>

text \<open>
  Claim C4. With the wallet API on, \<^verbatim>\<open>CreateTransaction\<close> validates its parameters
  before it looks anything up: invalid parameters give the validator's error and the
  world is untouched, whatever the wallet id. With valid parameters it requires a
  password exactly when the stored wallet is encrypted: an encrypted wallet with an
  empty password fails with \<^verbatim>\<open>ErrMissingPassword\<close>, a plaintext wallet with a password
  fails with \<^verbatim>\<open>ErrWalletNotEncrypted\<close> (the error the spec calls PasswordNotExpected),
  and in both cases the only effect is the clone that \<^verbatim>\<open>getWallet\<close> made, with the
  contents of the stored wallet: the transaction builder, which could have written to
  the clone, has not run. In the two remaining cases the call is the builder's result,
  under \<^verbatim>\<open>GuardView\<close> when the wallet is encrypted.
\<close>

theorem CreateTransaction_password_check:
  assumes "enableWalletAPI (serv W)"
  shows "(\<forall>err. ValidateParams D params = Some err
            \<longrightarrow> CreateTransaction D params auxs headTime W = (Inl err, W))
       \<and> (\<forall>v. ValidateParams D params = None \<and> stored W (WalletID params) = Some v \<longrightarrow>
            (metaEncrypted v \<and> WalletPassword params = []
               \<longrightarrow> CreateTransaction D params auxs headTime W
                     = (Inl ErrMissingPassword, W\<lparr>heap := heap W @ [v]\<rparr>))
          \<and> (\<not> metaEncrypted v \<and> WalletPassword params \<noteq> []
               \<longrightarrow> CreateTransaction D params auxs headTime W
                     = (Inl ErrWalletNotEncrypted, W\<lparr>heap := heap W @ [v]\<rparr>))
          \<and> (metaEncrypted v \<and> WalletPassword params \<noteq> []
               \<longrightarrow> fst (CreateTransaction D params auxs headTime W)
                     = GuardView v (WalletPassword params)
                         (\<lambda>wlt. WalletCreateTransaction D wlt params auxs headTime))
          \<and> (\<not> metaEncrypted v \<and> WalletPassword params = []
               \<longrightarrow> fst (CreateTransaction D params auxs headTime W)
                     = fst (WalletCreateTransaction D v params auxs headTime)))"
proof (intro conjI allI impI)
  fix err assume "ValidateParams D params = Some err"
  then show "CreateTransaction D params auxs headTime W = (Inl err, W)"
    using assms by (simp add: CreateTransaction_def)
next
  fix v assume v: "ValidateParams D params = None \<and> stored W (WalletID params) = Some v"
  then obtain r where r: "Wallets_get (wallets (serv W)) (WalletID params) = Some r"
      "cell W r = Some v"
    using stored_SomeD by blast
  note unfold = CreateTransaction_def getWallet_Some [OF r] cell_append_new
  show "CreateTransaction D params auxs headTime W
          = (Inl ErrMissingPassword, W\<lparr>heap := heap W @ [v]\<rparr>)"
    if "metaEncrypted v \<and> WalletPassword params = []"
    using assms v that by (simp add: unfold)
  show "CreateTransaction D params auxs headTime W
          = (Inl ErrWalletNotEncrypted, W\<lparr>heap := heap W @ [v]\<rparr>)"
    if "\<not> metaEncrypted v \<and> WalletPassword params \<noteq> []"
    using assms v that by (simp add: unfold)
  show "fst (CreateTransaction D params auxs headTime W)
          = GuardView v (WalletPassword params)
              (\<lambda>wlt. WalletCreateTransaction D wlt params auxs headTime)"
    if "metaEncrypted v \<and> WalletPassword params \<noteq> []"
    using assms v that by (simp add: unfold)
  show "fst (CreateTransaction D params auxs headTime W)
          = fst (WalletCreateTransaction D v params auxs headTime)"
    if "\<not> metaEncrypted v \<and> WalletPassword params = []"
    using assms v that by (simp add: unfold split: prod.splits)
qed

theorem CreateTransaction_password_check_witness:
  "enableWalletAPI (serv (exWorld ''/w''))
   \<and> ValidateParams exDeps \<lparr>WalletID = ''b.wlt'', WalletPassword = [], Spend = ''x''\<rparr> = None
   \<and> stored (exWorld ''/w'') ''b.wlt'' = Some exB \<and> metaEncrypted exB
   \<and> CreateTransaction exDeps \<lparr>WalletID = ''b.wlt'', WalletPassword = [], Spend = ''x''\<rparr>
         [] 0 (exWorld ''/w'')
       = (Inl ErrMissingPassword, (exWorld ''/w'')\<lparr>heap := heap (exWorld ''/w'') @ [exB]\<rparr>)
   \<and> stored (exWorld ''/w'') ''a.wlt'' = Some exA \<and> \<not> metaEncrypted exA
   \<and> fst (CreateTransaction exDeps \<lparr>WalletID = ''a.wlt'', WalletPassword = ''pw'', Spend = ''x''\<rparr>
            [] 0 (exWorld ''/w''))
       = Inl ErrWalletNotEncrypted
   \<and> fst (CreateTransaction exDeps \<lparr>WalletID = ''a.wlt'', WalletPassword = [], Spend = ''x''\<rparr>
            [] 0 (exWorld ''/w''))
       = Inr (''tx'', [''ux''])
   \<and> fst (CreateTransaction exDeps \<lparr>WalletID = [], WalletPassword = [], Spend = ''x''\<rparr>
            [] 0 (exWorld ''/w''))
       = Inl (ErrOther ''Wallet.ID is required'')"
  using CreateTransaction_password_check
          [of "exWorld ''/w''" exDeps
              "\<lparr>WalletID = ''b.wlt'', WalletPassword = [], Spend = ''x''\<rparr>" "[]" 0]
        CreateTransaction_password_check
          [of "exWorld ''/w''" exDeps
              "\<lparr>WalletID = ''a.wlt'', WalletPassword = ''pw'', Spend = ''x''\<rparr>" "[]" 0]
        CreateTransaction_password_check
          [of "exWorld ''/w''" exDeps
              "\<lparr>WalletID = ''a.wlt'', WalletPassword = [], Spend = ''x''\<rparr>" "[]" 0]
        CreateTransaction_password_check
          [of "exWorld ''/w''" exDeps
              "\<lparr>WalletID = [], WalletPassword = [], Spend = ''x''\<rparr>" "[]" 0]
  by (simp add: ex_defs stored_def Wallets_get_def cell_def)

section \<open>Unknown wallet ids\<close>

text \<open>
  Claim C8, as the code has it. With the wallet API on, every method of the service
  that addresses one wallet by id and looks it up with \<^verbatim>\<open>getWallet\<close> fails with
  \<^verbatim>\<open>ErrWalletNotExist\<close> on an id that is not in the map, and the world is exactly as
  before (\<^verbatim>\<open>GetWalletSeed\<close> when the seed API is on as well, \<^verbatim>\<open>CreateTransaction\<close> when
  its parameters are valid). \<^verbatim>\<open>Remove\<close> is the exception: on an unknown id it returns
  no error, and leaves the world as it was.
\<close>

theorem unknown_id_NotFound:
  assumes "enableWalletAPI (serv W)"
    and "Wallets_get (wallets (serv W)) wltID = None"
  shows "EncryptWallet D wltID password W = (Inl ErrWalletNotExist, W)
       \<and> DecryptWallet D wltID password W = (Inl ErrWalletNotExist, W)
       \<and> NewAddresses D wltID password num W = (Inl ErrWalletNotExist, W)
       \<and> GetSkycoinAddresses wltID W = (Inl ErrWalletNotExist, W)
       \<and> GetWallet wltID W = (Inl ErrWalletNotExist, W)
       \<and> UpdateWalletLabel D wltID label W = (Some ErrWalletNotExist, W)
       \<and> RecoverWallet D wltID sd password W = (Inl ErrWalletNotExist, W)
       \<and> UpdateSecrets D wltID password f W = (Some ErrWalletNotExist, W)
       \<and> Update D wltID f W = (Some ErrWalletNotExist, W)
       \<and> ViewSecrets wltID password f W = (Some ErrWalletNotExist, W)
       \<and> View wltID f W = (Some ErrWalletNotExist, W)
       \<and> (enableSeedAPI (serv W)
            \<longrightarrow> GetWalletSeed wltID password W = (Inl ErrWalletNotExist, W))
       \<and> (ValidateParams D params = None \<and> WalletID params = wltID
            \<longrightarrow> CreateTransaction D params auxs headTime W = (Inl ErrWalletNotExist, W))
       \<and> Remove wltID W = (None, W)"
  using assms
  by (simp add: EncryptWallet_def DecryptWallet_def NewAddresses_def GetSkycoinAddresses_def
        GetWallet_def UpdateWalletLabel_def RecoverWallet_def UpdateSecrets_def Update_def
        ViewSecrets_def View_def GetWalletSeed_def CreateTransaction_def Remove_def
        getWallet_None Wallets_remove_def Wallets_get_def delete_absent)

theorem unknown_id_NotFound_witness:
  "enableWalletAPI (serv (exWorld ''/w''))
   \<and> Wallets_get (wallets (serv (exWorld ''/w''))) ''z.wlt'' = None
   \<and> GetWallet ''z.wlt'' (exWorld ''/w'') = (Inl ErrWalletNotExist, exWorld ''/w'')
   \<and> EncryptWallet exDeps ''z.wlt'' ''pw'' (exWorld ''/w'') = (Inl ErrWalletNotExist, exWorld ''/w'')
   \<and> GetWalletSeed ''z.wlt'' ''pw'' (exWorld ''/w'') = (Inl ErrWalletNotExist, exWorld ''/w'')
   \<and> Remove ''z.wlt'' (exWorld ''/w'') = (None, exWorld ''/w'')"
  using unknown_id_NotFound [of "exWorld ''/w''" "''z.wlt''" exDeps "''pw''"]
  by (simp add: exWorld_def exService_def Wallets_get_def)

text \<open>
  The claim as the spec states it fails for \<^verbatim>\<open>Remove\<close>: on the id \<open>z.wlt\<close>, which the
  example store does not have, it returns nil and not \<^verbatim>\<open>ErrWalletNotExist\<close>.
\<close>

theorem Remove_unknown_id_counterexample:
  "enableWalletAPI (serv (exWorld ''/w''))
   \<and> Wallets_get (wallets (serv (exWorld ''/w''))) ''z.wlt'' = None
   \<and> fst (Remove ''z.wlt'' (exWorld ''/w'')) = None
   \<and> fst (Remove ''z.wlt'' (exWorld ''/w'')) \<noteq> Some ErrWalletNotExist"
  by (simp add: exWorld_def exService_def Wallets_get_def Remove_def)

lemma heap_extends_refl: "heap_extends W W"
  by (simp add: heap_extends_def)

lemma heap_extends_append: "heap_extends W (W\<lparr>heap := heap W @ vs\<rparr>)"
  by (simp add: heap_extends_def)

lemma heap_extends_assign_new:
  "heap_extends W W' \<Longrightarrow> length (heap W) \<le> r \<Longrightarrow> heap_extends W (assign r x W')"
  by (simp add: heap_extends_def assign_def)

lemma heap_extends_trans: "heap_extends W W' \<Longrightarrow> heap_extends W' W'' \<Longrightarrow> heap_extends W W''"
proof -
  assume a: "heap_extends W W'" and b: "heap_extends W' W''"
  have "take (length (heap W)) (heap W'') = take (length (heap W)) (take (length (heap W')) (heap W''))"
    using a by (simp add: heap_extends_def min_def)
  also have "\<dots> = heap W"
    using a b by (simp add: heap_extends_def)
  finally show ?thesis
    using a b by (simp add: heap_extends_def)
qed

lemma heap_extends_cell:
  assumes "heap_extends W W'" and "r < length (heap W)"
  shows "cell W' r = cell W r"
proof -
  have "heap W ! r = take (length (heap W)) (heap W') ! r"
    using assms by (simp add: heap_extends_def)
  also have "\<dots> = heap W' ! r"
    using assms by simp
  finally show ?thesis
    using assms by (simp add: cell_def heap_extends_def)
qed

lemma heap_extends_store_view:
  assumes "heap_extends W W'" and "wf_world W"
  shows "store_view W' = store_view W"
proof -
  have "cell W' r = cell W r" if "(k, r) \<in> set (wallets (serv W))" for k r
    using that assms heap_extends_cell [of W W' r] by (force simp: wf_world_def)
  moreover have "serv W' = serv W"
    using assms by (simp add: heap_extends_def)
  ultimately show ?thesis
    by (auto simp: store_view_def)
qed

lemma getWallet_extends: "getWallet wltID W = (res, W1) \<Longrightarrow> heap_extends W W1"
  by (auto simp: getWallet_def clone_def alloc_def heap_extends_refl heap_extends_append
      split: option.splits)

lemma getWallet_Inr:
  "getWallet wltID W = (Inr w, W1) \<Longrightarrow>
   w = length (heap W) \<and> (\<exists>v. stored W wltID = Some v \<and> W1 = W\<lparr>heap := heap W @ [v]\<rparr>)"
  by (auto simp: getWallet_def clone_def alloc_def stored_def split: option.splits)

lemma GetWalletSeed_extends: "heap_extends W (snd (GetWalletSeed wltID password W))"
proof (cases "getWallet wltID W")
  case (Pair res W1)
  then have "heap_extends W W1" by (rule getWallet_extends)
  then show ?thesis
    using Pair
    by (simp add: GetWalletSeed_def heap_extends_refl split: sum.splits option.splits)
qed

lemma CreateTransaction_extends:
  "heap_extends W (snd (CreateTransaction D params auxs headTime W))"
proof (cases "getWallet (WalletID params) W")
  case (Pair res W1)
  then have W1: "heap_extends W W1" by (rule getWallet_extends)
  have "heap_extends W (assign w x W1)" if "res = Inr w" for w x
    using that Pair W1 getWallet_Inr [of "WalletID params" W w W1]
    by (auto intro: heap_extends_assign_new)
  then show ?thesis
    using Pair W1
    by (simp add: CreateTransaction_def heap_extends_refl
        split: sum.splits option.splits prod.splits)
qed

lemma Lock_plain: "\<not> metaEncrypted v \<Longrightarrow> Lock v pw ct = Inr lv \<Longrightarrow> metaFilename lv = metaFilename v \<and> metaEncrypted lv"
  by (auto simp: Lock_def)

lemma Unlock_props: "Unlock v pw = Inr uv \<Longrightarrow> metaFilename uv = metaFilename v \<and> \<not> metaEncrypted uv"
  by (auto simp: Unlock_def split: if_splits option.splits sealed.splits)

lemma EncryptWallet_result:
  assumes "enableWalletAPI (serv W)"
    and "Wallets_get (wallets (serv W)) wltID = Some r" and "cell W r = Some v"
    and "\<not> metaEncrypted v" and "Lock v password (cryptoType (serv W)) = Inr lv"
  shows "EncryptWallet D wltID password W =
     (if SaveFails D (walletDirectory (serv W)) lv
      then (Inl ErrSaveFailed, W\<lparr>heap := heap W @ [lv]\<rparr>)
      else (Inr (length (heap W)),
            W\<lparr>heap := heap W @ [lv, lv],
              disk := AList.update (walletDirectory (serv W), metaFilename lv) lv (disk W),
              serv := (serv W)\<lparr>wallets :=
                AList.update (metaFilename lv) (Suc (length (heap W))) (wallets (serv W))\<rparr>\<rparr>))"
  using assms
  by (simp add: EncryptWallet_def getWallet_Some cell_append_new assign_def Save_def cell_def
      Wallets_set_def clone_def alloc_def nth_append)

lemma DecryptWallet_result:
  assumes "enableWalletAPI (serv W)"
    and "Wallets_get (wallets (serv W)) wltID = Some r" and "cell W r = Some v"
    and "metaEncrypted v" and "Unlock v password = Inr uv"
  shows "DecryptWallet D wltID password W =
     (if SaveFails D (walletDirectory (serv W)) uv
      then (Inl ErrSaveFailed, W\<lparr>heap := heap W @ [v, uv]\<rparr>)
      else (Inr (Suc (length (heap W))),
            W\<lparr>heap := heap W @ [v, uv, uv],
              disk := AList.update (walletDirectory (serv W), metaFilename uv) uv (disk W),
              serv := (serv W)\<lparr>wallets :=
                AList.update (metaFilename uv) (Suc (Suc (length (heap W)))) (wallets (serv W))\<rparr>\<rparr>))"
  using assms
  by (simp add: DecryptWallet_def getWallet_Some cell_append_new assign_def Save_def cell_def
      Wallets_set_def clone_def alloc_def nth_append)

lemma stored_published:
  assumes "wf_world W" and "heap W' = heap W @ hs" and "length (heap W) \<le> c"
    and "cell W' c = Some x"
    and "wallets (serv W') = AList.update k c (wallets (serv W))"
  shows "stored W' = (stored W)(k \<mapsto> x)"
proof
  fix wltID
  show "stored W' wltID = ((stored W)(k \<mapsto> x)) wltID"
  proof (cases "wltID = k")
    case True
    then show ?thesis
      using assms by (simp add: stored_def Wallets_get_def update_conv')
  next
    case False
    show ?thesis
    proof (cases "map_of (wallets (serv W)) wltID")
      case None
      then show ?thesis
        using False assms by (simp add: stored_def Wallets_get_def update_conv')
    next
      case (Some r)
      then have "r < length (heap W)"
        using assms(1) by (force simp: wf_world_def dest: map_of_SomeD)
      then have "cell W' r = cell W r"
        using assms(2) by (simp add: cell_def nth_append)
      then show ?thesis
        using False Some assms by (simp add: stored_def Wallets_get_def update_conv')
    qed
  qed
qed

lemma heap_extends_untouched: "heap_extends W W' \<Longrightarrow> wf_world W \<Longrightarrow> store_untouched W W'"
  using heap_extends_store_view [of W W']
  by (simp add: store_untouched_def heap_extends_def)

lemma untouched_append: "wf_world W \<Longrightarrow> store_untouched W (W\<lparr>heap := heap W @ vs\<rparr>)"
  by (rule heap_extends_untouched [OF heap_extends_append])

section \<open>Read-only secret access\<close>

text \<open>
  Claim C5. The two operations that read secrets inside \<^verbatim>\<open>GuardView\<close>, \<^verbatim>\<open>GetWalletSeed\<close>
  and \<^verbatim>\<open>CreateTransaction\<close>, never change the service, the stored wallets or the wallet
  files, for every id, password and parameters and whatever their outcome: they work on
  a clone, and the transaction builder, which may write to the wallet it is handed,
  writes to that clone only.
\<close>

theorem read_only_secret_access_frame:
  assumes "wf_world W"
  shows "serv (snd (GetWalletSeed wltID password W)) = serv W
       \<and> store_view (snd (GetWalletSeed wltID password W)) = store_view W
       \<and> disk (snd (GetWalletSeed wltID password W)) = disk W
       \<and> serv (snd (CreateTransaction D params auxs headTime W)) = serv W
       \<and> store_view (snd (CreateTransaction D params auxs headTime W)) = store_view W
       \<and> disk (snd (CreateTransaction D params auxs headTime W)) = disk W"
proof -
  have "store_untouched W (snd (GetWalletSeed wltID password W))"
    using GetWalletSeed_extends assms by (rule heap_extends_untouched)
  moreover have "store_untouched W (snd (CreateTransaction D params auxs headTime W))"
    using CreateTransaction_extends assms by (rule heap_extends_untouched)
  ultimately show ?thesis
    by (simp add: store_untouched_def)
qed

theorem read_only_secret_access_frame_witness:
  "wf_world (exWorld ''/w'')
   \<and> fst (GetWalletSeed ''b.wlt'' ''pw'' (exWorld ''/w'')) = Inr ''sb''
   \<and> store_view (snd (GetWalletSeed ''b.wlt'' ''pw'' (exWorld ''/w''))) = store_view (exWorld ''/w'')
   \<and> disk (snd (GetWalletSeed ''b.wlt'' ''pw'' (exWorld ''/w''))) = disk (exWorld ''/w'')
   \<and> fst (CreateTransaction exDeps \<lparr>WalletID = ''a.wlt'', WalletPassword = [], Spend = ''x''\<rparr>
            [] 0 (exWorld ''/w'')) = Inr (''tx'', [''ux''])
   \<and> cell (snd (CreateTransaction exDeps \<lparr>WalletID = ''a.wlt'', WalletPassword = [], Spend = ''x''\<rparr>
            [] 0 (exWorld ''/w''))) 3 = Some (exA\<lparr>metaLabel := ''spent''\<rparr>)
   \<and> store_view (snd (CreateTransaction exDeps
            \<lparr>WalletID = ''a.wlt'', WalletPassword = [], Spend = ''x''\<rparr> [] 0 (exWorld ''/w'')))
       = store_view (exWorld ''/w'')
   \<and> store_view (exWorld ''/w'') = [(''a.wlt'', Some exA), (''b.wlt'', Some exB), (''c.wlt'', Some exC)]"
  using read_only_secret_access_frame
          [of "exWorld ''/w''" "''b.wlt''" "''pw''" exDeps
              "\<lparr>WalletID = ''a.wlt'', WalletPassword = [], Spend = ''x''\<rparr>" "[]" 0]
  by (simp add: ex_defs wf_world_def store_view_def cell_def Wallets_get_def
        GetWalletSeed_def CreateTransaction_def getWallet_def clone_def alloc_def assign_def
        GuardView_def Unlock_def seed_def)

section \<open>Encrypting and decrypting a stored wallet\<close>

text \<open>
  Claim C7. On a stored wallet that is already in the target state, \<^verbatim>\<open>EncryptWallet\<close>
  (wallet encrypted) fails with \<^verbatim>\<open>ErrWalletEncrypted\<close> and \<^verbatim>\<open>DecryptWallet\<close> (wallet not
  encrypted) fails with \<^verbatim>\<open>ErrWalletNotEncrypted\<close>, and the service, the stored wallets
  and the disk are unchanged. Otherwise the wallet is locked (unlocked) and saved, and
  the map is set only after the save: when the save fails the call fails and nothing
  has changed; when it succeeds the file of the wallet holds the locked (unlocked)
  wallet, the store holds it under the wallet's file name, and the caller gets it. A
  wrong password in \<^verbatim>\<open>DecryptWallet\<close> fails with the error of \<^verbatim>\<open>Unlock\<close> and changes
  nothing.
\<close>

theorem EncryptWallet_DecryptWallet_save_then_publish:
  assumes "enableWalletAPI (serv W)" and "wf_world W" and "stored W wltID = Some v"
  shows "(metaEncrypted v \<longrightarrow>
            fst (EncryptWallet D wltID password W) = Inl ErrWalletEncrypted
          \<and> store_untouched W (snd (EncryptWallet D wltID password W)))
       \<and> (\<not> metaEncrypted v \<longrightarrow>
            fst (DecryptWallet D wltID password W) = Inl ErrWalletNotEncrypted
          \<and> store_untouched W (snd (DecryptWallet D wltID password W)))
       \<and> (\<forall>lv. \<not> metaEncrypted v \<and> Lock v password (cryptoType (serv W)) = Inr lv \<longrightarrow>
            (if SaveFails D (walletDirectory (serv W)) lv
             then fst (EncryptWallet D wltID password W) = Inl ErrSaveFailed
                \<and> store_untouched W (snd (EncryptWallet D wltID password W))
             else (\<exists>w. fst (EncryptWallet D wltID password W) = Inr w
                      \<and> cell (snd (EncryptWallet D wltID password W)) w = Some lv)
                \<and> disk (snd (EncryptWallet D wltID password W))
                    = AList.update (walletDirectory (serv W), metaFilename v) lv (disk W)
                \<and> stored (snd (EncryptWallet D wltID password W))
                    = (stored W)(metaFilename v \<mapsto> lv)))
       \<and> (\<forall>uv. metaEncrypted v \<and> Unlock v password = Inr uv \<longrightarrow>
            (if SaveFails D (walletDirectory (serv W)) uv
             then fst (DecryptWallet D wltID password W) = Inl ErrSaveFailed
                \<and> store_untouched W (snd (DecryptWallet D wltID password W))
             else (\<exists>w. fst (DecryptWallet D wltID password W) = Inr w
                      \<and> cell (snd (DecryptWallet D wltID password W)) w = Some uv)
                \<and> disk (snd (DecryptWallet D wltID password W))
                    = AList.update (walletDirectory (serv W), metaFilename v) uv (disk W)
                \<and> stored (snd (DecryptWallet D wltID password W))
                    = (stored W)(metaFilename v \<mapsto> uv)))
       \<and> (\<forall>err. metaEncrypted v \<and> Unlock v password = Inl err \<longrightarrow>
            fst (DecryptWallet D wltID password W) = Inl err
          \<and> store_untouched W (snd (DecryptWallet D wltID password W)))"
proof -
  obtain r where r: "Wallets_get (wallets (serv W)) wltID = Some r" "cell W r = Some v"
    using assms(3) stored_SomeD by blast
  note gw = getWallet_Some [OF r] cell_append_new
  let ?dir = "walletDirectory (serv W)"
  have enc_already: "EncryptWallet D wltID password W
      = (Inl ErrWalletEncrypted, W\<lparr>heap := heap W @ [v]\<rparr>)" if "metaEncrypted v"
    using that assms(1) by (simp add: EncryptWallet_def gw)
  have dec_already: "DecryptWallet D wltID password W
      = (Inl ErrWalletNotEncrypted, W\<lparr>heap := heap W @ [v]\<rparr>)" if "\<not> metaEncrypted v"
    using that assms(1) by (simp add: DecryptWallet_def gw)
  have dec_wrong: "DecryptWallet D wltID password W = (Inl err, W\<lparr>heap := heap W @ [v]\<rparr>)"
    if "metaEncrypted v" "Unlock v password = Inl err" for err
    using that assms(1) by (simp add: DecryptWallet_def gw)
  have enc_fail: "fst (EncryptWallet D wltID password W) = Inl ErrSaveFailed
        \<and> store_untouched W (snd (EncryptWallet D wltID password W))"
    if "\<not> metaEncrypted v" "Lock v password (cryptoType (serv W)) = Inr lv" "SaveFails D ?dir lv"
    for lv
    using that untouched_append [OF assms(2)]
    by (simp add: EncryptWallet_result [OF assms(1) r that(1,2)])
  have enc_ok: "(\<exists>w. fst (EncryptWallet D wltID password W) = Inr w
                      \<and> cell (snd (EncryptWallet D wltID password W)) w = Some lv)
        \<and> disk (snd (EncryptWallet D wltID password W))
            = AList.update (?dir, metaFilename v) lv (disk W)
        \<and> stored (snd (EncryptWallet D wltID password W)) = (stored W)(metaFilename v \<mapsto> lv)"
    if "\<not> metaEncrypted v" "Lock v password (cryptoType (serv W)) = Inr lv"
       "\<not> SaveFails D ?dir lv"
    for lv
  proof -
    have fn: "metaFilename lv = metaFilename v"
      using that Lock_plain by blast
    have res: "EncryptWallet D wltID password W =
        (Inr (length (heap W)),
         W\<lparr>heap := heap W @ [lv, lv],
           disk := AList.update (?dir, metaFilename v) lv (disk W),
           serv := (serv W)\<lparr>wallets :=
             AList.update (metaFilename v) (Suc (length (heap W))) (wallets (serv W))\<rparr>\<rparr>)"
      using that(3) by (simp add: EncryptWallet_result [OF assms(1) r that(1,2)] fn)
    have "stored (snd (EncryptWallet D wltID password W)) = (stored W)(metaFilename v \<mapsto> lv)"
      by (rule stored_published [OF assms(2), where c = "Suc (length (heap W))" and hs = "[lv, lv]"])
         (simp_all add: res cell_def nth_append)
    then show ?thesis
      by (simp add: res cell_def nth_append)
  qed
  have dec_fail: "fst (DecryptWallet D wltID password W) = Inl ErrSaveFailed
        \<and> store_untouched W (snd (DecryptWallet D wltID password W))"
    if "metaEncrypted v" "Unlock v password = Inr uv" "SaveFails D ?dir uv" for uv
    using that untouched_append [OF assms(2)]
    by (simp add: DecryptWallet_result [OF assms(1) r that(1,2)])
  have dec_ok: "(\<exists>w. fst (DecryptWallet D wltID password W) = Inr w
                      \<and> cell (snd (DecryptWallet D wltID password W)) w = Some uv)
        \<and> disk (snd (DecryptWallet D wltID password W))
            = AList.update (?dir, metaFilename v) uv (disk W)
        \<and> stored (snd (DecryptWallet D wltID password W)) = (stored W)(metaFilename v \<mapsto> uv)"
    if "metaEncrypted v" "Unlock v password = Inr uv" "\<not> SaveFails D ?dir uv" for uv
  proof -
    have fn: "metaFilename uv = metaFilename v"
      using that Unlock_props by blast
    have res: "DecryptWallet D wltID password W =
        (Inr (Suc (length (heap W))),
         W\<lparr>heap := heap W @ [v, uv, uv],
           disk := AList.update (?dir, metaFilename v) uv (disk W),
           serv := (serv W)\<lparr>wallets :=
             AList.update (metaFilename v) (Suc (Suc (length (heap W)))) (wallets (serv W))\<rparr>\<rparr>)"
      using that(3) by (simp add: DecryptWallet_result [OF assms(1) r that(1,2)] fn)
    have "stored (snd (DecryptWallet D wltID password W)) = (stored W)(metaFilename v \<mapsto> uv)"
      by (rule stored_published [OF assms(2), where c = "Suc (Suc (length (heap W)))"
              and hs = "[v, uv, uv]"])
         (simp_all add: res cell_def nth_append)
    then show ?thesis
      by (simp add: res cell_def nth_append)
  qed
  show ?thesis
  proof (intro conjI allI impI)
    show "fst (EncryptWallet D wltID password W) = Inl ErrWalletEncrypted" if "metaEncrypted v"
      using that by (simp add: enc_already)
    show "store_untouched W (snd (EncryptWallet D wltID password W))" if "metaEncrypted v"
      using that untouched_append [OF assms(2)] by (simp add: enc_already)
    show "fst (DecryptWallet D wltID password W) = Inl ErrWalletNotEncrypted" if "\<not> metaEncrypted v"
      using that by (simp add: dec_already)
    show "store_untouched W (snd (DecryptWallet D wltID password W))" if "\<not> metaEncrypted v"
      using that untouched_append [OF assms(2)] by (simp add: dec_already)
  next
    fix lv assume "\<not> metaEncrypted v \<and> Lock v password (cryptoType (serv W)) = Inr lv"
    then show "if SaveFails D ?dir lv
        then fst (EncryptWallet D wltID password W) = Inl ErrSaveFailed
           \<and> store_untouched W (snd (EncryptWallet D wltID password W))
        else (\<exists>w. fst (EncryptWallet D wltID password W) = Inr w
                 \<and> cell (snd (EncryptWallet D wltID password W)) w = Some lv)
           \<and> disk (snd (EncryptWallet D wltID password W))
               = AList.update (?dir, metaFilename v) lv (disk W)
           \<and> stored (snd (EncryptWallet D wltID password W)) = (stored W)(metaFilename v \<mapsto> lv)"
      using enc_fail [of lv] enc_ok [of lv] by (cases "SaveFails D ?dir lv") simp_all
  next
    fix uv assume "metaEncrypted v \<and> Unlock v password = Inr uv"
    then show "if SaveFails D ?dir uv
        then fst (DecryptWallet D wltID password W) = Inl ErrSaveFailed
           \<and> store_untouched W (snd (DecryptWallet D wltID password W))
        else (\<exists>w. fst (DecryptWallet D wltID password W) = Inr w
                 \<and> cell (snd (DecryptWallet D wltID password W)) w = Some uv)
           \<and> disk (snd (DecryptWallet D wltID password W))
               = AList.update (?dir, metaFilename v) uv (disk W)
           \<and> stored (snd (DecryptWallet D wltID password W)) = (stored W)(metaFilename v \<mapsto> uv)"
      using dec_fail [of uv] dec_ok [of uv] by (cases "SaveFails D ?dir uv") simp_all
  next
    fix err assume e: "metaEncrypted v \<and> Unlock v password = Inl err"
    then show "fst (DecryptWallet D wltID password W) = Inl err"
      by (simp add: dec_wrong)
    show "store_untouched W (snd (DecryptWallet D wltID password W))"
      using e untouched_append [OF assms(2)] by (simp add: dec_wrong)
  qed
qed

theorem EncryptWallet_DecryptWallet_save_then_publish_witness:
  "enableWalletAPI (serv (exWorld ''/w'')) \<and> wf_world (exWorld ''/w'')
   \<and> stored (exWorld ''/w'') ''b.wlt'' = Some exB \<and> metaEncrypted exB
   \<and> fst (EncryptWallet exDeps ''b.wlt'' ''pw'' (exWorld ''/w'')) = Inl ErrWalletEncrypted
   \<and> store_untouched (exWorld ''/w'') (snd (EncryptWallet exDeps ''b.wlt'' ''pw'' (exWorld ''/w'')))
   \<and> stored (exWorld ''/w'') ''a.wlt'' = Some exA \<and> \<not> metaEncrypted exA
   \<and> fst (DecryptWallet exDeps ''a.wlt'' ''pw'' (exWorld ''/w'')) = Inl ErrWalletNotEncrypted
   \<and> store_untouched (exWorld ''/w'') (snd (DecryptWallet exDeps ''a.wlt'' ''pw'' (exWorld ''/w'')))
   \<and> fst (EncryptWallet exDeps ''a.wlt'' ''pw'' (exWorld ''/w'')) = Inr 3
   \<and> map_option metaEncrypted
        (stored (snd (EncryptWallet exDeps ''a.wlt'' ''pw'' (exWorld ''/w''))) ''a.wlt'') = Some True
   \<and> fst (EncryptWallet exDeps ''a.wlt'' ''pw'' (exWorld ''/ro'')) = Inl ErrSaveFailed
   \<and> fst (DecryptWallet exDeps ''b.wlt'' ''no'' (exWorld ''/w'')) = Inl ErrInvalidPassword"
  using EncryptWallet_DecryptWallet_save_then_publish
          [of "exWorld ''/w''" "''b.wlt''" exB exDeps "''pw''"]
        EncryptWallet_DecryptWallet_save_then_publish
          [of "exWorld ''/w''" "''a.wlt''" exA exDeps "''pw''"]
  by (simp add: ex_defs wf_world_def stored_def cell_def Wallets_get_def
        EncryptWallet_def DecryptWallet_def getWallet_def clone_def alloc_def assign_def
        Lock_def Unlock_def Save_def Wallets_set_def)

section \<open>Recovery from a seed\<close>

lemma finishWallet_recover:
  "finishWallet (recoverOptions v sd password) (plainWallet D wltName (recoverOptions v sd password))
     = Inr (rebuilt D wltName v sd password\<lparr>metaTm := Now D\<rparr>)"
  by (simp add: finishWallet_def rebuilt_def Lock_def plainWallet_def recoverOptions_def Let_def)

lemma rebuilt_props:
  "metaFilename (rebuilt D wltName v sd password) = wltName"
  "metaTm (rebuilt D wltName v sd password) = metaTm v"
  "metaEncrypted (rebuilt D wltName v sd password) = (password \<noteq> [])"
  "Entries v \<noteq> [] \<Longrightarrow> length (Entries (rebuilt D wltName v sd password)) = length (Entries v)"
  by (auto simp: rebuilt_def plainWallet_def recoverOptions_def Let_def)

lemma rebuilt_first:
  "Entries v \<noteq> [] \<Longrightarrow> \<exists>e es. Entries (rebuilt D wltName v sd password) = e # es
      \<and> Address e = addressConstructor D (metaCoin v) (fst (DeterministicKeyPair D sd 0))"
  by (cases "Entries v")
     (auto simp: rebuilt_def plainWallet_def recoverOptions_def Let_def upt_conv_Cons makeEntry_def
           simp del: upt_Suc split: prod.splits)

lemma rebuilt_stamp:
  "(rebuilt D wltName v sd password)\<lparr>metaTm := Now D, metaTm := metaTm v\<rparr>
     = rebuilt D wltName v sd password"
  "(rebuilt D wltName v sd password)\<lparr>metaTm := metaTm v\<rparr> = rebuilt D wltName v sd password"
  by (simp_all add: rebuilt_def Let_def)

lemma list_update_second_new: "(xs @ [a, b])[Suc (length xs) := c] = xs @ [a, c]"
  by (simp add: list_update_append)

lemma RecoverWallet_result:
  assumes "enableWalletAPI (serv W)"
    and "Wallets_get (wallets (serv W)) wltName = Some r" and "cell W r = Some v"
    and "metaEncrypted v" and "metaType v = WalletTypeDeterministic"
    and "GenerateDeterministicKeyPair D sd = Inr (pk, sk)" and "Entries v = e0 # es"
  shows "RecoverWallet D wltName sd password W =
     (if addressConstructor D (metaCoin v) pk \<noteq> Address e0
      then (Inl ErrWalletRecoverSeedWrong, W\<lparr>heap := heap W @ [v]\<rparr>)
      else case ValidateOptions D (recoverOptions v sd password) of
        Some err \<Rightarrow> (Inl err, W\<lparr>heap := heap W @ [v]\<rparr>)
      | None \<Rightarrow>
          if SaveFails D (walletDirectory (serv W)) (rebuilt D wltName v sd password)
          then (Inl ErrSaveFailed, W\<lparr>heap := heap W @ [v, rebuilt D wltName v sd password]\<rparr>)
          else (Inr (length (heap W) + 3),
                W\<lparr>heap := heap W @ [v, rebuilt D wltName v sd password,
                                      rebuilt D wltName v sd password,
                                      rebuilt D wltName v sd password],
                  disk := AList.update (walletDirectory (serv W), wltName)
                            (rebuilt D wltName v sd password) (disk W),
                  serv := (serv W)\<lparr>wallets :=
                    AList.update wltName (length (heap W) + 2) (wallets (serv W))\<rparr>\<rparr>))"
  using assms
  by (simp add: RecoverWallet_def getWallet_Some cell_append_new NewWallet_def
      finishWallet_recover alloc_def setTimestamp_def cell_def assign_def Save_def
      Wallets_set_def clone_def nth_append rebuilt_props rebuilt_stamp list_update_second_new
      split: option.splits)

text \<open>
  Claim C3, as the code has it. For every stored wallet that is encrypted and
  deterministic, \<^verbatim>\<open>RecoverWallet\<close> fails with \<^verbatim>\<open>ErrWalletRecoverSeedWrong\<close>, changing
  nothing, when the first address derived from the given seed differs from the address of
  the wallet's first entry. When the addresses match, every wallet it returns has as
  many entries as the stored wallet, the stored wallet's timestamp, and is encrypted
  exactly when the new password is not empty; it is then the wallet of the store and of
  the file. It does return one when the options are accepted and the save succeeds.
\<close>

theorem RecoverWallet_encrypted_deterministic:
  assumes "enableWalletAPI (serv W)" and "wf_world W"
    and "stored W wltName = Some v"
    and "metaEncrypted v" and "metaType v = WalletTypeDeterministic"
    and "Entries v = e0 # es"
    and "GenerateDeterministicKeyPair D sd = Inr (pk, sk)"
  shows "(addressConstructor D (metaCoin v) pk \<noteq> Address e0 \<longrightarrow>
            fst (RecoverWallet D wltName sd password W) = Inl ErrWalletRecoverSeedWrong
          \<and> store_untouched W (snd (RecoverWallet D wltName sd password W)))
       \<and> (addressConstructor D (metaCoin v) pk = Address e0 \<longrightarrow>
            (\<forall>w2. fst (RecoverWallet D wltName sd password W) = Inr w2 \<longrightarrow>
               (\<exists>v2. cell (snd (RecoverWallet D wltName sd password W)) w2 = Some v2
                   \<and> stored (snd (RecoverWallet D wltName sd password W)) wltName = Some v2
                   \<and> map_of (disk (snd (RecoverWallet D wltName sd password W)))
                        (walletDirectory (serv W), wltName) = Some v2
                   \<and> length (Entries v2) = length (Entries v)
                   \<and> metaTm v2 = metaTm v
                   \<and> metaEncrypted v2 = (password \<noteq> [])))
          \<and> (ValidateOptions D (recoverOptions v sd password) = None
               \<and> (\<forall>x. \<not> SaveFails D (walletDirectory (serv W)) x)
               \<longrightarrow> (\<exists>w2. fst (RecoverWallet D wltName sd password W) = Inr w2)))"
proof -
  obtain r where r: "Wallets_get (wallets (serv W)) wltName = Some r" "cell W r = Some v"
    using assms(3) stored_SomeD by blast
  note res = RecoverWallet_result [OF assms(1) r assms(4,5,7,6), where password = password]
  let ?R = "RecoverWallet D wltName sd password W"
  let ?rb = "rebuilt D wltName v sd password"
  have mismatch: "fst ?R = Inl ErrWalletRecoverSeedWrong \<and> store_untouched W (snd ?R)"
    if "addressConstructor D (metaCoin v) pk \<noteq> Address e0"
    using that untouched_append [OF assms(2)] by (simp add: res)
  have rebuilt_ok: "length (Entries ?rb) = length (Entries v) \<and> metaTm ?rb = metaTm v
      \<and> metaEncrypted ?rb = (password \<noteq> [])"
    using assms(6) by (simp add: rebuilt_props)
  have match: "\<exists>v2. cell (snd ?R) w2 = Some v2 \<and> stored (snd ?R) wltName = Some v2
      \<and> map_of (disk (snd ?R)) (walletDirectory (serv W), wltName) = Some v2
      \<and> length (Entries v2) = length (Entries v) \<and> metaTm v2 = metaTm v
      \<and> metaEncrypted v2 = (password \<noteq> [])"
    if m: "addressConstructor D (metaCoin v) pk = Address e0" and ok: "fst ?R = Inr w2" for w2
  proof -
    from m ok have valid: "ValidateOptions D (recoverOptions v sd password) = None"
      and saved: "\<not> SaveFails D (walletDirectory (serv W)) ?rb"
      by (auto simp: res split: option.splits if_splits)
    have R: "?R = (Inr (length (heap W) + 3),
                W\<lparr>heap := heap W @ [v, ?rb, ?rb, ?rb],
                  disk := AList.update (walletDirectory (serv W), wltName) ?rb (disk W),
                  serv := (serv W)\<lparr>wallets :=
                    AList.update wltName (length (heap W) + 2) (wallets (serv W))\<rparr>\<rparr>)"
      using m valid saved by (simp add: res)
    have "stored (snd ?R) = (stored W)(wltName \<mapsto> ?rb)"
      by (rule stored_published [OF assms(2), where c = "length (heap W) + 2"
              and hs = "[v, ?rb, ?rb, ?rb]"])
         (simp_all add: R cell_def nth_append)
    moreover have "w2 = length (heap W) + 3"
      using ok by (simp add: R)
    ultimately show ?thesis
      using rebuilt_ok by (simp add: R cell_def nth_append update_conv')
  qed
  have succeeds: "\<exists>w2. fst ?R = Inr w2"
    if "addressConstructor D (metaCoin v) pk = Address e0"
      "ValidateOptions D (recoverOptions v sd password) = None
         \<and> (\<forall>x. \<not> SaveFails D (walletDirectory (serv W)) x)"
    using that by (simp add: res)
  show ?thesis
    using mismatch match succeeds by blast
qed

theorem RecoverWallet_encrypted_deterministic_witness:
  "enableWalletAPI (serv (exWorld ''/w'')) \<and> wf_world (exWorld ''/w'')
   \<and> stored (exWorld ''/w'') ''b.wlt'' = Some exB
   \<and> metaEncrypted exB \<and> metaType exB = WalletTypeDeterministic
   \<and> GenerateDeterministicKeyPair exDeps ''sb'' = Inr (''Psb'', ''Ssb'')
   \<and> addressConstructor exDeps (metaCoin exB) ''Psb'' = Address (hd (Entries exB))
   \<and> (\<exists>w2 v2. fst (RecoverWallet exDeps ''b.wlt'' ''sb'' ''new'' (exWorld ''/w'')) = Inr w2
         \<and> cell (snd (RecoverWallet exDeps ''b.wlt'' ''sb'' ''new'' (exWorld ''/w''))) w2 = Some v2
         \<and> stored (snd (RecoverWallet exDeps ''b.wlt'' ''sb'' ''new'' (exWorld ''/w''))) ''b.wlt'' = Some v2
         \<and> length (Entries v2) = 2 \<and> metaTm v2 = 2 \<and> metaEncrypted v2)
   \<and> GenerateDeterministicKeyPair exDeps ''zz'' = Inr (''Pzz'', ''Szz'')
   \<and> fst (RecoverWallet exDeps ''b.wlt'' ''zz'' ''new'' (exWorld ''/w'')) = Inl ErrWalletRecoverSeedWrong"
proof -
  have hyps: "enableWalletAPI (serv (exWorld ''/w''))" "wf_world (exWorld ''/w'')"
    "stored (exWorld ''/w'') ''b.wlt'' = Some exB" "metaEncrypted exB"
    "metaType exB = WalletTypeDeterministic"
    "Entries exB = \<lparr>Address = ''skyPsb'', Public = ''Psb'', Secret = None\<rparr>
                    # [\<lparr>Address = ''skyPsbi'', Public = ''Psbi'', Secret = None\<rparr>]"
    by (simp_all add: ex_defs wf_world_def stored_def cell_def Wallets_get_def
          WalletTypeDeterministic_def)
  have k1: "GenerateDeterministicKeyPair exDeps ''sb'' = Inr (''Psb'', ''Ssb'')"
    and k2: "GenerateDeterministicKeyPair exDeps ''zz'' = Inr (''Pzz'', ''Szz'')"
    by (simp_all add: GenerateDeterministicKeyPair_def exDeps_def)
  have env: "ValidateOptions exDeps (recoverOptions exB ''sb'' ''new'') = None
      \<and> (\<forall>x. \<not> SaveFails exDeps (walletDirectory (serv (exWorld ''/w''))) x)"
    by (simp add: exDeps_def recoverOptions_def exWorld_def exService_def)
  have a1: "addressConstructor exDeps (metaCoin exB) ''Psb'' = ''skyPsb''"
    and a2: "addressConstructor exDeps (metaCoin exB) ''Pzz'' \<noteq> ''skyPsb''"
    by (simp_all add: exDeps_def exB_def)
  let ?R = "RecoverWallet exDeps ''b.wlt'' ''sb'' ''new'' (exWorld ''/w'')"
  note match = RecoverWallet_encrypted_deterministic [OF hyps k1, where password = "''new''"]
  note mismatch = RecoverWallet_encrypted_deterministic [OF hyps k2, where password = "''new''"]
  have m: "addressConstructor exDeps (metaCoin exB) ''Psb''
             = Address \<lparr>Address = ''skyPsb'', Public = ''Psb'', Secret = None\<rparr>"
    using a1 by simp
  from match m env obtain w2 where w2: "fst ?R = Inr w2"
    by blast
  from match m w2 obtain v2 where v2: "cell (snd ?R) w2 = Some v2"
      "stored (snd ?R) ''b.wlt'' = Some v2" "length (Entries v2) = length (Entries exB)"
      "metaTm v2 = metaTm exB" "metaEncrypted v2 = (''new'' \<noteq> [])"
    by blast
  have "length (Entries v2) = 2 \<and> metaTm v2 = 2 \<and> metaEncrypted v2"
    using v2 by (simp add: exB_def)
  moreover have "fst (RecoverWallet exDeps ''b.wlt'' ''zz'' ''new'' (exWorld ''/w''))
                   = Inl ErrWalletRecoverSeedWrong"
    using mismatch a2 by simp
  moreover have "addressConstructor exDeps (metaCoin exB) ''Psb'' = Address (hd (Entries exB))"
    using a1 by (simp add: exB_def)
  ultimately show ?thesis
    using hyps k1 k2 w2 v2 by blast
qed

text \<open>
  The claim as the spec states it, for every stored deterministic wallet, fails on a
  plaintext one: \<open>a.wlt\<close> is deterministic and not encrypted, and \<^verbatim>\<open>RecoverWallet\<close>
  answers \<^verbatim>\<open>ErrWalletNotEncrypted\<close> both for a seed whose first address differs and for
  the wallet's own seed.
\<close>

theorem RecoverWallet_plaintext_deterministic_counterexample:
  "enableWalletAPI (serv (exWorld ''/w''))
   \<and> stored (exWorld ''/w'') ''a.wlt'' = Some exA
   \<and> metaType exA = WalletTypeDeterministic
   \<and> GenerateDeterministicKeyPair exDeps ''zz'' = Inr (''Pzz'', ''Szz'')
   \<and> addressConstructor exDeps (metaCoin exA) ''Pzz'' \<noteq> Address (hd (Entries exA))
   \<and> fst (RecoverWallet exDeps ''a.wlt'' ''zz'' ''new'' (exWorld ''/w'')) = Inl ErrWalletNotEncrypted
   \<and> fst (RecoverWallet exDeps ''a.wlt'' ''zz'' ''new'' (exWorld ''/w'')) \<noteq> Inl ErrWalletRecoverSeedWrong
   \<and> GenerateDeterministicKeyPair exDeps ''sa'' = Inr (''Psa'', ''Ssa'')
   \<and> addressConstructor exDeps (metaCoin exA) ''Psa'' = Address (hd (Entries exA))
   \<and> fst (RecoverWallet exDeps ''a.wlt'' ''sa'' ''new'' (exWorld ''/w'')) = Inl ErrWalletNotEncrypted"
  by (simp add: ex_defs stored_def cell_def Wallets_get_def WalletTypeDeterministic_def
        GenerateDeterministicKeyPair_def RecoverWallet_def getWallet_def clone_def alloc_def)

section \<open>Creating a wallet\<close>

lemma scanAhead_props:
  "scanAhead D bg sd n w = Inr w' \<Longrightarrow>
   metaFilename w' = metaFilename w \<and> metaEncrypted w' = metaEncrypted w
   \<and> (Entries w \<noteq> [] \<longrightarrow> Entries w' \<noteq> [] \<and> hd (Entries w') = hd (Entries w))"
proof (induction n arbitrary: w)
  case 0
  then show ?case by simp
next
  case (Suc n)
  show ?case
  proof (cases "Entries w")
    case Nil
    with Suc.prems show ?thesis by simp
  next
    case (Cons e es)
    show ?thesis
    proof (cases "bg [Address (last (Entries w))]")
      case (Inl err)
      with Cons Suc.prems show ?thesis by simp
    next
      case (Inr bals)
      show ?thesis
      proof (cases "\<exists>b \<in> set bals. b \<noteq> 0")
        case True
        then have "scanAhead D bg sd n
            (w\<lparr>Entries := Entries w @ [makeEntry D (metaCoin w) sd (length (Entries w))]\<rparr>) = Inr w'"
          using Cons Inr Suc.prems by simp
        from Suc.IH [OF this] show ?thesis
          using Cons by simp
      next
        case False
        then have "w' = w"
          using Cons Inr Suc.prems by (auto split: if_splits)
        with Cons show ?thesis by simp
      qed
    qed
  qed
qed

lemma plainWallet_props:
  "metaFilename (plainWallet D n opts) = n" "\<not> metaEncrypted (plainWallet D n opts)"
  "Entries (plainWallet D n opts) \<noteq> []"
  "Address (hd (Entries (plainWallet D n opts)))
     = addressConstructor D (Coin opts) (fst (DeterministicKeyPair D (Seed opts) 0))"
  by (auto simp: plainWallet_def upt_conv_Cons makeEntry_def simp del: upt_Suc split: prod.splits)

lemma finishWallet_props:
  "finishWallet opts w = Inr w' \<Longrightarrow>
   metaFilename w' = metaFilename w \<and> (Entries w \<noteq> [] \<longrightarrow> Entries w' \<noteq> []
     \<and> Address (hd (Entries w')) = Address (hd (Entries w)))"
  by (cases "Entries w") (auto simp: finishWallet_def Lock_def split: if_splits)

lemma NewWalletScanAhead_cases:
  assumes "NewWalletScanAhead D n opts bg W = (res, W1)"
  shows "(\<exists>err. res = Inl err \<and> W1 = W)
       \<or> (\<exists>x. res = Inr (length (heap W)) \<and> W1 = W\<lparr>heap := heap W @ [x]\<rparr>
              \<and> metaFilename x = n \<and> Entries x \<noteq> [])"
proof (cases "ValidateOptions D opts")
  case (Some err)
  with assms show ?thesis by (auto simp: NewWalletScanAhead_def)
next
  case None
  show ?thesis
  proof (cases "scanAhead D bg (Seed opts) (ScanN opts) (plainWallet D n opts)")
    case (Inl err)
    with None assms show ?thesis by (auto simp: NewWalletScanAhead_def)
  next
    case (Inr v)
    note v = scanAhead_props [OF Inr]
    show ?thesis
    proof (cases "finishWallet opts v")
      case (Inl err)
      with None Inr assms show ?thesis by (auto simp: NewWalletScanAhead_def)
    next
      case (Inr v')
      from finishWallet_props [OF Inr] v
      have "metaFilename v' = n \<and> Entries v' \<noteq> []"
        by (simp add: plainWallet_props)
      with None \<open>scanAhead D bg (Seed opts) (ScanN opts) (plainWallet D n opts) = Inr v\<close> Inr assms
      show ?thesis by (auto simp: NewWalletScanAhead_def alloc_def)
    qed
  qed
qed

lemma delete_update_absent:
  "map_of al k = None \<Longrightarrow> AList.delete k (AList.update k v al) = al"
  by (simp add: delete_update_same delete_absent)

lemma loadWallet_new_cases:
  assumes x: "cell W1 w = Some x" "Entries x = e0 # es"
    and W1: "W1 = W\<lparr>heap := heap W @ [x]\<rparr>" "w = length (heap W)"
  shows "(case firstAddrIDMap (serv W1) (Address e0) of
            Some _ \<Rightarrow> (Inl ErrSeedUsed, W1)
          | None \<Rightarrow>
              (case Wallets_add w W1 of
                 (Some err, W2) \<Rightarrow> (Inl err, W2)
               | (None, W2) \<Rightarrow>
                   (case Save D (walletDirectory (serv W2)) w W2 of
                      (Some err, W3) \<Rightarrow> (Inl err, Wallets_remove (metaFilename x) W3)
                    | (None, W3) \<Rightarrow>
                        clone w
                          (W3\<lparr>serv := (serv W3)\<lparr>firstAddrIDMap :=
                             (firstAddrIDMap (serv W3))(Address e0 \<mapsto> metaFilename x)\<rparr>\<rparr>))))
       = (if firstAddrIDMap (serv W) (Address e0) \<noteq> None then (Inl ErrSeedUsed, W1)
          else if map_of (wallets (serv W)) (metaFilename x) \<noteq> None
          then (Inl ErrWalletNameConflict, W1)
          else if SaveFails D (walletDirectory (serv W)) x then (Inl ErrSaveFailed, W1)
          else (Inr (Suc (length (heap W))),
                W\<lparr>heap := heap W @ [x, x],
                  disk := AList.update (walletDirectory (serv W), metaFilename x) x (disk W),
                  serv := (serv W)\<lparr>wallets :=
                            AList.update (metaFilename x) (length (heap W)) (wallets (serv W)),
                          firstAddrIDMap :=
                            (firstAddrIDMap (serv W))(Address e0 \<mapsto> metaFilename x)\<rparr>\<rparr>))"
  using x unfolding W1
  by (auto simp: Wallets_add_def Wallets_get_def Save_def cell_def Wallets_remove_def
      delete_update_absent clone_def alloc_def nth_append split: option.splits)

lemma loadWallet_cases:
  assumes "loadWallet D n opts bg W = (res, W')"
  shows "(\<exists>err. res = Inl err \<and> (W' = W \<or> (\<exists>x. W' = W\<lparr>heap := heap W @ [x]\<rparr>)))
       \<or> (\<exists>x e0 es. Entries x = e0 # es \<and> metaFilename x = n
             \<and> firstAddrIDMap (serv W) (Address e0) = None
             \<and> map_of (wallets (serv W)) n = None
             \<and> \<not> SaveFails D (walletDirectory (serv W)) x
             \<and> res = Inr (Suc (length (heap W)))
             \<and> W' = W\<lparr>heap := heap W @ [x, x],
                       disk := AList.update (walletDirectory (serv W), n) x (disk W),
                       serv := (serv W)\<lparr>wallets :=
                                 AList.update n (length (heap W)) (wallets (serv W)),
                               firstAddrIDMap :=
                                 (firstAddrIDMap (serv W))(Address e0 \<mapsto> n)\<rparr>\<rparr>)"
proof -
  let ?opts = "if Encrypt opts then opts\<lparr>CryptoType := cryptoType (serv W)\<rparr> else opts"
  obtain r1 W1 where nw: "NewWalletScanAhead D n ?opts bg W = (r1, W1)"
    by (cases "NewWalletScanAhead D n ?opts bg W")
  from NewWalletScanAhead_cases [OF nw] show ?thesis
  proof (elim disjE exE conjE)
    fix err assume "r1 = Inl err" "W1 = W"
    then show ?thesis
      using assms nw by (auto simp: loadWallet_def)
  next
    fix x assume x: "r1 = Inr (length (heap W))" "W1 = W\<lparr>heap := heap W @ [x]\<rparr>"
      "metaFilename x = n" "Entries x \<noteq> []"
    then obtain e0 es where es: "Entries x = e0 # es"
      by (cases "Entries x") auto
    have c: "cell W1 (length (heap W)) = Some x"
      using x by (simp add: cell_def)
    have "loadWallet D n opts bg W =
        (if firstAddrIDMap (serv W) (Address e0) \<noteq> None then (Inl ErrSeedUsed, W1)
          else if map_of (wallets (serv W)) (metaFilename x) \<noteq> None
          then (Inl ErrWalletNameConflict, W1)
          else if SaveFails D (walletDirectory (serv W)) x then (Inl ErrSaveFailed, W1)
          else (Inr (Suc (length (heap W))),
                W\<lparr>heap := heap W @ [x, x],
                  disk := AList.update (walletDirectory (serv W), metaFilename x) x (disk W),
                  serv := (serv W)\<lparr>wallets :=
                            AList.update (metaFilename x) (length (heap W)) (wallets (serv W)),
                          firstAddrIDMap :=
                            (firstAddrIDMap (serv W))(Address e0 \<mapsto> metaFilename x)\<rparr>\<rparr>))"
      unfolding loadWallet_def nw x(1)
      by (simp add: c es loadWallet_new_cases [OF c es x(2) refl, of D])
    then show ?thesis
      using assms x es by (auto split: if_splits)
  qed
qed

lemma ex_new_wallet:
  "sd \<noteq> [] \<Longrightarrow> NewWalletScanAhead exDeps n (exOptions sd) bg W
     = (Inr (length (heap W)), W\<lparr>heap := heap W @ [plainWallet exDeps n (exOptions sd)]\<rparr>)"
  by (simp add: NewWalletScanAhead_def exDeps_def exOptions_def finishWallet_def alloc_def)

text \<open>
  \<^verbatim>\<open>CreateWallet\<close> returns whenever a name is given, and with an empty name as soon as
  one of the drawn names is free.
\<close>

lemma generateUniqueWalletFilename_returns:
  "Wallets_get wlts (NewWalletFilename D (j + k)) = None \<Longrightarrow>
   \<exists>name. generateUniqueWalletFilename D wlts j = Some name"
proof (induction k arbitrary: j)
  case 0
  then show ?case
    by (subst generateUniqueWalletFilename.simps) simp
next
  case (Suc k)
  then have "\<exists>name. generateUniqueWalletFilename D wlts (Suc j) = Some name"
    by simp
  then show ?case
    by (subst generateUniqueWalletFilename.simps) (simp split: option.splits)
qed

lemma CreateWallet_returns:
  assumes "wltName \<noteq> [] \<or> (\<exists>k. Wallets_get (wallets (serv W)) (NewWalletFilename D k) = None)"
  shows "\<exists>res. CreateWallet D wltName options bg W = Some res"
proof (cases "wltName = []")
  case False
  then show ?thesis by (simp add: CreateWallet_def)
next
  case True
  with assms obtain k where "Wallets_get (wallets (serv W)) (NewWalletFilename D (0 + k)) = None"
    by auto
  from generateUniqueWalletFilename_returns [OF this] show ?thesis
    by (auto simp: CreateWallet_def)
qed

lemma loadWallet_new_result:
  assumes nw: "NewWalletScanAhead D n
                 (if Encrypt opts then opts\<lparr>CryptoType := cryptoType (serv W)\<rparr> else opts) bg W
               = (Inr w, W1)"
    and c: "cell W1 w = Some x" and es: "Entries x = e0 # es"
  shows "metaFilename x = n \<and> W1 = W\<lparr>heap := heap W @ [x]\<rparr>
       \<and> loadWallet D n opts bg W =
        (if firstAddrIDMap (serv W) (Address e0) \<noteq> None then (Inl ErrSeedUsed, W1)
          else if map_of (wallets (serv W)) n \<noteq> None
          then (Inl ErrWalletNameConflict, W1)
          else if SaveFails D (walletDirectory (serv W)) x then (Inl ErrSaveFailed, W1)
          else (Inr (Suc (length (heap W))),
                W\<lparr>heap := heap W @ [x, x],
                  disk := AList.update (walletDirectory (serv W), n) x (disk W),
                  serv := (serv W)\<lparr>wallets :=
                            AList.update n (length (heap W)) (wallets (serv W)),
                          firstAddrIDMap :=
                            (firstAddrIDMap (serv W))(Address e0 \<mapsto> n)\<rparr>\<rparr>))"
proof -
  from NewWalletScanAhead_cases [OF nw] obtain y where y: "w = length (heap W)"
      "W1 = W\<lparr>heap := heap W @ [y]\<rparr>" "metaFilename y = n"
    by auto
  with c have "y = x" by (simp add: cell_def)
  with y have x: "W1 = W\<lparr>heap := heap W @ [x]\<rparr>" "metaFilename x = n" by simp_all
  have "loadWallet D n opts bg W =
        (if firstAddrIDMap (serv W) (Address e0) \<noteq> None then (Inl ErrSeedUsed, W1)
          else if map_of (wallets (serv W)) (metaFilename x) \<noteq> None
          then (Inl ErrWalletNameConflict, W1)
          else if SaveFails D (walletDirectory (serv W)) x then (Inl ErrSaveFailed, W1)
          else (Inr (Suc (length (heap W))),
                W\<lparr>heap := heap W @ [x, x],
                  disk := AList.update (walletDirectory (serv W), metaFilename x) x (disk W),
                  serv := (serv W)\<lparr>wallets :=
                            AList.update (metaFilename x) (length (heap W)) (wallets (serv W)),
                          firstAddrIDMap :=
                            (firstAddrIDMap (serv W))(Address e0 \<mapsto> metaFilename x)\<rparr>\<rparr>))"
    unfolding loadWallet_def nw
    by (simp add: c es loadWallet_new_cases [OF c es x(1) y(1), of D])
  with x show ?thesis by simp
qed

text \<open>
  Claim C1. Every call of \<^verbatim>\<open>CreateWallet\<close> that fails leaves the wallet map (its ids
  and the wallets they hold), the first-address index and the wallet files exactly as
  they were. Once the new wallet has been built, the failure is \<^verbatim>\<open>ErrSeedUsed\<close> when the
  first address of the new wallet is already in the index; otherwise, when the id is
  free, it is the failure of the save, after which the wallet that had been added to the
  map is removed again.
\<close>

theorem CreateWallet_failure_frame:
  assumes "wf_world W"
    and "CreateWallet D wltName options bg W = Some (Inl err, W')"
  shows "wallets (serv W') = wallets (serv W)
       \<and> store_view W' = store_view W
       \<and> firstAddrIDMap (serv W') = firstAddrIDMap (serv W)
       \<and> disk W' = disk W
       \<and> (\<forall>w W1 x e0 es.
             enableWalletAPI (serv W) \<and> wltName \<noteq> []
             \<and> NewWalletScanAhead D wltName
                  (if Encrypt options then options\<lparr>CryptoType := cryptoType (serv W)\<rparr>
                   else options) bg W = (Inr w, W1)
             \<and> cell W1 w = Some x \<and> Entries x = e0 # es \<longrightarrow>
             (if firstAddrIDMap (serv W) (Address e0) \<noteq> None then err = ErrSeedUsed
              else if Wallets_get (wallets (serv W)) wltName \<noteq> None
              then err = ErrWalletNameConflict
              else err = ErrSaveFailed \<and> SaveFails D (walletDirectory (serv W)) x))"
proof -
  have "W' = W \<or> (\<exists>x. W' = W\<lparr>heap := heap W @ [x]\<rparr>)"
  proof (cases "enableWalletAPI (serv W)")
    case False
    with assms(2) show ?thesis by (simp add: CreateWallet_def)
  next
    case True
    then obtain n where "loadWallet D n options bg W = (Inl err, W')"
      using assms(2) by (auto simp: CreateWallet_def split: if_splits option.splits)
    from loadWallet_cases [OF this] show ?thesis by auto
  qed
  then have "store_untouched W W'"
    using assms(1) untouched_append heap_extends_untouched [OF heap_extends_refl] by auto
  then have frame: "wallets (serv W') = wallets (serv W) \<and> store_view W' = store_view W
       \<and> firstAddrIDMap (serv W') = firstAddrIDMap (serv W) \<and> disk W' = disk W"
    by (simp add: store_untouched_def)
  have cause: "if firstAddrIDMap (serv W) (Address e0) \<noteq> None then err = ErrSeedUsed
      else if Wallets_get (wallets (serv W)) wltName \<noteq> None then err = ErrWalletNameConflict
      else err = ErrSaveFailed \<and> SaveFails D (walletDirectory (serv W)) x"
    if h: "enableWalletAPI (serv W) \<and> wltName \<noteq> []
          \<and> NewWalletScanAhead D wltName
               (if Encrypt options then options\<lparr>CryptoType := cryptoType (serv W)\<rparr>
                else options) bg W = (Inr w, W1)
          \<and> cell W1 w = Some x \<and> Entries x = e0 # es"
    for w W1 x e0 es
  proof -
    from h assms(2) have lw: "loadWallet D wltName options bg W = (Inl err, W')"
      by (simp add: CreateWallet_def)
    from h have nw: "NewWalletScanAhead D wltName
               (if Encrypt options then options\<lparr>CryptoType := cryptoType (serv W)\<rparr>
                else options) bg W = (Inr w, W1)"
      and c: "cell W1 w = Some x" and es: "Entries x = e0 # es"
      by simp_all
    from loadWallet_new_result [OF nw c es] lw show ?thesis
      by (auto simp: Wallets_get_def split: if_splits)
  qed
  from frame cause show ?thesis by blast
qed

theorem CreateWallet_failure_frame_witness:
  "wf_world (exWorld ''/w'') \<and> wf_world (exWorld ''/ro'')
   \<and> firstAddrIDMap (serv (exWorld ''/w'')) ''skyPsa'' = Some ''a.wlt''
   \<and> (\<exists>W'. CreateWallet exDeps ''d.wlt'' (exOptions ''sa'') (\<lambda>_. Inr [0]) (exWorld ''/w'')
              = Some (Inl ErrSeedUsed, W')
          \<and> wallets (serv W') = wallets (serv (exWorld ''/w''))
          \<and> store_view W' = store_view (exWorld ''/w'')
          \<and> firstAddrIDMap (serv W') = firstAddrIDMap (serv (exWorld ''/w''))
          \<and> disk W' = disk (exWorld ''/w''))
   \<and> (\<exists>W'. CreateWallet exDeps ''d.wlt'' (exOptions ''sd'') (\<lambda>_. Inr [0]) (exWorld ''/ro'')
              = Some (Inl ErrSaveFailed, W')
          \<and> wallets (serv W') = wallets (serv (exWorld ''/ro''))
          \<and> store_view W' = store_view (exWorld ''/ro'')
          \<and> firstAddrIDMap (serv W') = firstAddrIDMap (serv (exWorld ''/ro''))
          \<and> disk W' = disk (exWorld ''/ro''))"
proof -
  have wf: "wf_world (exWorld ''/w'')" "wf_world (exWorld ''/ro'')"
    by (simp_all add: exWorld_def exService_def wf_world_def)
  have used: "CreateWallet exDeps ''d.wlt'' (exOptions ''sa'') (\<lambda>_. Inr [0]) (exWorld ''/w'')
      = Some (Inl ErrSeedUsed,
          (exWorld ''/w'')\<lparr>heap := heap (exWorld ''/w'') @ [plainWallet exDeps ''d.wlt'' (exOptions ''sa'')]\<rparr>)"
    by (simp add: CreateWallet_def loadWallet_def ex_new_wallet)
       (simp add: exWorld_def exService_def exOptions_def cell_def plainWallet_def makeEntry_def exDeps_def)
  have failed: "CreateWallet exDeps ''d.wlt'' (exOptions ''sd'') (\<lambda>_. Inr [0]) (exWorld ''/ro'')
      = Some (Inl ErrSaveFailed,
          (exWorld ''/ro'')\<lparr>heap := heap (exWorld ''/ro'') @ [plainWallet exDeps ''d.wlt'' (exOptions ''sd'')]\<rparr>)"
    by (simp add: CreateWallet_def loadWallet_def ex_new_wallet)
       (simp add: exWorld_def exService_def exOptions_def cell_def plainWallet_def makeEntry_def exDeps_def
          Wallets_add_def Wallets_get_def Save_def Wallets_remove_def)
  show ?thesis
    using CreateWallet_failure_frame [OF wf(1) used] CreateWallet_failure_frame [OF wf(2) failed]
      wf used failed
    by (simp add: exWorld_def exService_def)
qed

section \<open>Wallets handed to callers\<close>

lemma cell_assign_other: "r \<noteq> w \<Longrightarrow> cell (assign w x W) r = cell W r"
  by (simp add: cell_def assign_def)

lemma assign_elsewhere:
  assumes "w \<notin> snd ` set (wallets (serv W))"
  shows "store_view (assign w x W) = store_view W"
proof -
  have "cell (assign w x W) r = cell W r" if "(k, r) \<in> set (wallets (serv W))" for k r
  proof -
    from that have "r \<in> snd ` set (wallets (serv W))" by force
    with assms have "r \<noteq> w" by blast
    then show ?thesis by (rule cell_assign_other)
  qed
  moreover have "serv (assign w x W) = serv W"
    by (simp add: assign_def)
  ultimately show ?thesis
    by (auto simp: store_view_def)
qed

lemma returned_copyI:
  assumes "cell W w = Some v" and "w \<notin> snd ` set (wallets (serv W))"
  shows "returned_copy W w v"
  unfolding returned_copy_def
  using assms assign_elsewhere [OF assms(2)] by (simp add: assign_def)

lemma wf_refs_old: "wf_world W \<Longrightarrow> r \<in> snd ` set (wallets (serv W)) \<Longrightarrow> r < length (heap W)"
  by (auto simp: wf_world_def)

lemma update_refs: "snd ` set (AList.update k c al) \<subseteq> insert c (snd ` set al)"
proof (induction al)
  case Nil
  then show ?case by simp
next
  case (Cons a al)
  then show ?case by (cases a) auto
qed

lemma fresh_not_stored:
  assumes "wf_world W" and "length (heap W) \<le> w" and "w \<noteq> c"
    and "wallets (serv W') = AList.update k c (wallets (serv W))"
  shows "w \<notin> snd ` set (wallets (serv W'))"
proof
  assume "w \<in> snd ` set (wallets (serv W'))"
  then have "w \<in> insert c (snd ` set (wallets (serv W)))"
    using assms(4) update_refs [of k c "wallets (serv W)"] by auto
  then have "w \<in> snd ` set (wallets (serv W))"
    using assms(3) by simp
  from wf_refs_old [OF assms(1) this] show False
    using assms(2) by simp
qed

lemma GetWallet_copy:
  assumes "wf_world W" and "GetWallet wltID W = (Inr w, W')"
  shows "\<exists>v. stored W wltID = Some v \<and> returned_copy W' w v"
proof -
  from assms(2) have g: "getWallet wltID W = (Inr w, W')"
    by (simp add: GetWallet_def split: if_splits)
  from getWallet_Inr [OF g] obtain v where v: "w = length (heap W)" "stored W wltID = Some v"
      "W' = W\<lparr>heap := heap W @ [v]\<rparr>"
    by blast
  have "w \<notin> snd ` set (wallets (serv W))"
    using v(1) wf_refs_old [OF assms(1), of w] by auto
  then have "w \<notin> snd ` set (wallets (serv W'))"
    by (simp add: v(3))
  moreover have "cell W' w = Some v"
    by (simp add: v cell_def)
  ultimately have "returned_copy W' w v"
    by (rule returned_copyI [rotated])
  with v show ?thesis by blast
qed

lemma clone_valid:
  "w < length (heap W) \<Longrightarrow>
   clone w W = (Inr (length (heap W)), W\<lparr>heap := heap W @ [heap W ! w]\<rparr>)"
  by (simp add: clone_def cell_def alloc_def)

lemma cloneAll_Cons_Inr:
  assumes "cloneAll ((k, w) # al) W = (Inr wlts, W')" and "w < length (heap W)"
  shows "\<exists>rest. cloneAll al (W\<lparr>heap := heap W @ [heap W ! w]\<rparr>) = (Inr rest, W')
              \<and> wlts = (k, length (heap W)) # rest"
proof (cases "cloneAll al (W\<lparr>heap := heap W @ [heap W ! w]\<rparr>)")
  case (Pair res W2)
  show ?thesis
  proof (cases res)
    case (Inl err)
    with Pair assms show ?thesis by (simp add: clone_valid)
  next
    case (Inr rest)
    with Pair assms show ?thesis by (simp add: clone_valid)
  qed
qed

lemma cloneAll_copies:
  "cloneAll al W = (Inr wlts, W') \<Longrightarrow> \<forall>a \<in> set al. snd a < length (heap W) \<Longrightarrow>
   heap_extends W W'
   \<and> map (\<lambda>(k, c). (k, cell W' c)) wlts = map (\<lambda>(k, r). (k, cell W r)) al
   \<and> (\<forall>a \<in> set wlts. length (heap W) \<le> snd a \<and> snd a < length (heap W'))"
proof (induction al arbitrary: W wlts W')
  case Nil
  then show ?case by (simp add: heap_extends_refl)
next
  case (Cons a al)
  obtain k w where a: "a = (k, w)" by (cases a)
  from Cons.prems(2) a have w: "w < length (heap W)" by simp
  let ?W1 = "W\<lparr>heap := heap W @ [heap W ! w]\<rparr>"
  from cloneAll_Cons_Inr [OF Cons.prems(1) [unfolded a] w]
  obtain rest where rest: "cloneAll al ?W1 = (Inr rest, W')" "wlts = (k, length (heap W)) # rest"
    by blast
  have old: "\<forall>a \<in> set al. snd a < length (heap ?W1)"
    using Cons.prems(2) by auto
  from Cons.IH [OF rest(1) old]
  have ih1: "heap_extends ?W1 W'"
    and ih2: "map (\<lambda>(k, c). (k, cell W' c)) rest = map (\<lambda>(k, r). (k, cell ?W1 r)) al"
    and ih3: "\<forall>a \<in> set rest. length (heap ?W1) \<le> snd a \<and> snd a < length (heap W')"
    by simp_all
  have ext: "heap_extends W W'"
    using heap_extends_trans [OF heap_extends_append ih1] .
  have same: "map (\<lambda>(k, r). (k, cell ?W1 r)) al = map (\<lambda>(k, r). (k, cell W r)) al"
  proof (rule map_cong [OF refl])
    fix x assume "x \<in> set al"
    then have "snd x < length (heap W)" using Cons.prems(2) by simp
    then show "(case x of (k, r) \<Rightarrow> (k, cell ?W1 r)) = (case x of (k, r) \<Rightarrow> (k, cell W r))"
      by (cases x) (simp add: cell_def nth_append)
  qed
  have lt: "length (heap W) < length (heap W')"
    using ih1 by (simp add: heap_extends_def)
  have "cell W' (length (heap W)) = cell ?W1 (length (heap W))"
    by (rule heap_extends_cell [OF ih1]) simp
  then have new: "cell W' (length (heap W)) = cell W w"
    using w by (simp add: cell_def)
  have "\<forall>a \<in> set wlts. length (heap W) \<le> snd a \<and> snd a < length (heap W')"
    using ih3 lt by (auto simp: rest(2))
  moreover have "map (\<lambda>(k, c). (k, cell W' c)) wlts = map (\<lambda>(k, r). (k, cell W r)) (a # al)"
    using ih2 same new by (simp add: rest(2) a)
  ultimately show ?case
    using ext by blast
qed

lemma GetWallets_copies:
  assumes "wf_world W" and "GetWallets W = (Inr wlts, W')"
  shows "map (\<lambda>(k, c). (k, cell W' c)) wlts = store_view W'
       \<and> (\<forall>a \<in> set wlts. \<exists>v. returned_copy W' (snd a) v)"
proof -
  from assms(2) have c: "cloneAll (wallets (serv W)) W = (Inr wlts, W')"
    by (simp add: GetWallets_def split: if_splits)
  have old: "\<forall>a \<in> set (wallets (serv W)). snd a < length (heap W)"
    using assms(1) by (auto simp: wf_world_def)
  note cp = cloneAll_copies [OF c old]
  from cp have ext: "heap_extends W W'" by simp
  have sv: "store_view W' = store_view W"
    using ext assms(1) by (rule heap_extends_store_view)
  have serv: "serv W' = serv W"
    using ext by (simp add: heap_extends_def)
  have "\<exists>v. returned_copy W' (snd a) v" if "a \<in> set wlts" for a
  proof -
    from cp that have c: "length (heap W) \<le> snd a" "snd a < length (heap W')" by auto
    have "snd a \<notin> snd ` set (wallets (serv W))"
      using c(1) wf_refs_old [OF assms(1), of "snd a"] by auto
    then have "snd a \<notin> snd ` set (wallets (serv W'))"
      by (simp add: serv)
    moreover have "cell W' (snd a) = Some (heap W' ! snd a)"
      using c(2) by (simp add: cell_def)
    ultimately show ?thesis
      using returned_copyI by blast
  qed
  moreover have "map (\<lambda>(k, c). (k, cell W' c)) wlts = store_view W'"
  proof -
    have "store_view W = map (\<lambda>(k, r). (k, cell W r)) (wallets (serv W))"
      by (simp add: store_view_def)
    with cp sv show ?thesis by simp
  qed
  ultimately show ?thesis by blast
qed

lemma published_copy:
  assumes "wf_world W" and "heap W' = heap W @ hs"
    and "length (heap W) \<le> c" and "length (heap W) \<le> w" and "w \<noteq> c"
    and "cell W' c = Some x" and "cell W' w = Some x"
    and "wallets (serv W') = AList.update k c (wallets (serv W))"
  shows "stored W' k = Some x \<and> returned_copy W' w x"
proof -
  have "stored W' = (stored W)(k \<mapsto> x)"
    using assms(1,2,3,6,8) by (rule stored_published)
  moreover have "w \<notin> snd ` set (wallets (serv W'))"
    using assms(1,4,5,8) by (rule fresh_not_stored)
  ultimately show ?thesis
    using assms(7) returned_copyI by simp
qed

lemma CreateWallet_copy:
  assumes "wf_world W" and "CreateWallet D wltName options bg W = Some (Inr w, W')"
  shows "\<exists>v. stored W' (metaFilename v) = Some v \<and> returned_copy W' w v"
proof -
  from assms(2) obtain n where "loadWallet D n options bg W = (Inr w, W')"
    by (auto simp: CreateWallet_def split: if_splits option.splits)
  from loadWallet_cases [OF this] obtain x and e0 :: Entry where x: "metaFilename x = n"
      "w = Suc (length (heap W))"
      "W' = W\<lparr>heap := heap W @ [x, x],
               disk := AList.update (walletDirectory (serv W), n) x (disk W),
               serv := (serv W)\<lparr>wallets := AList.update n (length (heap W)) (wallets (serv W)),
                               firstAddrIDMap := (firstAddrIDMap (serv W))(Address e0 \<mapsto> n)\<rparr>\<rparr>"
    by auto
  have "stored W' n = Some x \<and> returned_copy W' w x"
    by (rule published_copy [OF assms(1), where c = "length (heap W)" and hs = "[x, x]"])
       (simp_all add: x cell_def nth_append)
  with x(1) show ?thesis by blast
qed

lemma EncryptWallet_copy:
  assumes "wf_world W" and "EncryptWallet D wltID password W = (Inr w, W')"
  shows "\<exists>v. stored W' (metaFilename v) = Some v \<and> returned_copy W' w v"
proof -
  have en: "enableWalletAPI (serv W)"
    using assms(2) by (auto simp: EncryptWallet_def split: if_splits)
  obtain r where r: "Wallets_get (wallets (serv W)) wltID = Some r"
    using assms(2) en by (cases "Wallets_get (wallets (serv W)) wltID")
      (auto simp: EncryptWallet_def getWallet_None)
  obtain v where v: "cell W r = Some v"
    using assms(2) en r by (cases "cell W r") (auto simp: EncryptWallet_def getWallet_dangling)
  have plain: "\<not> metaEncrypted v"
    using assms(2) en by (auto simp: EncryptWallet_def getWallet_Some [OF r v] cell_append_new)
  then obtain lv where lv: "Lock v password (cryptoType (serv W)) = Inr lv"
    by (simp add: Lock_def)
  note res = EncryptWallet_result [OF en r v plain lv, of D]
  from assms(2) have ok: "\<not> SaveFails D (walletDirectory (serv W)) lv"
    by (auto simp: res split: if_splits)
  from assms(2) ok have w: "w = length (heap W)"
    and W': "W' = W\<lparr>heap := heap W @ [lv, lv],
              disk := AList.update (walletDirectory (serv W), metaFilename lv) lv (disk W),
              serv := (serv W)\<lparr>wallets :=
                AList.update (metaFilename lv) (Suc (length (heap W))) (wallets (serv W))\<rparr>\<rparr>"
    by (auto simp: res)
  have "stored W' (metaFilename lv) = Some lv \<and> returned_copy W' w lv"
    by (rule published_copy [OF assms(1), where c = "Suc (length (heap W))" and hs = "[lv, lv]"])
       (simp_all add: w W' cell_def nth_append)
  then show ?thesis by blast
qed

lemma DecryptWallet_copy:
  assumes "wf_world W" and "DecryptWallet D wltID password W = (Inr w, W')"
  shows "\<exists>v. stored W' (metaFilename v) = Some v \<and> returned_copy W' w v"
proof -
  have en: "enableWalletAPI (serv W)"
    using assms(2) by (auto simp: DecryptWallet_def split: if_splits)
  obtain r where r: "Wallets_get (wallets (serv W)) wltID = Some r"
    using assms(2) en by (cases "Wallets_get (wallets (serv W)) wltID")
      (auto simp: DecryptWallet_def getWallet_None)
  obtain v where v: "cell W r = Some v"
    using assms(2) en r by (cases "cell W r") (auto simp: DecryptWallet_def getWallet_dangling)
  have enc: "metaEncrypted v"
    using assms(2) en
    by (auto simp: DecryptWallet_def getWallet_Some [OF r v] cell_append_new split: if_splits)
  obtain uv where uv: "Unlock v password = Inr uv"
    using assms(2) en enc
    by (cases "Unlock v password")
       (auto simp: DecryptWallet_def getWallet_Some [OF r v] cell_append_new)
  note res = DecryptWallet_result [OF en r v enc uv, of D]
  from assms(2) have ok: "\<not> SaveFails D (walletDirectory (serv W)) uv"
    by (auto simp: res split: if_splits)
  from assms(2) ok have w: "w = Suc (length (heap W))"
    and W': "W' = W\<lparr>heap := heap W @ [v, uv, uv],
              disk := AList.update (walletDirectory (serv W), metaFilename uv) uv (disk W),
              serv := (serv W)\<lparr>wallets :=
                AList.update (metaFilename uv) (Suc (Suc (length (heap W)))) (wallets (serv W))\<rparr>\<rparr>"
    by (auto simp: res)
  have "stored W' (metaFilename uv) = Some uv \<and> returned_copy W' w uv"
    by (rule published_copy [OF assms(1), where c = "Suc (Suc (length (heap W)))"
            and hs = "[v, uv, uv]"])
       (simp_all add: w W' cell_def nth_append)
  then show ?thesis by blast
qed

lemma RecoverWallet_Inr:
  assumes "RecoverWallet D wltName sd password W = (Inr w, W')"
  shows "\<exists>v. stored W wltName = Some v \<and> Entries v \<noteq> []
           \<and> (\<exists>pk sk. GenerateDeterministicKeyPair D sd = Inr (pk, sk)
                 \<and> addressConstructor D (metaCoin v) pk = Address (hd (Entries v)))
           \<and> w = length (heap W) + 3
           \<and> W' = W\<lparr>heap := heap W @ [v, rebuilt D wltName v sd password,
                                        rebuilt D wltName v sd password,
                                        rebuilt D wltName v sd password],
                     disk := AList.update (walletDirectory (serv W), wltName)
                               (rebuilt D wltName v sd password) (disk W),
                     serv := (serv W)\<lparr>wallets :=
                       AList.update wltName (length (heap W) + 2) (wallets (serv W))\<rparr>\<rparr>"
proof -
  have en: "enableWalletAPI (serv W)"
    using assms by (auto simp: RecoverWallet_def split: if_splits)
  obtain r where r: "Wallets_get (wallets (serv W)) wltName = Some r"
    using assms en by (cases "Wallets_get (wallets (serv W)) wltName")
      (auto simp: RecoverWallet_def getWallet_None)
  obtain v where v: "cell W r = Some v"
    using assms en r by (cases "cell W r") (auto simp: RecoverWallet_def getWallet_dangling)
  note gw = getWallet_Some [OF r v] cell_append_new
  have enc: "metaEncrypted v"
    using assms en by (auto simp: RecoverWallet_def gw split: if_splits)
  have det: "metaType v = WalletTypeDeterministic"
    using assms en enc by (auto simp: RecoverWallet_def gw split: if_splits)
  obtain pk sk where k: "GenerateDeterministicKeyPair D sd = Inr (pk, sk)"
    using assms en enc det
    by (cases "GenerateDeterministicKeyPair D sd") (auto simp: RecoverWallet_def gw)
  obtain e0 es where es: "Entries v = e0 # es"
    using assms en enc det k by (cases "Entries v") (auto simp: RecoverWallet_def gw)
  note res = RecoverWallet_result [OF en r v enc det k es, where password = password]
  have m: "addressConstructor D (metaCoin v) pk = Address e0"
    using assms by (auto simp: res split: if_splits)
  have valid: "ValidateOptions D (recoverOptions v sd password) = None"
    using assms m by (auto simp: res split: option.splits)
  have saved: "\<not> SaveFails D (walletDirectory (serv W)) (rebuilt D wltName v sd password)"
    using assms m valid by (auto simp: res split: if_splits)
  have "stored W wltName = Some v"
    using r v by (simp add: stored_def)
  moreover have "w = length (heap W) + 3"
    using assms m valid saved by (auto simp: res)
  moreover have "W' = W\<lparr>heap := heap W @ [v, rebuilt D wltName v sd password,
                                        rebuilt D wltName v sd password,
                                        rebuilt D wltName v sd password],
                     disk := AList.update (walletDirectory (serv W), wltName)
                               (rebuilt D wltName v sd password) (disk W),
                     serv := (serv W)\<lparr>wallets :=
                       AList.update wltName (length (heap W) + 2) (wallets (serv W))\<rparr>\<rparr>"
    using assms m valid saved by (auto simp: res)
  ultimately show ?thesis
    using k m es by auto
qed

lemma RecoverWallet_copy:
  assumes "wf_world W" and "RecoverWallet D wltName sd password W = (Inr w, W')"
  shows "\<exists>v. stored W' (metaFilename v) = Some v \<and> returned_copy W' w v"
proof -
  from RecoverWallet_Inr [OF assms(2)] obtain v where
      w: "w = length (heap W) + 3"
    and W': "W' = W\<lparr>heap := heap W @ [v, rebuilt D wltName v sd password,
                                        rebuilt D wltName v sd password,
                                        rebuilt D wltName v sd password],
                     disk := AList.update (walletDirectory (serv W), wltName)
                               (rebuilt D wltName v sd password) (disk W),
                     serv := (serv W)\<lparr>wallets :=
                       AList.update wltName (length (heap W) + 2) (wallets (serv W))\<rparr>\<rparr>"
    by blast
  let ?rb = "rebuilt D wltName v sd password"
  have "stored W' wltName = Some ?rb \<and> returned_copy W' w ?rb"
    by (rule published_copy [OF assms(1), where c = "length (heap W) + 2"
            and hs = "[v, ?rb, ?rb, ?rb]"])
       (simp_all add: w W' cell_def nth_append)
  then have "stored W' (metaFilename ?rb) = Some ?rb \<and> returned_copy W' w ?rb"
    by (simp add: rebuilt_props)
  then show ?thesis by blast
qed

text \<open>
  Claim C9. Every method of the service that returns a wallet returns a copy: the
  object handed to the caller has the contents of the wallet in the store (for
  \<^verbatim>\<open>GetWallets\<close>, the returned map read through its pointers is the store), it is not an
  object of the wallet map, and no write to it changes the service, the stored wallets or
  the disk. For \<^verbatim>\<open>GetWallet\<close>, \<^verbatim>\<open>GetWallets\<close>, \<^verbatim>\<open>CreateWallet\<close> and \<^verbatim>\<open>RecoverWallet\<close> the
  returned object is a clone made by the method; \<^verbatim>\<open>EncryptWallet\<close> and \<^verbatim>\<open>DecryptWallet\<close>
  return the object they worked on, and it is \<^verbatim>\<open>Wallets.set\<close> that puts a copy of it,
  not the object, into the map.
\<close>

theorem returned_wallets_are_copies:
  assumes "wf_world W"
  shows "(\<forall>w W'. GetWallet wltID W = (Inr w, W')
            \<longrightarrow> (\<exists>v. stored W wltID = Some v \<and> returned_copy W' w v))
       \<and> (\<forall>wlts W'. GetWallets W = (Inr wlts, W')
            \<longrightarrow> map (\<lambda>(k, c). (k, cell W' c)) wlts = store_view W'
              \<and> (\<forall>a \<in> set wlts. \<exists>v. returned_copy W' (snd a) v))
       \<and> (\<forall>w W'. CreateWallet D wltName options bg W = Some (Inr w, W')
            \<longrightarrow> (\<exists>v. stored W' (metaFilename v) = Some v \<and> returned_copy W' w v))
       \<and> (\<forall>w W'. EncryptWallet D wltID password W = (Inr w, W')
            \<longrightarrow> (\<exists>v. stored W' (metaFilename v) = Some v \<and> returned_copy W' w v))
       \<and> (\<forall>w W'. DecryptWallet D wltID password W = (Inr w, W')
            \<longrightarrow> (\<exists>v. stored W' (metaFilename v) = Some v \<and> returned_copy W' w v))
       \<and> (\<forall>w W'. RecoverWallet D wltID sd password W = (Inr w, W')
            \<longrightarrow> (\<exists>v. stored W' (metaFilename v) = Some v \<and> returned_copy W' w v))"
  using GetWallet_copy [OF assms] GetWallets_copies [OF assms] CreateWallet_copy [OF assms]
    EncryptWallet_copy [OF assms] DecryptWallet_copy [OF assms] RecoverWallet_copy [OF assms]
  by (intro conjI allI impI) blast+

theorem returned_wallets_are_copies_witness:
  "wf_world (exWorld ''/w'')
   \<and> GetWallet ''a.wlt'' (exWorld ''/w'')
       = (Inr 3, (exWorld ''/w'')\<lparr>heap := heap (exWorld ''/w'') @ [exA]\<rparr>)
   \<and> returned_copy ((exWorld ''/w'')\<lparr>heap := heap (exWorld ''/w'') @ [exA]\<rparr>) 3 exA
   \<and> store_view (assign 3 exC ((exWorld ''/w'')\<lparr>heap := heap (exWorld ''/w'') @ [exA]\<rparr>))
       = store_view (exWorld ''/w'')
   \<and> fst (EncryptWallet exDeps ''a.wlt'' ''pw'' (exWorld ''/w'')) = Inr 3
   \<and> (\<exists>v. returned_copy (snd (EncryptWallet exDeps ''a.wlt'' ''pw'' (exWorld ''/w''))) 3 v
         \<and> metaEncrypted v)"
proof -
  have wf: "wf_world (exWorld ''/w'')"
    by (simp add: exWorld_def exService_def wf_world_def)
  have g: "GetWallet ''a.wlt'' (exWorld ''/w'')
       = (Inr 3, (exWorld ''/w'')\<lparr>heap := heap (exWorld ''/w'') @ [exA]\<rparr>)"
    by (simp add: GetWallet_def getWallet_def Wallets_get_def clone_def cell_def alloc_def
          exWorld_def exService_def)
  have e: "fst (EncryptWallet exDeps ''a.wlt'' ''pw'' (exWorld ''/w'')) = Inr 3"
    by (simp add: ex_defs stored_def cell_def Wallets_get_def
        EncryptWallet_def getWallet_def clone_def alloc_def assign_def
        Lock_def Save_def Wallets_set_def)
  then have e': "EncryptWallet exDeps ''a.wlt'' ''pw'' (exWorld ''/w'')
      = (Inr 3, snd (EncryptWallet exDeps ''a.wlt'' ''pw'' (exWorld ''/w'')))"
    by (metis prod.collapse)
  note T = returned_wallets_are_copies [OF wf, of "''a.wlt''" exDeps "''d.wlt''" "exOptions ''sd''"
      "\<lambda>_. Inr [0]" "''pw''" "''sa''"]
  from T g have c1: "returned_copy ((exWorld ''/w'')\<lparr>heap := heap (exWorld ''/w'') @ [exA]\<rparr>) 3 exA"
    by (auto simp: stored_def Wallets_get_def cell_def exWorld_def exService_def)
  then have c2: "store_view (assign 3 exC ((exWorld ''/w'')\<lparr>heap := heap (exWorld ''/w'') @ [exA]\<rparr>))
       = store_view (exWorld ''/w'')"
    using store_view_append [OF wf, of "[exA]"] by (simp add: returned_copy_def)
  from T e' obtain v where v: "stored (snd (EncryptWallet exDeps ''a.wlt'' ''pw'' (exWorld ''/w'')))
        (metaFilename v) = Some v"
      "returned_copy (snd (EncryptWallet exDeps ''a.wlt'' ''pw'' (exWorld ''/w''))) 3 v"
    by blast
  have "cell (snd (EncryptWallet exDeps ''a.wlt'' ''pw'' (exWorld ''/w''))) 3
          = Some (heap (snd (EncryptWallet exDeps ''a.wlt'' ''pw'' (exWorld ''/w''))) ! 3)
        \<and> metaEncrypted (heap (snd (EncryptWallet exDeps ''a.wlt'' ''pw'' (exWorld ''/w''))) ! 3)"
    by (simp add: ex_defs stored_def cell_def Wallets_get_def
        EncryptWallet_def getWallet_def clone_def alloc_def assign_def
        Lock_def Save_def Wallets_set_def)
  with v(2) have "metaEncrypted v"
    by (simp add: returned_copy_def)
  with wf g c1 c2 e v show ?thesis by blast
qed

section \<open>The invariant of the store\<close>

lemma heap_extends_stored:
  assumes "heap_extends W W'" and "wf_world W"
  shows "stored W' = stored W"
proof
  fix wltID
  have s: "serv W' = serv W" using assms(1) by (simp add: heap_extends_def)
  show "stored W' wltID = stored W wltID"
  proof (cases "map_of (wallets (serv W)) wltID")
    case None
    then show ?thesis by (simp add: stored_def Wallets_get_def s)
  next
    case (Some r)
    then have "r \<in> snd ` set (wallets (serv W))"
      by (force dest: map_of_SomeD)
    then have "r < length (heap W)" using assms(2) wf_refs_old by blast
    then have "cell W' r = cell W r" using assms(1) heap_extends_cell by blast
    with Some show ?thesis by (simp add: stored_def Wallets_get_def s)
  qed
qed

lemma heap_extends_wf:
  assumes "heap_extends W W'" and "wf_world W"
  shows "wf_world W'"
  using assms by (auto simp: wf_world_def heap_extends_def)

lemma heap_extends_inv:
  assumes "heap_extends W W'" and "service_inv W"
  shows "service_inv W'"
proof -
  have "wf_world W" using assms(2) by (simp add: service_inv_def)
  then have "stored W' = stored W" "wf_world W'" "serv W' = serv W"
    using assms(1) heap_extends_stored heap_extends_wf by (auto simp: heap_extends_def)
  then show ?thesis
    using assms(2) by (simp add: service_inv_def)
qed

lemma wf_published:
  assumes "wf_world W" and "heap W' = heap W @ hs" and "c < length (heap W')"
    and "wallets (serv W') = AList.update k c (wallets (serv W))"
  shows "wf_world W'"
proof -
  have "r < length (heap W')" if "r \<in> snd ` set (wallets (serv W'))" for r
  proof -
    from that have "r \<in> insert c (snd ` set (wallets (serv W)))"
      using assms(4) update_refs [of k c "wallets (serv W)"] by auto
    then show ?thesis
    proof
      assume "r = c"
      then show ?thesis using assms(3) by simp
    next
      assume "r \<in> snd ` set (wallets (serv W))"
      from wf_refs_old [OF assms(1) this] show ?thesis
        using assms(2) by simp
    qed
  qed
  then show ?thesis by (auto simp: wf_world_def)
qed

lemma CreateWallet_inv:
  assumes "service_inv W" and "CreateWallet D wltName options bg W = Some (res, W')"
  shows "service_inv W'"
proof (cases "enableWalletAPI (serv W)")
  case False
  with assms show ?thesis by (simp add: CreateWallet_def)
next
  case True
  have wf: "wf_world W" using assms(1) by (simp add: service_inv_def)
  from True assms(2) obtain n where lw: "loadWallet D n options bg W = (res, W')"
    by (auto simp: CreateWallet_def split: if_splits option.splits)
  from loadWallet_cases [OF lw] consider
      (failed) "W' = W \<or> (\<exists>x. W' = W\<lparr>heap := heap W @ [x]\<rparr>)"
    | (added) x e0 es where "Entries x = e0 # es" "metaFilename x = n"
        "firstAddrIDMap (serv W) (Address e0) = None"
        "W' = W\<lparr>heap := heap W @ [x, x],
                 disk := AList.update (walletDirectory (serv W), n) x (disk W),
                 serv := (serv W)\<lparr>wallets :=
                           AList.update n (length (heap W)) (wallets (serv W)),
                         firstAddrIDMap :=
                           (firstAddrIDMap (serv W))(Address e0 \<mapsto> n)\<rparr>\<rparr>"
    by blast
  then show ?thesis
  proof cases
    case failed
    then have "heap_extends W W'"
      using heap_extends_refl heap_extends_append by auto
    then show ?thesis using assms(1) by (rule heap_extends_inv)
  next
    case (added x e0 es)
    note x = added(1,2,3) and W' = added(4)
    have st: "stored W' = (stored W)(n \<mapsto> x)"
      by (rule stored_published [OF wf, where c = "length (heap W)" and hs = "[x, x]"])
         (simp_all add: W' cell_def nth_append)
    have wf': "wf_world W'"
      by (rule wf_published [OF wf, where c = "length (heap W)" and hs = "[x, x]" and k = n])
         (simp_all add: W')
    have idx: "firstAddrIDMap (serv W') = (firstAddrIDMap (serv W))(Address e0 \<mapsto> n)"
      by (simp add: W')
    have "Entries v \<noteq> [] \<and> firstAddrIDMap (serv W') (Address (hd (Entries v))) = Some wltID"
      if "stored W' wltID = Some v" for wltID v
    proof (cases "wltID = n")
      case True
      with that st have "v = x" by simp
      with True x show ?thesis by (simp add: idx)
    next
      case False
      with that st have old: "stored W wltID = Some v" by simp
      with assms(1) have v: "Entries v \<noteq> []"
          "firstAddrIDMap (serv W) (Address (hd (Entries v))) = Some wltID"
        by (auto simp: service_inv_def)
      with x(3) have "Address (hd (Entries v)) \<noteq> Address e0" by auto
      with v show ?thesis by (simp add: idx)
    qed
    with wf' show ?thesis by (simp add: service_inv_def)
  qed
qed

lemma stored_removed: "stored (Wallets_remove wltID W) = (stored W)(wltID := None)"
  by (rule ext)
     (simp add: stored_def Wallets_remove_def Wallets_get_def delete_conv' cell_def
        split: option.splits)

lemma wf_removed: "wf_world W \<Longrightarrow> wf_world (Wallets_remove wltID W)"
  by (auto simp: wf_world_def Wallets_remove_def AList.delete_eq)

lemma stored_index_update:
  "stored (W\<lparr>serv := (serv W)\<lparr>firstAddrIDMap := m\<rparr>\<rparr>) = stored W"
  by (rule ext) (simp add: stored_def cell_def split: option.splits)

lemma Remove_cases:
  assumes "Remove wltID W = (err, W')"
  shows "W' = W
       \<or> (W' = Wallets_remove wltID W
            \<and> (stored W wltID = None \<or> (\<exists>v. stored W wltID = Some v \<and> Entries v = [])))
       \<or> (\<exists>v. stored W wltID = Some v \<and> Entries v \<noteq> []
              \<and> W' = Wallets_remove wltID
                       (W\<lparr>serv := (serv W)\<lparr>firstAddrIDMap :=
                            (firstAddrIDMap (serv W))(Address (hd (Entries v)) := None)\<rparr>\<rparr>))"
proof (cases "enableWalletAPI (serv W)")
  case False
  with assms show ?thesis by (simp add: Remove_def)
next
  case True
  show ?thesis
  proof (cases "Wallets_get (wallets (serv W)) wltID")
    case None
    with True assms show ?thesis by (simp add: Remove_def stored_def)
  next
    case (Some r)
    show ?thesis
    proof (cases "cell W r")
      case None
      with True Some assms show ?thesis by (simp add: Remove_def)
    next
      case v: (Some v)
      show ?thesis
      proof (cases "Entries v")
        case Nil
        with True Some v assms show ?thesis by (simp add: Remove_def stored_def)
      next
        case (Cons e0 es)
        with True Some v assms show ?thesis by (simp add: Remove_def stored_def)
      qed
    qed
  qed
qed

lemma index_removed:
  "firstAddrIDMap (serv (Wallets_remove wltID W)) = firstAddrIDMap (serv W)"
  by (simp add: Wallets_remove_def)

lemma Remove_inv:
  assumes "service_inv W" and "Remove wltID W = (err, W')"
  shows "service_inv W'"
proof -
  have wf: "wf_world W" using assms(1) by (simp add: service_inv_def)
  have old: "Entries u \<noteq> [] \<and> firstAddrIDMap (serv W) (Address (hd (Entries u))) = Some k"
    if "stored W k = Some u" for k u
    using assms(1) that by (simp add: service_inv_def)
  from Remove_cases [OF assms(2)] consider (same) "W' = W"
    | (plain) "W' = Wallets_remove wltID W"
    | (retired) v where "stored W wltID = Some v" "Entries v \<noteq> []"
        "W' = Wallets_remove wltID
               (W\<lparr>serv := (serv W)\<lparr>firstAddrIDMap :=
                    (firstAddrIDMap (serv W))(Address (hd (Entries v)) := None)\<rparr>\<rparr>)"
    by blast
  then show ?thesis
  proof cases
    case same
    with assms(1) show ?thesis by simp
  next
    case plain
    have st: "stored W' = (stored W)(wltID := None)"
      by (simp add: plain stored_removed)
    have wf': "wf_world W'"
      unfolding plain using wf by (rule wf_removed)
    have idx: "firstAddrIDMap (serv W') = firstAddrIDMap (serv W)"
      by (simp add: plain index_removed)
    have "Entries u \<noteq> [] \<and> firstAddrIDMap (serv W') (Address (hd (Entries u))) = Some k"
      if "stored W' k = Some u" for k u
    proof -
      from that st have "stored W k = Some u"
        by (cases "k = wltID") simp_all
      from old [OF this] show ?thesis by (simp add: idx)
    qed
    with wf' show ?thesis by (simp add: service_inv_def)
  next
    case (retired v)
    let ?W1 = "W\<lparr>serv := (serv W)\<lparr>firstAddrIDMap :=
                    (firstAddrIDMap (serv W))(Address (hd (Entries v)) := None)\<rparr>\<rparr>"
    have st: "stored W' = (stored W)(wltID := None)"
      by (simp add: retired(3) stored_removed stored_index_update)
    have "wf_world ?W1" using wf by (simp add: wf_world_def)
    then have wf': "wf_world W'"
      unfolding retired(3) by (rule wf_removed)
    have idx: "firstAddrIDMap (serv W')
        = (firstAddrIDMap (serv W))(Address (hd (Entries v)) := None)"
      by (simp add: retired(3) index_removed)
    have own: "firstAddrIDMap (serv W) (Address (hd (Entries v))) = Some wltID"
      using old [OF retired(1)] by simp
    have "Entries u \<noteq> [] \<and> firstAddrIDMap (serv W') (Address (hd (Entries u))) = Some k"
      if "stored W' k = Some u" for k u
    proof -
      from that st have k: "k \<noteq> wltID" "stored W k = Some u"
        by (cases "k = wltID"; simp)+
      note u = old [OF k(2)]
      with own k(1) have "Address (hd (Entries u)) \<noteq> Address (hd (Entries v))" by auto
      with u show ?thesis by (simp add: idx)
    qed
    with wf' show ?thesis by (simp add: service_inv_def)
  qed
qed

lemma RecoverWallet_Inl_extends:
  assumes "RecoverWallet D wltName sd password W = (Inl err, W')"
  shows "heap_extends W W'"
proof (cases "enableWalletAPI (serv W)")
  case False
  with assms show ?thesis by (simp add: RecoverWallet_def heap_extends_refl)
next
  case en: True
  show ?thesis
  proof (cases "Wallets_get (wallets (serv W)) wltName")
    case None
    with en assms show ?thesis
      by (simp add: RecoverWallet_def getWallet_None heap_extends_refl)
  next
    case r: (Some r)
    show ?thesis
    proof (cases "cell W r")
      case None
      with en r assms show ?thesis
        by (simp add: RecoverWallet_def getWallet_dangling heap_extends_refl)
    next
      case v: (Some v)
      note gw = getWallet_Some [OF r v] cell_append_new
      have early: "W' = W\<lparr>heap := heap W @ [v]\<rparr> \<Longrightarrow> ?thesis"
        by (simp add: heap_extends_append)
      show ?thesis
      proof (cases "metaEncrypted v \<and> metaType v = WalletTypeDeterministic")
        case False
        with en assms have "W' = W\<lparr>heap := heap W @ [v]\<rparr>"
          by (auto simp: RecoverWallet_def gw split: if_splits)
        then show ?thesis by (rule early)
      next
        case True
        show ?thesis
        proof (cases "GenerateDeterministicKeyPair D sd")
          case (Inl e)
          with en True assms have "W' = W\<lparr>heap := heap W @ [v]\<rparr>"
            by (simp add: RecoverWallet_def gw)
          then show ?thesis by (rule early)
        next
          case (Inr p)
          obtain pk sk where k: "GenerateDeterministicKeyPair D sd = Inr (pk, sk)"
            using Inr by (cases p) simp
          show ?thesis
          proof (cases "Entries v")
            case Nil
            with en True k assms have "W' = W\<lparr>heap := heap W @ [v]\<rparr>"
              by (simp add: RecoverWallet_def gw)
            then show ?thesis by (rule early)
          next
            case (Cons e0 es)
            from True have enc: "metaEncrypted v" and det: "metaType v = WalletTypeDeterministic"
              by simp_all
            note res = RecoverWallet_result [OF en r v enc det k Cons, where password = password]
            from assms have "\<exists>hs. W' = W\<lparr>heap := heap W @ hs\<rparr>"
              by (auto simp: res split: if_splits option.splits)
            then show ?thesis
              using heap_extends_append by auto
          qed
        qed
      qed
    qed
  qed
qed

lemma GenerateDeterministicKeyPair_first:
  "GenerateDeterministicKeyPair D sd = Inr (pk, sk) \<Longrightarrow> fst (DeterministicKeyPair D sd 0) = pk"
  by (auto simp: GenerateDeterministicKeyPair_def split: option.splits)

lemma RecoverWallet_inv:
  assumes "service_inv W" and "RecoverWallet D wltName sd password W = (res, W')"
  shows "service_inv W'"
proof (cases res)
  case (Inl err)
  with assms(2) have "heap_extends W W'"
    using RecoverWallet_Inl_extends by blast
  then show ?thesis using assms(1) by (rule heap_extends_inv)
next
  case (Inr w)
  have wf: "wf_world W" using assms(1) by (simp add: service_inv_def)
  let ?rb = "\<lambda>v. rebuilt D wltName v sd password"
  from RecoverWallet_Inr [OF assms(2) [unfolded Inr]] obtain v pk sk where
      v: "stored W wltName = Some v" "Entries v \<noteq> []"
    and k: "GenerateDeterministicKeyPair D sd = Inr (pk, sk)"
      "addressConstructor D (metaCoin v) pk = Address (hd (Entries v))"
    and W': "W' = W\<lparr>heap := heap W @ [v, ?rb v, ?rb v, ?rb v],
                     disk := AList.update (walletDirectory (serv W), wltName) (?rb v) (disk W),
                     serv := (serv W)\<lparr>wallets :=
                       AList.update wltName (length (heap W) + 2) (wallets (serv W))\<rparr>\<rparr>"
    by blast
  have st: "stored W' = (stored W)(wltName \<mapsto> ?rb v)"
    by (rule stored_published [OF wf, where c = "length (heap W) + 2"
            and hs = "[v, ?rb v, ?rb v, ?rb v]"])
       (simp_all add: W' cell_def nth_append)
  have wf': "wf_world W'"
    by (rule wf_published [OF wf, where c = "length (heap W) + 2"
            and hs = "[v, ?rb v, ?rb v, ?rb v]" and k = wltName])
       (simp_all add: W')
  have idx: "firstAddrIDMap (serv W') = firstAddrIDMap (serv W)"
    by (simp add: W')
  have old: "Entries u \<noteq> [] \<and> firstAddrIDMap (serv W) (Address (hd (Entries u))) = Some i"
    if "stored W i = Some u" for i u
    using assms(1) that by (simp add: service_inv_def)
  from rebuilt_first [OF v(2), of D wltName sd password] obtain e es where
      rb: "Entries (?rb v) = e # es"
        "Address e = addressConstructor D (metaCoin v) (fst (DeterministicKeyPair D sd 0))"
    by blast
  have first: "Address (hd (Entries (?rb v))) = Address (hd (Entries v))"
    using rb k GenerateDeterministicKeyPair_first [OF k(1)] by simp
  have "Entries u \<noteq> [] \<and> firstAddrIDMap (serv W') (Address (hd (Entries u))) = Some i"
    if "stored W' i = Some u" for i u
  proof (cases "i = wltName")
    case True
    with that st have "u = ?rb v" by simp
    then show ?thesis
      using rb(1) first old [OF v(1)] True by (simp add: idx)
  next
    case False
    with that st have "stored W i = Some u" by simp
    from old [OF this] show ?thesis by (simp add: idx)
  qed
  with wf' show ?thesis by (simp add: service_inv_def)
qed

section \<open>Service construction and the reachable states\<close>

lemma containsEmpty_None:
  "containsEmpty W L = None \<Longrightarrow> a \<in> set L \<Longrightarrow> \<exists>ad. firstAddress W (snd a) = Some ad"
proof (induction L)
  case Nil
  then show ?case by simp
next
  case (Cons b L)
  obtain k r where b: "b = (k, r)" by (cases b)
  show ?case
  proof (cases "cell W r")
    case None
    with Cons.prems b show ?thesis by simp
  next
    case (Some v)
    show ?thesis
    proof (cases "Entries v")
      case Nil
      with Some Cons.prems b show ?thesis by simp
    next
      case (Cons e0 es)
      with Some have here: "firstAddress W r = Some (Address e0)"
        by (simp add: firstAddress_def)
      from Cons Some \<open>containsEmpty W (b # L) = None\<close> b have "containsEmpty W L = None"
        by simp
      with Cons.IH \<open>a \<in> set (b # L)\<close> here b show ?thesis by auto
    qed
  qed
qed

lemma containsDuplicate_None:
  "containsDuplicate W L seen = None \<Longrightarrow> \<forall>a \<in> set L. firstAddress W (snd a) \<noteq> None \<Longrightarrow>
   distinct (map (\<lambda>a. firstAddress W (snd a)) L)
   \<and> (\<forall>a \<in> set L. \<forall>ad. firstAddress W (snd a) = Some ad \<longrightarrow> ad \<notin> set seen)"
proof (induction L arbitrary: seen)
  case Nil
  then show ?case by simp
next
  case (Cons b L)
  obtain k r where b: "b = (k, r)" by (cases b)
  from Cons.prems(2) b obtain ad where ad: "firstAddress W r = Some ad" by auto
  then obtain v e0 es where v: "cell W r = Some v" "Entries v = e0 # es" "ad = Address e0"
    by (auto simp: firstAddress_def split: option.splits list.splits)
  from Cons.prems(1) b v have fresh: "ad \<notin> set seen"
    and rest: "containsDuplicate W L (ad # seen) = None"
    by (auto split: if_splits)
  have "\<forall>a \<in> set L. firstAddress W (snd a) \<noteq> None"
    using Cons.prems(2) by simp
  from Cons.IH [OF rest this]
  have d: "distinct (map (\<lambda>a. firstAddress W (snd a)) L)"
    and s: "\<forall>a \<in> set L. \<forall>x. firstAddress W (snd a) = Some x \<longrightarrow> x \<notin> set (ad # seen)"
    by simp_all
  have "Some ad \<notin> (\<lambda>a. firstAddress W (snd a)) ` set L"
  proof
    assume "Some ad \<in> (\<lambda>a. firstAddress W (snd a)) ` set L"
    then obtain a where "a \<in> set L" "firstAddress W (snd a) = Some ad" by force
    with s show False by auto
  qed
  with d s fresh ad b show ?case by auto
qed

lemma indexWallets_other:
  "indexWallets W L m = Inr m' \<Longrightarrow> \<forall>a \<in> set L. firstAddress W (snd a) \<noteq> Some ad \<Longrightarrow>
   m' ad = m ad"
proof (induction L arbitrary: m)
  case Nil
  then show ?case by simp
next
  case (Cons b L)
  obtain k r where b: "b = (k, r)" by (cases b)
  from Cons.prems(1) b obtain v e0 es where v: "cell W r = Some v" "Entries v = e0 # es"
    and rest: "indexWallets W L (m(Address e0 \<mapsto> k)) = Inr m'"
    by (auto split: option.splits list.splits)
  have "firstAddress W r = Some (Address e0)"
    using v by (simp add: firstAddress_def)
  with Cons.prems(2) b have "Address e0 \<noteq> ad" by auto
  moreover have "m' ad = (m(Address e0 \<mapsto> k)) ad"
    using Cons.IH [OF rest] Cons.prems(2) by simp
  ultimately show ?case by simp
qed

lemma indexWallets_maps:
  "indexWallets W L m = Inr m' \<Longrightarrow> distinct (map (\<lambda>a. firstAddress W (snd a)) L) \<Longrightarrow>
   (k, r) \<in> set L \<Longrightarrow> firstAddress W r = Some ad \<Longrightarrow> m' ad = Some k"
proof (induction L arbitrary: m)
  case Nil
  then show ?case by simp
next
  case (Cons b L)
  obtain k0 r0 where b: "b = (k0, r0)" by (cases b)
  from Cons.prems(1) b obtain v e0 es where v: "cell W r0 = Some v" "Entries v = e0 # es"
    and rest: "indexWallets W L (m(Address e0 \<mapsto> k0)) = Inr m'"
    by (auto split: option.splits list.splits)
  have f0: "firstAddress W r0 = Some (Address e0)"
    using v by (simp add: firstAddress_def)
  from Cons.prems(2) have d: "distinct (map (\<lambda>a. firstAddress W (snd a)) L)"
    and n: "firstAddress W r0 \<notin> (\<lambda>a. firstAddress W (snd a)) ` set L"
    by (simp_all add: b)
  show ?case
  proof (cases "(k, r) = (k0, r0)")
    case True
    with f0 Cons.prems(4) have "ad = Address e0" by simp
    moreover have "\<forall>a \<in> set L. firstAddress W (snd a) \<noteq> Some (Address e0)"
      using n f0 by force
    ultimately have "m' ad = (m(Address e0 \<mapsto> k0)) ad"
      using indexWallets_other [OF rest] by blast
    with True \<open>ad = Address e0\<close> show ?thesis by simp
  next
    case False
    with Cons.prems(3) b have "(k, r) \<in> set L" by auto
    from Cons.IH [OF rest d this Cons.prems(4)] show ?thesis .
  qed
qed

lemma loadFiles_extends:
  "loadFiles dir files wlts W = (L, W') \<Longrightarrow> \<forall>a \<in> set wlts. snd a < length (heap W) \<Longrightarrow>
   heap_extends W W' \<and> (\<forall>a \<in> set L. snd a < length (heap W'))"
proof (induction files arbitrary: wlts W)
  case Nil
  then show ?case by (simp add: heap_extends_refl)
next
  case (Cons f files)
  obtain d name v where f: "f = ((d, name), v)" by (cases f) auto
  show ?case
  proof (cases "d = dir")
    case False
    with Cons.prems f have "loadFiles dir files wlts W = (L, W')" by simp
    from Cons.IH [OF this Cons.prems(2)] show ?thesis .
  next
    case True
    let ?W1 = "W\<lparr>heap := heap W @ [v\<lparr>metaFilename := name\<rparr>]\<rparr>"
    let ?wlts1 = "AList.update name (length (heap W)) wlts"
    from True Cons.prems(1) f have rest: "loadFiles dir files ?wlts1 ?W1 = (L, W')"
      by (simp add: alloc_def)
    have "\<forall>a \<in> set ?wlts1. snd a < length (heap ?W1)"
    proof
      fix a assume "a \<in> set ?wlts1"
      then have "snd a \<in> insert (length (heap W)) (snd ` set wlts)"
        using update_refs [of name "length (heap W)" wlts] by auto
      then show "snd a < length (heap ?W1)"
        using Cons.prems(2) by auto
    qed
    from Cons.IH [OF rest this] have "heap_extends ?W1 W'"
      and refs: "\<forall>a \<in> set L. snd a < length (heap W')"
      by simp_all
    then have "heap_extends W W'"
      using heap_extends_trans [OF heap_extends_append] by blast
    with refs show ?thesis by simp
  qed
qed

lemma NewService_enabled:
  assumes "NewService D c files = Inr W" and "EnableWalletAPI c"
  shows "\<exists>L W3 m. loadFiles (WalletDir c)
                    (filter (\<lambda>((d, name), _). \<not> (d = WalletDir c \<and> isBackupFile name)) files) []
                    \<lparr>serv = \<lparr>wallets = [], firstAddrIDMap = Map.empty,
                              walletDirectory = WalletDir c, cryptoType = ConfigCryptoType c,
                              enableWalletAPI = True, enableSeedAPI = EnableSeedAPI c\<rparr>,
                      heap = [],
                      disk = filter (\<lambda>((d, name), _). \<not> (d = WalletDir c \<and> isBackupFile name))
                               files\<rparr>
                  = (L, W3)
              \<and> containsDuplicate W3 L [] = None \<and> containsEmpty W3 L = None
              \<and> indexWallets W3 L Map.empty = Inr m
              \<and> firstAddrIDMap (serv W3) = Map.empty
              \<and> W = W3\<lparr>serv := (serv W3)\<lparr>wallets := L, firstAddrIDMap := m\<rparr>\<rparr>"
proof -
  let ?files = "filter (\<lambda>((d, name), _). \<not> (d = WalletDir c \<and> isBackupFile name)) files"
  let ?W1 = "\<lparr>serv = \<lparr>wallets = [], firstAddrIDMap = Map.empty,
                      walletDirectory = WalletDir c, cryptoType = ConfigCryptoType c,
                      enableWalletAPI = True, enableSeedAPI = EnableSeedAPI c\<rparr>,
              heap = [], disk = ?files\<rparr>"
  obtain L W3 where L: "loadFiles (WalletDir c) ?files [] ?W1 = (L, W3)"
    by (cases "loadFiles (WalletDir c) ?files [] ?W1")
  have "heap_extends ?W1 W3"
    using loadFiles_extends [OF L] by simp
  then have s3: "serv W3 = serv ?W1"
    by (simp add: heap_extends_def)
  from assms L have ok: "\<not> MkdirAllFails D (WalletDir c)" "\<not> RemoveBackupFails D (WalletDir c)"
      "\<not> LoadFails D (WalletDir c)"
    by (auto simp: NewService_def Let_def removeBackupFiles_def LoadWallets_def
        split: if_splits)
  from assms L ok have rest: "(case containsDuplicate W3 L [] of
            Some err \<Rightarrow> Inl (err, disk W3)
          | None \<Rightarrow>
              (case containsEmpty W3 L of
                 Some err \<Rightarrow> Inl (err, disk W3)
               | None \<Rightarrow>
                   (case setWallets L W3 of
                      (Some err, W4) \<Rightarrow> Inl (err, disk W4)
                    | (None, W4) \<Rightarrow> Inr W4))) = Inr W"
    by (simp add: NewService_def Let_def removeBackupFiles_def LoadWallets_def)
  then have dup: "containsDuplicate W3 L [] = None"
    by (cases "containsDuplicate W3 L []") simp_all
  with rest have emp: "containsEmpty W3 L = None"
    by (cases "containsEmpty W3 L") simp_all
  with rest dup have sw: "setWallets L W3 = (None, W)"
    by (cases "setWallets L W3") (auto split: option.splits)
  then obtain m where m: "indexWallets W3 L (firstAddrIDMap (serv W3)) = Inr m"
      "W = W3\<lparr>serv := (serv W3)\<lparr>wallets := L, firstAddrIDMap := m\<rparr>\<rparr>"
    by (cases "indexWallets W3 L (firstAddrIDMap (serv W3))") (auto simp: setWallets_def)
  have "firstAddrIDMap (serv W3) = Map.empty"
    by (simp add: s3)
  with L dup emp m show ?thesis by auto
qed

lemma cell_serv_update: "cell (W\<lparr>serv := s\<rparr>) r = cell W r"
  by (simp add: cell_def)

lemma firstAddress_SomeD:
  "firstAddress W r = Some ad \<Longrightarrow>
   \<exists>v. cell W r = Some v \<and> Entries v \<noteq> [] \<and> ad = Address (hd (Entries v))"
  by (auto simp: firstAddress_def split: option.splits list.splits)

lemma NewService_inv:
  assumes "NewService D c files = Inr W"
  shows "service_inv W"
proof (cases "EnableWalletAPI c")
  case False
  with assms have "wallets (serv W) = []"
    by (auto simp: NewService_def Let_def)
  then show ?thesis
    by (simp add: service_inv_def wf_world_def stored_def Wallets_get_def)
next
  case True
  from NewService_enabled [OF assms True] obtain L W3 m W1 where
      L: "loadFiles (WalletDir c)
            (filter (\<lambda>((d, name), _). \<not> (d = WalletDir c \<and> isBackupFile name)) files) [] W1
          = (L, W3)"
    and chk: "containsDuplicate W3 L [] = None" "containsEmpty W3 L = None"
    and m: "indexWallets W3 L Map.empty = Inr m"
    and W: "W = W3\<lparr>serv := (serv W3)\<lparr>wallets := L, firstAddrIDMap := m\<rparr>\<rparr>"
    by blast
  have refs: "\<forall>a \<in> set L. snd a < length (heap W3)"
    using loadFiles_extends [OF L] by simp
  then have wf: "wf_world W"
    by (auto simp: wf_world_def W)
  have nonempty: "\<forall>a \<in> set L. firstAddress W3 (snd a) \<noteq> None"
    using containsEmpty_None [OF chk(2)] by fastforce
  from containsDuplicate_None [OF chk(1) nonempty]
  have dist: "distinct (map (\<lambda>a. firstAddress W3 (snd a)) L)" by simp
  have "Entries v \<noteq> [] \<and> firstAddrIDMap (serv W) (Address (hd (Entries v))) = Some k"
    if "stored W k = Some v" for k v
  proof -
    from that obtain r where r: "map_of L k = Some r" "cell W3 r = Some v"
      by (auto simp: stored_def Wallets_get_def W cell_serv_update split: option.splits)
    then have mem: "(k, r) \<in> set L" by (auto dest: map_of_SomeD)
    with nonempty obtain ad where ad: "firstAddress W3 r = Some ad" by fastforce
    from firstAddress_SomeD [OF ad] r(2)
    have v: "Entries v \<noteq> []" "ad = Address (hd (Entries v))" by auto
    from indexWallets_maps [OF m dist mem ad] have "m ad = Some k" .
    with v show ?thesis by (simp add: W)
  qed
  with wf show ?thesis by (simp add: service_inv_def)
qed

lemma inv_distinct_first:
  assumes "service_inv W" and "stored W k1 = Some v1" and "stored W k2 = Some v2"
    and "k1 \<noteq> k2"
  shows "Address (hd (Entries v1)) \<noteq> Address (hd (Entries v2))"
proof
  assume "Address (hd (Entries v1)) = Address (hd (Entries v2))"
  moreover have "firstAddrIDMap (serv W) (Address (hd (Entries v1))) = Some k1"
    "firstAddrIDMap (serv W) (Address (hd (Entries v2))) = Some k2"
    using assms(1,2,3) by (simp_all add: service_inv_def)
  ultimately show False using assms(4) by simp
qed

lemma update_absent: "k \<notin> fst ` set al \<Longrightarrow> AList.update k v al = al @ [(k, v)]"
  by (induction al) auto

lemma points_extends:
  assumes "heap_extends W W'" and "list_all2 (points W) L F"
  shows "list_all2 (points W') L F"
proof -
  have "points W' a b" if "points W a b" for a b
  proof -
    from that have c: "cell W (snd a) = Some (snd b)" by (simp add: points_def)
    then have "snd a < length (heap W)" by (simp add: cell_def split: if_splits)
    from heap_extends_cell [OF assms(1) this] c that show ?thesis by (simp add: points_def)
  qed
  with assms(2) show ?thesis by (rule list_all2_mono)
qed

lemma points_keys: "list_all2 (points W) L F \<Longrightarrow> map fst L = map fst F"
  by (induction rule: list_all2_induct) (simp_all add: points_def)

lemma loadFiles_points:
  "loadFiles dir files wlts W = (L, W') \<Longrightarrow> list_all2 (points W) wlts P \<Longrightarrow>
   distinct (map fst files) \<Longrightarrow> \<forall>k \<in> fst ` set wlts. (dir, k) \<notin> fst ` set files \<Longrightarrow>
   list_all2 (points W') L (P @ dirWallets dir files) \<and> heap_extends W W'"
proof (induction files arbitrary: wlts W P)
  case Nil
  then show ?case by (simp add: dirWallets_def heap_extends_refl)
next
  case (Cons f files)
  obtain d name v where f: "f = ((d, name), v)" by (cases f) auto
  from Cons.prems(3) have dist: "distinct (map fst files)" and fresh: "(d, name) \<notin> fst ` set files"
    by (simp_all add: f)
  show ?case
  proof (cases "d = dir")
    case False
    with Cons.prems(1) f have rest: "loadFiles dir files wlts W = (L, W')" by simp
    have "\<forall>k \<in> fst ` set wlts. (dir, k) \<notin> fst ` set files"
      using Cons.prems(4) by auto
    from Cons.IH [OF rest Cons.prems(2) dist this] show ?thesis
      using False f by (simp add: dirWallets_def)
  next
    case True
    let ?x = "v\<lparr>metaFilename := name\<rparr>"
    let ?W1 = "W\<lparr>heap := heap W @ [?x]\<rparr>"
    have absent: "name \<notin> fst ` set wlts"
      using Cons.prems(4) True f by auto
    then have upd: "AList.update name (length (heap W)) wlts = wlts @ [(name, length (heap W))]"
      by (rule update_absent)
    from True Cons.prems(1) f have rest:
      "loadFiles dir files (wlts @ [(name, length (heap W))]) ?W1 = (L, W')"
      by (simp add: alloc_def upd)
    have ext1: "heap_extends W ?W1" by (rule heap_extends_append)
    have "list_all2 (points ?W1) wlts P"
      using ext1 Cons.prems(2) by (rule points_extends)
    moreover have "points ?W1 (name, length (heap W)) (name, ?x)"
      by (simp add: points_def cell_def)
    ultimately have p1: "list_all2 (points ?W1) (wlts @ [(name, length (heap W))]) (P @ [(name, ?x)])"
      by (simp add: list_all2_appendI)
    have keys: "\<forall>k \<in> fst ` set (wlts @ [(name, length (heap W))]). (dir, k) \<notin> fst ` set files"
      using Cons.prems(4) fresh True by auto
    from Cons.IH [OF rest p1 dist keys]
    have "list_all2 (points W') L ((P @ [(name, ?x)]) @ dirWallets dir files)"
      and "heap_extends ?W1 W'"
      by simp_all
    then show ?thesis
      using heap_extends_trans [OF ext1] True f by (simp add: dirWallets_def)
  qed
qed


lemma containsEmpty_points_Some:
  "list_all2 (points W) L F \<Longrightarrow> containsEmpty W L = Some err \<Longrightarrow>
   \<exists>n v. err = ErrEmptyWallet n \<and> (n, v) \<in> set F \<and> Entries v = []"
proof (induction rule: list_all2_induct)
  case Nil
  then show ?case by simp
next
  case (Cons a L b F)
  obtain k r where a: "a = (k, r)" by (cases a)
  obtain n v where b: "b = (n, v)" by (cases b)
  from Cons.hyps(1) a b have p: "k = n" "cell W r = Some v" by (simp_all add: points_def)
  show ?case
  proof (cases "Entries v = []")
    case True
    with Cons.prems a p have "err = ErrEmptyWallet n" by simp
    with True b show ?thesis by auto
  next
    case False
    with Cons.prems a p have "containsEmpty W L = Some err" by simp
    from Cons.IH [OF this] show ?thesis by auto
  qed
qed

lemma containsEmpty_points_None:
  "list_all2 (points W) L F \<Longrightarrow> containsEmpty W L = None \<Longrightarrow> \<not> hasEmpty F"
proof (induction rule: list_all2_induct)
  case Nil
  then show ?case by (simp add: hasEmpty_def)
next
  case (Cons a L b F)
  obtain k r where a: "a = (k, r)" by (cases a)
  obtain n v where b: "b = (n, v)" by (cases b)
  from Cons.hyps(1) a b have p: "k = n" "cell W r = Some v" by (simp_all add: points_def)
  from Cons.prems a p have ne: "Entries v \<noteq> []" and rest: "containsEmpty W L = None"
    by (auto split: if_splits)
  from Cons.IH [OF rest] ne b show ?case by (simp add: hasEmpty_def)
qed

lemma indexWallets_points:
  "list_all2 (points W) L F \<Longrightarrow> \<not> hasEmpty F \<Longrightarrow> \<exists>m'. indexWallets W L m = Inr m'"
proof (induction arbitrary: m rule: list_all2_induct)
  case Nil
  then show ?case by simp
next
  case (Cons a L b F)
  obtain k r where a: "a = (k, r)" by (cases a)
  obtain n v where b: "b = (n, v)" by (cases b)
  from Cons.hyps(1) a b have p: "k = n" "cell W r = Some v" by (simp_all add: points_def)
  from Cons.prems b obtain e0 es where e: "Entries v = e0 # es"
    by (cases "Entries v") (auto simp: hasEmpty_def)
  from Cons.prems have "\<not> hasEmpty F" by (simp add: hasEmpty_def)
  from Cons.IH [OF this] obtain m' where "indexWallets W L (m(Address e0 \<mapsto> k)) = Inr m'"
    by blast
  then show ?case by (simp add: a p e)
qed

lemma points_view:
  "list_all2 (points W) L F \<Longrightarrow>
   map (\<lambda>(k, r). (k, cell W r)) L = map (\<lambda>(n, v). (n, Some v)) F"
  by (induction rule: list_all2_induct) (auto simp: points_def)

lemma containsDuplicate_points_Some:
  "list_all2 (points W) L F \<Longrightarrow> containsDuplicate W L seen = Some err \<Longrightarrow>
   distinct (map fst F) \<Longrightarrow>
   \<exists>n v. err = ErrDuplicateWallet (Address (hd (Entries v))) n \<and> (n, v) \<in> set F
        \<and> Entries v \<noteq> []
        \<and> (Address (hd (Entries v)) \<in> set seen
             \<or> (\<exists>n' v'. (n', v') \<in> set F \<and> n' \<noteq> n \<and> Entries v' \<noteq> []
                   \<and> Address (hd (Entries v')) = Address (hd (Entries v))))"
proof (induction arbitrary: seen rule: list_all2_induct)
  case Nil
  then show ?case by simp
next
  case (Cons a L b F)
  obtain k r where a: "a = (k, r)" by (cases a)
  obtain n v where b: "b = (n, v)" by (cases b)
  from Cons.hyps(1) a b have p: "k = n" "cell W r = Some v" by (simp_all add: points_def)
  from Cons.prems(2) b have dist: "distinct (map fst F)" and fresh: "n \<notin> fst ` set F"
    by simp_all
  show ?case
  proof (cases "Entries v")
    case Nil
    with Cons.prems(1) a p have "containsDuplicate W L seen = Some err" by simp
    from Cons.IH [OF this dist] obtain n1 v1 where
        r: "err = ErrDuplicateWallet (Address (hd (Entries v1))) n1" "(n1, v1) \<in> set F"
           "Entries v1 \<noteq> []"
           "Address (hd (Entries v1)) \<in> set seen
             \<or> (\<exists>n' v'. (n', v') \<in> set F \<and> n' \<noteq> n1 \<and> Entries v' \<noteq> []
                   \<and> Address (hd (Entries v')) = Address (hd (Entries v1)))"
      by blast
    from r(4) have "Address (hd (Entries v1)) \<in> set seen
             \<or> (\<exists>n' v'. (n', v') \<in> set (b # F) \<and> n' \<noteq> n1 \<and> Entries v' \<noteq> []
                   \<and> Address (hd (Entries v')) = Address (hd (Entries v1)))"
      by auto
    with r(1,2,3) show ?thesis by auto
  next
    case (Cons e0 es)
    show ?thesis
    proof (cases "Address e0 \<in> set seen")
      case True
      with Cons Cons.prems(1) a p have "err = ErrDuplicateWallet (Address e0) n" by simp
      with True Cons b
      have "err = ErrDuplicateWallet (Address (hd (Entries v))) n \<and> (n, v) \<in> set (b # F)
              \<and> Entries v \<noteq> [] \<and> Address (hd (Entries v)) \<in> set seen"
        by simp
      then show ?thesis by blast
    next
      case False
      with Cons Cons.prems(1) a p
      have "containsDuplicate W L (Address e0 # seen) = Some err" by simp
      from Cons.IH [OF this dist] obtain n1 v1 where
          r: "err = ErrDuplicateWallet (Address (hd (Entries v1))) n1" "(n1, v1) \<in> set F"
             "Entries v1 \<noteq> []"
             "Address (hd (Entries v1)) \<in> set (Address e0 # seen)
               \<or> (\<exists>n' v'. (n', v') \<in> set F \<and> n' \<noteq> n1 \<and> Entries v' \<noteq> []
                     \<and> Address (hd (Entries v')) = Address (hd (Entries v1)))"
        by blast
      from r(2) fresh have neq: "n \<noteq> n1" by force
      have "Address (hd (Entries v1)) \<in> set seen
             \<or> (\<exists>n' v'. (n', v') \<in> set (b # F) \<and> n' \<noteq> n1 \<and> Entries v' \<noteq> []
                   \<and> Address (hd (Entries v')) = Address (hd (Entries v1)))"
      proof (cases "Address (hd (Entries v1)) = Address e0")
        case True
        have "(n, v) \<in> set (b # F) \<and> n \<noteq> n1 \<and> Entries v \<noteq> []
                \<and> Address (hd (Entries v)) = Address (hd (Entries v1))"
          using True neq Cons b by simp
        then show ?thesis by blast
      next
        case False
        with r(4) show ?thesis by auto
      qed
      with r(1,2,3) show ?thesis by auto
    qed
  qed
qed

lemma containsDuplicate_points_None:
  "list_all2 (points W) L F \<Longrightarrow> containsDuplicate W L seen = None \<Longrightarrow>
   (\<forall>(n1, v1) \<in> set F. Entries v1 \<noteq> [] \<longrightarrow>
       Address (hd (Entries v1)) \<notin> set seen
       \<and> (\<forall>(n2, v2) \<in> set F. n1 \<noteq> n2 \<and> Entries v2 \<noteq> [] \<longrightarrow>
              Address (hd (Entries v1)) \<noteq> Address (hd (Entries v2))))"
proof (induction arbitrary: seen rule: list_all2_induct)
  case Nil
  then show ?case by simp
next
  case (Cons a L b F)
  obtain k r where a: "a = (k, r)" by (cases a)
  obtain n v where b: "b = (n, v)" by (cases b)
  from Cons.hyps(1) a b have p: "k = n" "cell W r = Some v" by (simp_all add: points_def)
  show ?case
  proof (cases "Entries v")
    case Nil
    with Cons.prems a p have "containsDuplicate W L seen = None" by simp
    from Cons.IH [OF this] Nil b show ?thesis by auto
  next
    case (Cons e0 es)
    with Cons.prems a p have fresh: "Address e0 \<notin> set seen"
      and rest: "containsDuplicate W L (Address e0 # seen) = None"
      by (auto split: if_splits)
    from Cons.IH [OF rest] have ih:
      "\<forall>(n1, v1) \<in> set F. Entries v1 \<noteq> [] \<longrightarrow>
         Address (hd (Entries v1)) \<notin> set (Address e0 # seen)
         \<and> (\<forall>(n2, v2) \<in> set F. n1 \<noteq> n2 \<and> Entries v2 \<noteq> [] \<longrightarrow>
                Address (hd (Entries v1)) \<noteq> Address (hd (Entries v2)))" .
    show ?thesis
      unfolding b using ih fresh Cons by (auto simp: eq_commute)
  qed
qed

lemma containsDuplicate_points_None_has:
  assumes "list_all2 (points W) L F" and "containsDuplicate W L [] = None"
  shows "\<not> hasDuplicate F"
  using containsDuplicate_points_None [OF assms] by (fastforce simp: hasDuplicate_def)


lemma dirWallets_keys:
  "n \<in> fst ` set (dirWallets dir files) \<Longrightarrow> (dir, n) \<in> fst ` set files"
  by (force simp: dirWallets_def)

lemma dirWallets_distinct:
  "distinct (map fst files) \<Longrightarrow> distinct (map fst (dirWallets dir files))"
proof (induction files)
  case Nil
  then show ?case by (simp add: dirWallets_def)
next
  case (Cons f files)
  obtain d name v where f: "f = ((d, name), v)" by (cases f) auto
  from Cons.prems f have fresh: "(d, name) \<notin> fst ` set files"
    and dist: "distinct (map fst files)" by simp_all
  have ih: "distinct (map fst (dirWallets dir files))" using Cons.IH [OF dist] .
  show ?case
  proof (cases "d = dir")
    case False
    with ih f show ?thesis by (simp add: dirWallets_def)
  next
    case True
    with fresh have "name \<notin> fst ` set (dirWallets dir files)"
      using dirWallets_keys by blast
    moreover have "dirWallets dir (f # files)
        = (name, v\<lparr>metaFilename := name\<rparr>) # dirWallets dir files"
      using True f by (simp add: dirWallets_def)
    ultimately show ?thesis using ih by simp
  qed
qed

lemma walletFiles_dirWallets: "walletFiles dir files = dirWallets dir (keptFiles dir files)"
  by (simp add: walletFiles_def)

lemma walletFiles_distinct:
  assumes "distinct (map fst files)"
  shows "distinct (map fst (walletFiles dir files))"
proof -
  have "distinct (map fst (keptFiles dir files))"
    unfolding keptFiles_def using assms by (rule distinct_map_filter)
  then show ?thesis
    unfolding walletFiles_dirWallets by (rule dirWallets_distinct)
qed

lemma NewService_checks:
  assumes "EnableWalletAPI c" and "distinct (map fst files)"
    and "\<not> MkdirAllFails D (WalletDir c)" and "\<not> RemoveBackupFails D (WalletDir c)"
    and "\<not> LoadFails D (WalletDir c)"
  shows "\<exists>L W3. list_all2 (points W3) L (walletFiles (WalletDir c) files)
           \<and> disk W3 = keptFiles (WalletDir c) files
           \<and> firstAddrIDMap (serv W3) = Map.empty
           \<and> NewService D c files =
               (case containsDuplicate W3 L [] of
                  Some err \<Rightarrow> Inl (err, disk W3)
                | None \<Rightarrow>
                    (case containsEmpty W3 L of
                       Some err \<Rightarrow> Inl (err, disk W3)
                     | None \<Rightarrow>
                         (case setWallets L W3 of
                            (Some err, W4) \<Rightarrow> Inl (err, disk W4)
                          | (None, W4) \<Rightarrow> Inr W4)))"
proof -
  let ?files = "filter (\<lambda>((d, name), _). \<not> (d = WalletDir c \<and> isBackupFile name)) files"
  let ?W1 = "\<lparr>serv = \<lparr>wallets = [], firstAddrIDMap = Map.empty,
                      walletDirectory = WalletDir c, cryptoType = ConfigCryptoType c,
                      enableWalletAPI = True, enableSeedAPI = EnableSeedAPI c\<rparr>,
              heap = [], disk = ?files\<rparr>"
  obtain L W3 where L: "loadFiles (WalletDir c) ?files [] ?W1 = (L, W3)"
    by (cases "loadFiles (WalletDir c) ?files [] ?W1")
  have kept: "?files = keptFiles (WalletDir c) files"
    by (simp add: keptFiles_def)
  have d: "distinct (map fst ?files)"
    using assms(2) by (rule distinct_map_filter)
  have "list_all2 (points W3) L ([] @ dirWallets (WalletDir c) ?files) \<and> heap_extends ?W1 W3"
    by (rule loadFiles_points [OF L _ d]) simp_all
  then have pts: "list_all2 (points W3) L (walletFiles (WalletDir c) files)"
    and ext: "heap_extends ?W1 W3"
    unfolding walletFiles_dirWallets keptFiles_def by simp_all
  from ext have s3: "serv W3 = serv ?W1" and d3: "disk W3 = disk ?W1"
    by (simp_all add: heap_extends_def)
  have ns: "NewService D c files =
               (case containsDuplicate W3 L [] of
                  Some err \<Rightarrow> Inl (err, disk W3)
                | None \<Rightarrow>
                    (case containsEmpty W3 L of
                       Some err \<Rightarrow> Inl (err, disk W3)
                     | None \<Rightarrow>
                         (case setWallets L W3 of
                            (Some err, W4) \<Rightarrow> Inl (err, disk W4)
                          | (None, W4) \<Rightarrow> Inr W4)))"
    using assms(1,3,4,5) L
    by (simp add: NewService_def Let_def removeBackupFiles_def LoadWallets_def)
  have "disk W3 = keptFiles (WalletDir c) files"
    using d3 kept by simp
  moreover have "firstAddrIDMap (serv W3) = Map.empty"
    by (simp add: s3)
  ultimately show ?thesis using pts ns by blast
qed

lemma NewService_outcome:
  assumes "EnableWalletAPI c" and "distinct (map fst files)"
    and "\<not> MkdirAllFails D (WalletDir c)" and "\<not> RemoveBackupFails D (WalletDir c)"
    and "\<not> LoadFails D (WalletDir c)"
  shows "if hasDuplicate (walletFiles (WalletDir c) files)
         then (\<exists>n v n' v'.
                 NewService D c files
                   = Inl (ErrDuplicateWallet (Address (hd (Entries v))) n,
                          keptFiles (WalletDir c) files)
                 \<and> (n, v) \<in> set (walletFiles (WalletDir c) files)
                 \<and> (n', v') \<in> set (walletFiles (WalletDir c) files)
                 \<and> n' \<noteq> n \<and> Entries v \<noteq> [] \<and> Entries v' \<noteq> []
                 \<and> Address (hd (Entries v')) = Address (hd (Entries v)))
         else if hasEmpty (walletFiles (WalletDir c) files)
         then (\<exists>n v. NewService D c files
                        = Inl (ErrEmptyWallet n, keptFiles (WalletDir c) files)
                 \<and> (n, v) \<in> set (walletFiles (WalletDir c) files) \<and> Entries v = [])
         else (\<exists>W'. NewService D c files = Inr W'
                 \<and> store_view W'
                     = map (\<lambda>(n, v). (n, Some v)) (walletFiles (WalletDir c) files))"
proof -
  define F where "F = walletFiles (WalletDir c) files"
  define K where "K = keptFiles (WalletDir c) files"
  from NewService_checks [OF assms] obtain L W3 where
      pts: "list_all2 (points W3) L F"
    and dk: "disk W3 = K"
    and ns: "NewService D c files =
               (case containsDuplicate W3 L [] of
                  Some err \<Rightarrow> Inl (err, disk W3)
                | None \<Rightarrow>
                    (case containsEmpty W3 L of
                       Some err \<Rightarrow> Inl (err, disk W3)
                     | None \<Rightarrow>
                         (case setWallets L W3 of
                            (Some err, W4) \<Rightarrow> Inl (err, disk W4)
                          | (None, W4) \<Rightarrow> Inr W4)))"
    unfolding F_def K_def by blast
  have distF: "distinct (map fst F)"
    unfolding F_def using assms(2) by (rule walletFiles_distinct)
  have dup_form: "\<exists>n v n' v'. err = ErrDuplicateWallet (Address (hd (Entries v))) n
                 \<and> (n, v) \<in> set F \<and> (n', v') \<in> set F
                 \<and> n' \<noteq> n \<and> Entries v \<noteq> [] \<and> Entries v' \<noteq> []
                 \<and> Address (hd (Entries v')) = Address (hd (Entries v))"
    if "containsDuplicate W3 L [] = Some err" for err
    using containsDuplicate_points_Some [OF pts that distF] by auto
  show ?thesis
  proof (cases "hasDuplicate F")
    case True
    then have "containsDuplicate W3 L [] \<noteq> None"
      using containsDuplicate_points_None_has [OF pts] by blast
    then obtain err where err: "containsDuplicate W3 L [] = Some err" by auto
    then have "NewService D c files = Inl (err, K)"
      by (simp add: ns dk)
    with dup_form [OF err] have "\<exists>n v n' v'.
                 NewService D c files
                   = Inl (ErrDuplicateWallet (Address (hd (Entries v))) n, K)
                 \<and> (n, v) \<in> set F \<and> (n', v') \<in> set F
                 \<and> n' \<noteq> n \<and> Entries v \<noteq> [] \<and> Entries v' \<noteq> []
                 \<and> Address (hd (Entries v')) = Address (hd (Entries v))"
      by auto
    with True show ?thesis unfolding F_def K_def by simp
  next
    case False
    have nodup: "containsDuplicate W3 L [] = None"
    proof (cases "containsDuplicate W3 L []")
      case None
      then show ?thesis .
    next
      case (Some err)
      from dup_form [OF Some] have "hasDuplicate F"
        by (fastforce simp: hasDuplicate_def)
      with False show ?thesis by simp
    qed
    show ?thesis
    proof (cases "hasEmpty F")
      case True
      then have "containsEmpty W3 L \<noteq> None"
        using containsEmpty_points_None [OF pts] by blast
      then obtain err where err: "containsEmpty W3 L = Some err" by auto
      then have "NewService D c files = Inl (err, K)"
        by (simp add: ns dk nodup)
      with containsEmpty_points_Some [OF pts err]
      have "\<exists>n v. NewService D c files = Inl (ErrEmptyWallet n, K)
                 \<and> (n, v) \<in> set F \<and> Entries v = []"
        by auto
      with True False show ?thesis unfolding F_def K_def by simp
    next
      case noempty: False
      have emp: "containsEmpty W3 L = None"
      proof (cases "containsEmpty W3 L")
        case None
        then show ?thesis .
      next
        case (Some err)
        from containsEmpty_points_Some [OF pts Some] have "hasEmpty F"
          by (auto simp: hasEmpty_def)
        with noempty show ?thesis by simp
      qed
      from indexWallets_points [OF pts noempty] obtain m where
          m: "indexWallets W3 L (firstAddrIDMap (serv W3)) = Inr m" by blast
      define W4 where "W4 = W3\<lparr>serv := (serv W3)\<lparr>wallets := L, firstAddrIDMap := m\<rparr>\<rparr>"
      have "setWallets L W3 = (None, W4)"
        by (simp add: setWallets_def m W4_def)
      then have res: "NewService D c files = Inr W4"
        by (simp add: ns nodup emp)
      have "store_view W4 = map (\<lambda>(k, r). (k, cell W3 r)) L"
        by (simp add: store_view_def W4_def cell_serv_update)
      also have "\<dots> = map (\<lambda>(n, v). (n, Some v)) F"
        using pts by (rule points_view)
      finally have "store_view W4 = map (\<lambda>(n, v). (n, Some v)) F" .
      with res have "\<exists>W'. NewService D c files = Inr W'
                 \<and> store_view W' = map (\<lambda>(n, v). (n, Some v)) F"
        by blast
      with False noempty show ?thesis unfolding F_def K_def by simp
    qed
  qed
qed

lemma NewService_io_errors:
  assumes "EnableWalletAPI c"
  shows "MkdirAllFails D (WalletDir c) \<Longrightarrow>
           NewService D c files = Inl (ErrCreateDirectory, files)"
    and "\<not> MkdirAllFails D (WalletDir c) \<Longrightarrow> RemoveBackupFails D (WalletDir c) \<Longrightarrow>
           NewService D c files = Inl (ErrRemoveBackupFiles, files)"
    and "\<not> MkdirAllFails D (WalletDir c) \<Longrightarrow> \<not> RemoveBackupFails D (WalletDir c) \<Longrightarrow>
         LoadFails D (WalletDir c) \<Longrightarrow>
           NewService D c files = Inl (ErrLoadWallets, keptFiles (WalletDir c) files)"
  using assms
  by (simp_all add: NewService_def Let_def removeBackupFiles_def LoadWallets_def keptFiles_def)


text \<open>
  Claim C2. In every state the service reaches, after \<^verbatim>\<open>NewService\<close> and after any
  sequence of \<^verbatim>\<open>CreateWallet\<close>, \<^verbatim>\<open>Remove\<close> and \<^verbatim>\<open>RecoverWallet\<close> calls, the first-address
  index maps the first address of every stored wallet to the id it is stored under (and
  every stored wallet has a first address), so no two stored wallets share a first
  address. And the outcome of \<^verbatim>\<open>NewService\<close> with the wallet API on, on a disk that has
  one file per name, is this: when the directory cannot be made, the backup files not
  removed or the wallets not loaded, the error of that step; otherwise, when two wallet
  files of the directory have entries and share a first address, the error
  \<open>ErrDuplicateWallet\<close> that names this address and one of the two files; otherwise,
  when a wallet file of the directory has no entry, the error \<open>ErrEmptyWallet\<close> that
  names such a file; otherwise a service whose store holds exactly the wallet files of
  the directory. An error comes with the disk and with no service.
\<close>

theorem store_first_address_invariant:
  "(reachable W \<longrightarrow>
      (\<forall>k v. stored W k = Some v \<longrightarrow>
           Entries v \<noteq> [] \<and> firstAddrIDMap (serv W) (Address (hd (Entries v))) = Some k)
    \<and> (\<forall>k1 v1 k2 v2. stored W k1 = Some v1 \<and> stored W k2 = Some v2 \<and> k1 \<noteq> k2 \<longrightarrow>
           Address (hd (Entries v1)) \<noteq> Address (hd (Entries v2))))
 \<and> (EnableWalletAPI c \<and> distinct (map fst files) \<longrightarrow>
      (if MkdirAllFails D (WalletDir c)
       then NewService D c files = Inl (ErrCreateDirectory, files)
       else if RemoveBackupFails D (WalletDir c)
       then NewService D c files = Inl (ErrRemoveBackupFiles, files)
       else if LoadFails D (WalletDir c)
       then NewService D c files = Inl (ErrLoadWallets, keptFiles (WalletDir c) files)
       else if hasDuplicate (walletFiles (WalletDir c) files)
       then (\<exists>n v n' v'.
               NewService D c files
                 = Inl (ErrDuplicateWallet (Address (hd (Entries v))) n,
                        keptFiles (WalletDir c) files)
               \<and> (n, v) \<in> set (walletFiles (WalletDir c) files)
               \<and> (n', v') \<in> set (walletFiles (WalletDir c) files)
               \<and> n' \<noteq> n \<and> Entries v \<noteq> [] \<and> Entries v' \<noteq> []
               \<and> Address (hd (Entries v')) = Address (hd (Entries v)))
       else if hasEmpty (walletFiles (WalletDir c) files)
       then (\<exists>n v. NewService D c files
                      = Inl (ErrEmptyWallet n, keptFiles (WalletDir c) files)
               \<and> (n, v) \<in> set (walletFiles (WalletDir c) files) \<and> Entries v = [])
       else (\<exists>W'. NewService D c files = Inr W'
               \<and> store_view W'
                   = map (\<lambda>(n, v). (n, Some v)) (walletFiles (WalletDir c) files))))"
proof (intro conjI impI)
  assume "reachable W"
  then have inv: "service_inv W"
  proof (induction rule: reachable.induct)
    case (start D c files W)
    then show ?case by (rule NewService_inv)
  next
    case (create W D wltName options bg res W')
    then show ?case using CreateWallet_inv by blast
  next
    case (remove W wltID err W')
    then show ?case using Remove_inv by blast
  next
    case (recover W D wltName sd password res W')
    then show ?case using RecoverWallet_inv by blast
  qed
  then show "\<forall>k v. stored W k = Some v \<longrightarrow>
      Entries v \<noteq> [] \<and> firstAddrIDMap (serv W) (Address (hd (Entries v))) = Some k"
    by (simp add: service_inv_def)
  show "\<forall>k1 v1 k2 v2. stored W k1 = Some v1 \<and> stored W k2 = Some v2 \<and> k1 \<noteq> k2 \<longrightarrow>
      Address (hd (Entries v1)) \<noteq> Address (hd (Entries v2))"
    using inv_distinct_first [OF inv] by blast
next
  assume a: "EnableWalletAPI c \<and> distinct (map fst files)"
  then have api: "EnableWalletAPI c" and dist: "distinct (map fst files)" by simp_all
  show "if MkdirAllFails D (WalletDir c)
       then NewService D c files = Inl (ErrCreateDirectory, files)
       else if RemoveBackupFails D (WalletDir c)
       then NewService D c files = Inl (ErrRemoveBackupFiles, files)
       else if LoadFails D (WalletDir c)
       then NewService D c files = Inl (ErrLoadWallets, keptFiles (WalletDir c) files)
       else if hasDuplicate (walletFiles (WalletDir c) files)
       then (\<exists>n v n' v'.
               NewService D c files
                 = Inl (ErrDuplicateWallet (Address (hd (Entries v))) n,
                        keptFiles (WalletDir c) files)
               \<and> (n, v) \<in> set (walletFiles (WalletDir c) files)
               \<and> (n', v') \<in> set (walletFiles (WalletDir c) files)
               \<and> n' \<noteq> n \<and> Entries v \<noteq> [] \<and> Entries v' \<noteq> []
               \<and> Address (hd (Entries v')) = Address (hd (Entries v)))
       else if hasEmpty (walletFiles (WalletDir c) files)
       then (\<exists>n v. NewService D c files
                      = Inl (ErrEmptyWallet n, keptFiles (WalletDir c) files)
               \<and> (n, v) \<in> set (walletFiles (WalletDir c) files) \<and> Entries v = [])
       else (\<exists>W'. NewService D c files = Inr W'
               \<and> store_view W'
                   = map (\<lambda>(n, v). (n, Some v)) (walletFiles (WalletDir c) files))"
  proof (cases "MkdirAllFails D (WalletDir c)")
    case True
    with NewService_io_errors(1) [OF api] show ?thesis by simp
  next
    case mk: False
    show ?thesis
    proof (cases "RemoveBackupFails D (WalletDir c)")
      case True
      with mk NewService_io_errors(2) [OF api] show ?thesis by simp
    next
      case rm: False
      show ?thesis
      proof (cases "LoadFails D (WalletDir c)")
        case True
        with mk rm NewService_io_errors(3) [OF api] show ?thesis by simp
      next
        case False
        from NewService_outcome [OF api dist mk rm False] mk rm False
        show ?thesis by (simp only: if_False)
      qed
    qed
  qed
qed

lemmas NewService_eval = NewService_def Let_def removeBackupFiles_def LoadWallets_def
  isBackupFile_def alloc_def cell_def setWallets_def exConfig_def exDeps_def exWorld_def
  exA_def exB_def exC_def exE_def exFilesDuplicate_def exFilesEmpty_def

lemma ex_start:
  "NewService exDeps exConfig (disk (exWorld ''/w''))
     = Inr (projr (NewService exDeps exConfig (disk (exWorld ''/w''))))"
  by (simp add: NewService_eval)

lemma ex_start_stored:
  "stored (projr (NewService exDeps exConfig (disk (exWorld ''/w'')))) ''a.wlt'' = Some exA"
  "stored (projr (NewService exDeps exConfig (disk (exWorld ''/w'')))) ''b.wlt'' = Some exB"
  by (simp_all add: NewService_eval stored_def Wallets_get_def)

lemma ex_dup:
  "NewService exDeps exConfig exFilesDuplicate
     = Inl (ErrDuplicateWallet ''skyPsa'' ''a2.wlt'', exFilesDuplicate)"
  by (simp add: NewService_eval)

lemma ex_empty:
  "NewService exDeps exConfig exFilesEmpty = Inl (ErrEmptyWallet ''e.wlt'', exFilesEmpty)"
  by (simp add: NewService_eval)

lemma ex_removed_stored:
  "stored (snd (Remove ''b.wlt'' (projr (NewService exDeps exConfig (disk (exWorld ''/w''))))))
     ''a.wlt'' = Some exA"
  by (simp add: NewService_eval stored_def Wallets_get_def Remove_def Wallets_remove_def)

lemma ex_io:
  "\<not> MkdirAllFails exDeps (WalletDir exConfig)"
  "\<not> RemoveBackupFails exDeps (WalletDir exConfig)"
  "\<not> LoadFails exDeps (WalletDir exConfig)"
  by (simp_all add: exDeps_def)

lemma ex_disks:
  "EnableWalletAPI exConfig"
  "distinct (map fst exFilesDuplicate)"
  "distinct (map fst exFilesEmpty)"
  "hasDuplicate (walletFiles (WalletDir exConfig) exFilesDuplicate)"
  "\<not> hasDuplicate (walletFiles (WalletDir exConfig) exFilesEmpty)"
  "hasEmpty (walletFiles (WalletDir exConfig) exFilesEmpty)"
  by (simp_all add: exConfig_def exFilesDuplicate_def exFilesEmpty_def hasDuplicate_def
      hasEmpty_def walletFiles_def dirWallets_def keptFiles_def isBackupFile_def exA_def exB_def
      exE_def)

theorem store_first_address_invariant_witness:
  "NewService exDeps exConfig (disk (exWorld ''/w''))
     = Inr (projr (NewService exDeps exConfig (disk (exWorld ''/w''))))
   \<and> reachable (projr (NewService exDeps exConfig (disk (exWorld ''/w''))))
   \<and> stored (projr (NewService exDeps exConfig (disk (exWorld ''/w'')))) ''a.wlt'' = Some exA
   \<and> stored (projr (NewService exDeps exConfig (disk (exWorld ''/w'')))) ''b.wlt'' = Some exB
   \<and> firstAddrIDMap (serv (projr (NewService exDeps exConfig (disk (exWorld ''/w'')))))
        (Address (hd (Entries exA))) = Some ''a.wlt''
   \<and> Address (hd (Entries exA)) \<noteq> Address (hd (Entries exB))
   \<and> reachable (snd (Remove ''b.wlt'' (projr (NewService exDeps exConfig (disk (exWorld ''/w''))))))
   \<and> firstAddrIDMap
        (serv (snd (Remove ''b.wlt'' (projr (NewService exDeps exConfig (disk (exWorld ''/w'')))))))
        (Address (hd (Entries exA))) = Some ''a.wlt''
   \<and> EnableWalletAPI exConfig
   \<and> distinct (map fst exFilesDuplicate)
   \<and> hasDuplicate (walletFiles (WalletDir exConfig) exFilesDuplicate)
   \<and> (\<exists>n v n' v'.
         NewService exDeps exConfig exFilesDuplicate
           = Inl (ErrDuplicateWallet (Address (hd (Entries v))) n,
                  keptFiles (WalletDir exConfig) exFilesDuplicate)
         \<and> (n, v) \<in> set (walletFiles (WalletDir exConfig) exFilesDuplicate)
         \<and> (n', v') \<in> set (walletFiles (WalletDir exConfig) exFilesDuplicate)
         \<and> n' \<noteq> n \<and> Entries v \<noteq> [] \<and> Entries v' \<noteq> []
         \<and> Address (hd (Entries v')) = Address (hd (Entries v)))
   \<and> NewService exDeps exConfig exFilesDuplicate
        = Inl (ErrDuplicateWallet ''skyPsa'' ''a2.wlt'', exFilesDuplicate)
   \<and> distinct (map fst exFilesEmpty)
   \<and> \<not> hasDuplicate (walletFiles (WalletDir exConfig) exFilesEmpty)
   \<and> hasEmpty (walletFiles (WalletDir exConfig) exFilesEmpty)
   \<and> (\<exists>n v. NewService exDeps exConfig exFilesEmpty
                = Inl (ErrEmptyWallet n, keptFiles (WalletDir exConfig) exFilesEmpty)
         \<and> (n, v) \<in> set (walletFiles (WalletDir exConfig) exFilesEmpty) \<and> Entries v = [])
   \<and> NewService exDeps exConfig exFilesEmpty = Inl (ErrEmptyWallet ''e.wlt'', exFilesEmpty)"
proof -
  define W0 where "W0 = projr (NewService exDeps exConfig (disk (exWorld ''/w'')))"
  define W1 where "W1 = snd (Remove ''b.wlt'' W0)"
  have start: "NewService exDeps exConfig (disk (exWorld ''/w'')) = Inr W0"
    unfolding W0_def by (rule ex_start)
  have r0: "reachable W0"
    using start by (rule reachable.start)
  have "Remove ''b.wlt'' W0 = (fst (Remove ''b.wlt'' W0), W1)"
    by (simp add: W1_def)
  with r0 have r1: "reachable W1"
    by (rule reachable.remove)
  have sA: "stored W0 ''a.wlt'' = Some exA" and sB: "stored W0 ''b.wlt'' = Some exB"
    unfolding W0_def by (rule ex_start_stored)+
  have sA1: "stored W1 ''a.wlt'' = Some exA"
    unfolding W1_def W0_def by (rule ex_removed_stored)
  note at_start = store_first_address_invariant
      [where W = W0 and c = exConfig and files = exFilesDuplicate and D = exDeps]
  note after_remove = store_first_address_invariant
      [where W = W1 and c = exConfig and files = exFilesEmpty and D = exDeps]
  note inv0 = at_start [THEN conjunct1, THEN mp, OF r0]
  note inv1 = after_remove [THEN conjunct1, THEN mp, OF r1]
  have i0: "firstAddrIDMap (serv W0) (Address (hd (Entries exA))) = Some ''a.wlt''"
    using inv0 [THEN conjunct1, rule_format, OF sA] by simp
  have ne: "Address (hd (Entries exA)) \<noteq> Address (hd (Entries exB))"
    using inv0 [THEN conjunct2, rule_format, of "''a.wlt''" exA "''b.wlt''" exB] sA sB by simp
  have i1: "firstAddrIDMap (serv W1) (Address (hd (Entries exA))) = Some ''a.wlt''"
    using inv1 [THEN conjunct1, rule_format, OF sA1] by simp
  note on_dup = at_start [THEN conjunct2, THEN mp, OF conjI [OF ex_disks(1) ex_disks(2)]]
  note on_empty = after_remove [THEN conjunct2, THEN mp, OF conjI [OF ex_disks(1) ex_disks(3)]]
  have dup: "\<exists>n v n' v'.
         NewService exDeps exConfig exFilesDuplicate
           = Inl (ErrDuplicateWallet (Address (hd (Entries v))) n,
                  keptFiles (WalletDir exConfig) exFilesDuplicate)
         \<and> (n, v) \<in> set (walletFiles (WalletDir exConfig) exFilesDuplicate)
         \<and> (n', v') \<in> set (walletFiles (WalletDir exConfig) exFilesDuplicate)
         \<and> n' \<noteq> n \<and> Entries v \<noteq> [] \<and> Entries v' \<noteq> []
         \<and> Address (hd (Entries v')) = Address (hd (Entries v))"
    using on_dup ex_io ex_disks(4) by (simp only: if_True if_False)
  have emp: "\<exists>n v. NewService exDeps exConfig exFilesEmpty
                = Inl (ErrEmptyWallet n, keptFiles (WalletDir exConfig) exFilesEmpty)
         \<and> (n, v) \<in> set (walletFiles (WalletDir exConfig) exFilesEmpty) \<and> Entries v = []"
    using on_empty ex_io ex_disks(5,6) by (simp only: if_True if_False)
  show ?thesis
    using start r0 r1 sA sB i0 ne i1 ex_disks(1,2,4) dup ex_dup ex_disks(3,5,6) emp ex_empty
    unfolding W1_def W0_def by (intro conjI)
qed

end
